(* ===== verification/Prelude.thy ===== *)
theory Prelude
  imports Main "HOL-Library.Finite_Map" "HOL-Library.Sublist"
begin

text \<open>
  Shared vocabulary of the development: Go errors as values, programs that pass
  the state of the outside world explicitly, Go maps from strings to strings, and the
  rules by which the component theories reason about programs (success inversion and a
  small trace logic for instrumented clients).
\<close>

named_theorems prog_simps \<open>equations that run a program one call at a time\<close>
named_theorems prog_ok \<open>inversion of a successful run\<close>

section \<open>Errors and outcomes\<close>

text \<open>
  A Go \<^verbatim>\<open>error\<close> is one of the following: a text made by \<^verbatim>\<open>fmt.Errorf\<close>, the
  typed error of \<^verbatim>\<open>internal/wif\<close>, an error returned by an API client (the code only
  ever asks whether it is a Kubernetes \<^verbatim>\<open>NotFound\<close>), or a text wrapped around another
  error by \<^verbatim>\<open>%w\<close>.
\<close>

datatype api_error = NotFound string | OtherError string

datatype error =
    ErrMsg string
  | ErrProviderNotReady string
  | ErrApi api_error
  | ErrWrap string error

text \<open>
  A call ends with a value, with an error, or with a run-time panic (a nil pointer
  dereference), which no caller of this program recovers from.
\<close>

datatype 'a result = Ok 'a | Err error | Panic

fun isNotFound :: "error \<Rightarrow> bool" where
  "isNotFound (ErrApi (NotFound _)) = True"
| "isNotFound (ErrWrap _ e) = isNotFound e"
| "isNotFound _ = False"

text \<open>\<^verbatim>\<open>errors.As(err, &notReady)\<close>: the typed error anywhere in the wrap chain.\<close>

fun asProviderNotReady :: "error \<Rightarrow> string option" where
  "asProviderNotReady (ErrProviderNotReady c) = Some c"
| "asProviderNotReady (ErrWrap _ e) = asProviderNotReady e"
| "asProviderNotReady _ = None"

section \<open>Programs\<close>

text \<open>
  \<open>'w\<close> is the state of everything outside the process (the Thalassa API, the
  Kubernetes API server). A client operation (\<open>api\<close>) and a function of the program
  (\<open>prog\<close>) take it and return it.
\<close>

type_synonym ('a, 'w) api = "'w \<Rightarrow> (api_error + 'a) \<times> 'w"
type_synonym ('a, 'w) prog = "'w \<Rightarrow> 'a result \<times> 'w"

definition okE :: "'a \<Rightarrow> ('a, 'w) prog" where
  "okE x w = (Ok x, w)"

definition failE :: "error \<Rightarrow> ('a, 'w) prog" where
  "failE e w = (Err e, w)"

definition panicE :: "('a, 'w) prog" where
  "panicE w = (Panic, w)"

text \<open>\<open>x, err := m(); if err != nil { return err }; k(x)\<close>\<close>

definition bindE :: "('a, 'w) prog \<Rightarrow> ('a \<Rightarrow> ('b, 'w) prog) \<Rightarrow> ('b, 'w) prog" where
  "bindE m k w =
     (case m w of
        (Ok x, w') \<Rightarrow> k x w'
      | (Err e, w') \<Rightarrow> (Err e, w')
      | (Panic, w') \<Rightarrow> (Panic, w'))"

text \<open>\<open>x, err := m()\<close>, with both outcomes handed to the rest of the function.\<close>

definition tryE :: "('a, 'w) prog \<Rightarrow> (error + 'a \<Rightarrow> ('b, 'w) prog) \<Rightarrow> ('b, 'w) prog" where
  "tryE m k w =
     (case m w of
        (Ok x, w') \<Rightarrow> k (Inr x) w'
      | (Err e, w') \<Rightarrow> k (Inl e) w'
      | (Panic, w') \<Rightarrow> (Panic, w'))"

text \<open>A call of a client operation; its error becomes an error of the program.\<close>

definition call :: "('a, 'w) api \<Rightarrow> ('a, 'w) prog" where
  "call f w = (case f w of (Inl e, w') \<Rightarrow> (Err (ErrApi e), w') | (Inr x, w') \<Rightarrow> (Ok x, w'))"

text \<open>A pure check that returns nil or an error.\<close>

definition checkE :: "error option \<Rightarrow> (unit, 'w) prog" where
  "checkE r = (case r of None \<Rightarrow> okE () | Some e \<Rightarrow> failE e)"

text \<open>\<open>fmt.Errorf("text: %w", err)\<close> around the error of a call.\<close>

definition wrapE :: "string \<Rightarrow> ('a, 'w) prog \<Rightarrow> ('a, 'w) prog" where
  "wrapE t m = tryE m (\<lambda>r. case r of Inl e \<Rightarrow> failE (ErrWrap t e) | Inr x \<Rightarrow> okE x)"

text \<open>Reading a field through a pointer that may be nil.\<close>

definition derefE :: "'a option \<Rightarrow> ('a, 'w) prog" where
  "derefE p = (case p of None \<Rightarrow> panicE | Some x \<Rightarrow> okE x)"

subsection \<open>Running programs\<close>

lemma okE_run [prog_simps]: "okE x w = (Ok x, w)"
  by (simp add: okE_def)

lemma failE_run [prog_simps]: "failE e w = (Err e, w)"
  by (simp add: failE_def)

lemma panicE_run [prog_simps]: "panicE w = (Panic, w)"
  by (simp add: panicE_def)

lemma checkE_run [prog_simps]:
  "checkE None w = (Ok (), w)" "checkE (Some e) w = (Err e, w)"
  by (simp_all add: checkE_def okE_def failE_def)

lemma derefE_run [prog_simps]:
  "derefE None w = (Panic, w)" "derefE (Some x) w = (Ok x, w)"
  by (simp_all add: derefE_def okE_def panicE_def)

lemma bindE_run [prog_simps]:
  "m w = (Ok x, w') \<Longrightarrow> bindE m k w = k x w'"
  "m w = (Err e, w') \<Longrightarrow> bindE m k w = (Err e, w')"
  "m w = (Panic, w') \<Longrightarrow> bindE m k w = (Panic, w')"
  by (simp_all add: bindE_def)

lemma tryE_run [prog_simps]:
  "m w = (Ok x, w') \<Longrightarrow> tryE m h w = h (Inr x) w'"
  "m w = (Err e, w') \<Longrightarrow> tryE m h w = h (Inl e) w'"
  "m w = (Panic, w') \<Longrightarrow> tryE m h w = (Panic, w')"
  by (simp_all add: tryE_def)

lemma call_run [prog_simps]:
  "f w = (Inr x, w') \<Longrightarrow> call f w = (Ok x, w')"
  "f w = (Inl e, w') \<Longrightarrow> call f w = (Err (ErrApi e), w')"
  by (simp_all add: call_def)

lemma wrapE_run [prog_simps]:
  "m w = (Ok x, w') \<Longrightarrow> wrapE t m w = (Ok x, w')"
  "m w = (Err e, w') \<Longrightarrow> wrapE t m w = (Err (ErrWrap t e), w')"
  "m w = (Panic, w') \<Longrightarrow> wrapE t m w = (Panic, w')"
  by (simp_all add: wrapE_def tryE_def okE_def failE_def)

subsection \<open>Inversion of a run that succeeds\<close>

lemma okE_ok [prog_ok]: "okE x w = (Ok y, w') \<longleftrightarrow> y = x \<and> w' = w"
  by (auto simp: okE_def)

lemma failE_ok [prog_ok]: "failE e w = (Ok y, w') \<longleftrightarrow> False"
  by (simp add: failE_def)

lemma panicE_ok [prog_ok]: "panicE w = (Ok y, w') \<longleftrightarrow> False"
  by (simp add: panicE_def)

lemma checkE_ok [prog_ok]: "checkE r w = (Ok y, w') \<longleftrightarrow> r = None \<and> w' = w"
  by (auto simp: checkE_def okE_def failE_def split: option.splits)

lemma derefE_ok [prog_ok]: "derefE p w = (Ok y, w') \<longleftrightarrow> p = Some y \<and> w' = w"
  by (auto simp: derefE_def okE_def panicE_def split: option.splits)

lemma bindE_ok [prog_ok]:
  "bindE m k w = (Ok y, w') \<longleftrightarrow> (\<exists>x v. m w = (Ok x, v) \<and> k x v = (Ok y, w'))"
  by (auto simp: bindE_def split: prod.splits result.splits)

lemma call_ok [prog_ok]: "call f w = (Ok y, w') \<longleftrightarrow> f w = (Inr y, w')"
  by (auto simp: call_def split: prod.splits sum.splits)

lemma wrapE_ok [prog_ok]: "wrapE t m w = (Ok y, w') \<longleftrightarrow> m w = (Ok y, w')"
  by (auto simp: wrapE_def tryE_def okE_def failE_def split: prod.splits result.splits)

lemma tryE_ok [prog_ok]:
  "tryE m h w = (Ok y, w') \<longleftrightarrow>
     (\<exists>x v. m w = (Ok x, v) \<and> h (Inr x) v = (Ok y, w')) \<or>
     (\<exists>e v. m w = (Err e, v) \<and> h (Inl e) v = (Ok y, w'))"
  by (auto simp: tryE_def split: prod.splits result.splits)

section \<open>Programs that cannot panic\<close>

definition total_prog :: "('a, 'w) prog \<Rightarrow> bool" where
  "total_prog m \<longleftrightarrow> (\<forall>w. fst (m w) \<noteq> Panic)"

named_theorems total_intros \<open>introduction rules for the absence of panics\<close>

lemma total_okE [total_intros]: "total_prog (okE x)"
  by (simp add: total_prog_def okE_def)

lemma total_failE [total_intros]: "total_prog (failE e)"
  by (simp add: total_prog_def failE_def)

lemma total_checkE [total_intros]: "total_prog (checkE r)"
  by (cases r) (simp_all add: total_prog_def checkE_def okE_def failE_def)

lemma total_call [total_intros]: "total_prog (call f)"
  by (auto simp: total_prog_def call_def split: prod.splits sum.splits)

lemma total_tryE [total_intros]:
  assumes "total_prog m" and "\<And>r. total_prog (h r)"
  shows "total_prog (tryE m h)"
  unfolding total_prog_def
proof
  fix w
  show "fst (tryE m h w) \<noteq> Panic"
  proof (cases "m w")
    case (Pair r v)
    with assms(1) have "r \<noteq> Panic" by (auto simp: total_prog_def dest: spec [of _ w])
    with Pair assms(2) show ?thesis
      by (cases r) (auto simp: tryE_def total_prog_def)
  qed
qed

lemma total_bindE:
  assumes "total_prog m" and "\<And>x w v. m w = (Ok x, v) \<Longrightarrow> total_prog (k x)"
  shows "total_prog (bindE m k)"
  unfolding total_prog_def
proof
  fix w
  show "fst (bindE m k w) \<noteq> Panic"
  proof (cases "m w")
    case (Pair r v)
    with assms(1) have "r \<noteq> Panic" by (auto simp: total_prog_def dest: spec [of _ w])
    with Pair assms(2) show ?thesis
      by (cases r) (auto simp: bindE_def total_prog_def)
  qed
qed

lemma total_bindE_all [total_intros]:
  assumes "total_prog m" and "\<And>x. total_prog (k x)"
  shows "total_prog (bindE m k)"
  using assms by (rule total_bindE)

lemma total_wrapE [total_intros]:
  fixes m :: "('a, 'w) prog"
  assumes "total_prog m"
  shows "total_prog (wrapE t m)"
  unfolding wrapE_def
proof (rule total_tryE [OF assms])
  fix r :: "error + 'a"
  show "total_prog (case r of Inl e \<Rightarrow> failE (ErrWrap t e) | Inr x \<Rightarrow> okE x)"
    by (cases r) (simp_all add: total_okE total_failE)
qed

lemma total_run: "total_prog m \<Longrightarrow> m w \<noteq> (Panic, w')"
  by (auto simp: total_prog_def dest: spec [of _ w])

section \<open>A trace logic for instrumented clients\<close>

text \<open>
  An instrumented client keeps, beside the world, the list of its calls with their
  responses. \<open>traced m Q\<close> says that every run of \<open>m\<close> appends to that list some events
  \<open>es\<close> such that \<open>Q r es\<close> holds for the outcome \<open>r\<close>.
\<close>

definition traced ::
    "('a, 'w \<times> 'e list) prog \<Rightarrow> ('a result \<Rightarrow> 'e list \<Rightarrow> bool) \<Rightarrow> bool" where
  "traced m Q \<longleftrightarrow>
     (\<forall>w l r w' l'. m (w, l) = (r, (w', l')) \<longrightarrow> (\<exists>es. l' = l @ es \<and> Q r es))"

lemma tracedI:
  assumes "\<And>w l r w' l'. m (w, l) = (r, (w', l')) \<Longrightarrow> \<exists>es. l' = l @ es \<and> Q r es"
  shows "traced m Q"
  using assms by (simp add: traced_def)

lemma tracedD: "traced m Q \<Longrightarrow> m (w, l) = (r, (w', l')) \<Longrightarrow> \<exists>es. l' = l @ es \<and> Q r es"
  by (simp add: traced_def)

lemma traced_weaken:
  "traced m Q \<Longrightarrow> (\<And>r es. Q r es \<Longrightarrow> Q' r es) \<Longrightarrow> traced m Q'"
  by (rule tracedI, drule (1) tracedD) blast

lemma traced_okE: "Q (Ok x) [] \<Longrightarrow> traced (okE x) Q"
  by (simp add: traced_def okE_def)

lemma traced_failE: "Q (Err e) [] \<Longrightarrow> traced (failE e) Q"
  by (simp add: traced_def failE_def)

lemma traced_panicE: "Q Panic [] \<Longrightarrow> traced panicE Q"
  by (simp add: traced_def panicE_def)

lemma traced_checkE:
  "(r = None \<Longrightarrow> Q (Ok ()) []) \<Longrightarrow> (\<And>e. r = Some e \<Longrightarrow> Q (Err e) []) \<Longrightarrow> traced (checkE r) Q"
  by (cases r) (auto simp: checkE_def intro: traced_okE traced_failE)

lemma traced_derefE:
  "(\<And>x. p = Some x \<Longrightarrow> Q (Ok x) []) \<Longrightarrow> (p = None \<Longrightarrow> Q Panic []) \<Longrightarrow> traced (derefE p) Q"
  by (cases p) (auto simp: derefE_def intro: traced_okE traced_panicE)

lemma traced_bindE:
  assumes m: "traced m Q"
    and ok: "\<And>x es. Q (Ok x) es \<Longrightarrow> traced (k x) (\<lambda>r es'. R r (es @ es'))"
    and err: "\<And>e es. Q (Err e) es \<Longrightarrow> R (Err e) es"
    and pan: "\<And>es. Q Panic es \<Longrightarrow> R Panic es"
  shows "traced (bindE m k) R"
proof (rule tracedI)
  fix w l r w' l'
  assume run: "bindE m k (w, l) = (r, w', l')"
  obtain r1 w1 l1 where m1: "m (w, l) = (r1, w1, l1)" by (metis prod_cases3)
  from tracedD [OF m m1] obtain es where es: "l1 = l @ es" "Q r1 es" by blast
  show "\<exists>es. l' = l @ es \<and> R r es"
  proof (cases r1)
    case (Ok x)
    with run m1 have "k x (w1, l1) = (r, w', l')" by (simp add: bindE_def)
    from tracedD [OF ok this] es Ok show ?thesis by fastforce
  next
    case (Err e)
    with run m1 es show ?thesis by (auto simp: bindE_def intro: err)
  next
    case Panic
    with run m1 es show ?thesis by (auto simp: bindE_def intro: pan)
  qed
qed

lemma traced_tryE:
  assumes m: "traced m Q"
    and ok: "\<And>x es. Q (Ok x) es \<Longrightarrow> traced (h (Inr x)) (\<lambda>r es'. R r (es @ es'))"
    and err: "\<And>e es. Q (Err e) es \<Longrightarrow> traced (h (Inl e)) (\<lambda>r es'. R r (es @ es'))"
    and pan: "\<And>es. Q Panic es \<Longrightarrow> R Panic es"
  shows "traced (tryE m h) R"
proof (rule tracedI)
  fix w l r w' l'
  assume run: "tryE m h (w, l) = (r, w', l')"
  obtain r1 w1 l1 where m1: "m (w, l) = (r1, w1, l1)" by (metis prod_cases3)
  from tracedD [OF m m1] obtain es where es: "l1 = l @ es" "Q r1 es" by blast
  show "\<exists>es. l' = l @ es \<and> R r es"
  proof (cases r1)
    case (Ok x)
    with run m1 have "h (Inr x) (w1, l1) = (r, w', l')" by (simp add: tryE_def)
    from tracedD [OF ok this] es Ok show ?thesis by fastforce
  next
    case (Err e)
    with run m1 have "h (Inl e) (w1, l1) = (r, w', l')" by (simp add: tryE_def)
    from tracedD [OF err this] es Err show ?thesis by fastforce
  next
    case Panic
    with run m1 es show ?thesis by (auto simp: tryE_def intro: pan)
  qed
qed

lemma traced_wrapE:
  assumes "traced m Q"
    and "\<And>x es. Q (Ok x) es \<Longrightarrow> R (Ok x) es"
    and "\<And>e es. Q (Err e) es \<Longrightarrow> R (Err (ErrWrap t e)) es"
    and "\<And>es. Q Panic es \<Longrightarrow> R Panic es"
  shows "traced (wrapE t m) R"
  unfolding wrapE_def
  by (rule traced_tryE [OF assms(1)]) (auto intro!: traced_okE traced_failE assms(2-4))

subsection \<open>Instrumented operations\<close>

text \<open>\<open>logcall ev f\<close> is \<open>f\<close> that also appends the event of its response to the trace.\<close>

definition logcall ::
    "(api_error + 'a \<Rightarrow> 'e) \<Rightarrow> ('a, 'w) api \<Rightarrow> ('a, 'w \<times> 'e list) api" where
  "logcall ev f = (\<lambda>(w, l). case f w of (r, w') \<Rightarrow> (r, (w', l @ [ev r])))"

text \<open>
  Instrumentation changes nothing else: dropping the trace gives the run of the client
  itself.
\<close>

lemma logcall_run: "logcall ev f (w, l) = (fst (f w), (snd (f w), l @ [ev (fst (f w))]))"
  by (simp add: logcall_def split: prod.splits)

definition outcome_of :: "api_error + 'a \<Rightarrow> 'a result" where
  "outcome_of x = (case x of Inl e \<Rightarrow> Err (ErrApi e) | Inr y \<Rightarrow> Ok y)"

lemma outcome_of_simps [simp]:
  "outcome_of (Inl e) = Err (ErrApi e)" "outcome_of (Inr y) = Ok y"
  by (simp_all add: outcome_of_def)

lemma outcome_of_eq [simp]:
  "Ok y = outcome_of x \<longleftrightarrow> x = Inr y"
  "Err e = outcome_of x \<longleftrightarrow> (\<exists>a. x = Inl a \<and> e = ErrApi a)"
  "Panic = outcome_of x \<longleftrightarrow> False"
  by (cases x; auto)+

lemma traced_logcall:
  "traced (call (logcall ev f)) (\<lambda>r es. \<exists>x. es = [ev x] \<and> r = outcome_of x)"
proof (rule tracedI)
  fix w l r w' l'
  assume "call (logcall ev f) (w, l) = (r, w', l')"
  then show "\<exists>es. l' = l @ es \<and> (\<exists>x. es = [ev x] \<and> r = outcome_of x)"
    by (cases "f w") (auto simp: call_def logcall_run split: sum.splits)
qed

subsection \<open>Events that satisfy a predicate\<close>

text \<open>\<open>emits P m\<close>: every event of every run of \<open>m\<close> satisfies \<open>P\<close>.\<close>

definition emits :: "('e \<Rightarrow> bool) \<Rightarrow> ('a, 'w \<times> 'e list) prog \<Rightarrow> bool" where
  "emits P m \<longleftrightarrow> traced m (\<lambda>r es. list_all P es)"

named_theorems emits_intros \<open>introduction rules for the events of a program\<close>

lemma emits_okE [emits_intros]: "emits P (okE x)"
  by (simp add: emits_def traced_okE)

lemma emits_failE [emits_intros]: "emits P (failE e)"
  by (simp add: emits_def traced_failE)

lemma emits_checkE [emits_intros]: "emits P (checkE r)"
  by (simp add: emits_def traced_checkE)

lemma emits_derefE [emits_intros]: "emits P (derefE p)"
  by (simp add: emits_def traced_derefE)

lemma emits_bindE [emits_intros]:
  assumes "emits P m" and "\<And>x. emits P (k x)"
  shows "emits P (bindE m k)"
  unfolding emits_def
proof (rule traced_bindE [OF assms(1) [unfolded emits_def]])
  fix x es
  assume "list_all P es"
  then show "traced (k x) (\<lambda>r es'. list_all P (es @ es'))"
    using assms(2) [of x] by (simp add: emits_def)
qed

lemma emits_tryE [emits_intros]:
  assumes "emits P m" and "\<And>x. emits P (h x)"
  shows "emits P (tryE m h)"
  unfolding emits_def
proof (rule traced_tryE [OF assms(1) [unfolded emits_def]])
  fix x es
  assume "list_all P es"
  then show "traced (h (Inr x)) (\<lambda>r es'. list_all P (es @ es'))"
    using assms(2) [of "Inr x"] by (simp add: emits_def)
next
  fix e es
  assume "list_all P es"
  then show "traced (h (Inl e)) (\<lambda>r es'. list_all P (es @ es'))"
    using assms(2) [of "Inl e"] by (simp add: emits_def)
qed

lemma emits_wrapE [emits_intros]: "emits P m \<Longrightarrow> emits P (wrapE t m)"
  unfolding emits_def by (erule traced_wrapE)

lemma emits_call: "(\<And>x. P (ev x)) \<Longrightarrow> emits P (call (logcall ev f))"
  unfolding emits_def by (rule traced_weaken [OF traced_logcall]) auto

lemma emitsD: "emits P m \<Longrightarrow> m (w, []) = (r, (w', es)) \<Longrightarrow> e \<in> set es \<Longrightarrow> P e"
  unfolding emits_def by (drule (1) tracedD) (auto simp: list_all_iff)


text \<open>
  Combining a part whose events all satisfy \<open>P\<close> with a part that has a property \<open>Q\<close> of its
  whole trace, where \<open>Q\<close> is kept by adding such events on either side.
\<close>

lemma traced_bind_pre:
  assumes "emits P m" and "\<And>x. traced (k x) Q"
    and "\<And>r es es'. list_all P es \<Longrightarrow> Q r es' \<Longrightarrow> Q r (es @ es')"
    and "\<And>r es. list_all P es \<Longrightarrow> Q r es"
  shows "traced (bindE m k) Q"
proof (rule traced_bindE [OF assms(1) [unfolded emits_def]])
  fix x es
  assume "list_all P es"
  then show "traced (k x) (\<lambda>r es'. Q r (es @ es'))"
    by (rule_tac traced_weaken [OF assms(2)]) (rule assms(3))
qed (simp_all add: assms(4))

lemma traced_bind_post:
  assumes "traced m (\<lambda>_. Q)" and "\<And>x. emits P (k x)"
    and "\<And>es es'. Q es \<Longrightarrow> list_all P es' \<Longrightarrow> Q (es @ es')"
  shows "traced (bindE m k) (\<lambda>_. Q)"
proof (rule traced_bindE [OF assms(1)])
  fix x es
  assume "Q es"
  then show "traced (k x) (\<lambda>r es'. Q (es @ es'))"
    by (rule_tac traced_weaken [OF assms(2) [unfolded emits_def]]) (rule assms(3))
qed

lemma traced_conj:
  assumes "traced m Q" and "traced m Q'"
  shows "traced m (\<lambda>r es. Q r es \<and> Q' r es)"
proof (rule tracedI)
  fix w l r w' l'
  assume run: "m (w, l) = (r, w', l')"
  from tracedD [OF assms(1) run] tracedD [OF assms(2) run]
  show "\<exists>es. l' = l @ es \<and> Q r es \<and> Q' r es" by auto
qed

lemma traced_guard:
  assumes "r = None \<Longrightarrow> traced k R" and "\<And>e. r = Some e \<Longrightarrow> R (Err e) []"
  shows "traced (bindE (checkE r) (\<lambda>_. k)) R"
proof (cases r)
  case None
  have "bindE (checkE None) (\<lambda>_. k) = k" by (rule ext) (simp add: prog_simps)
  with None assms(1) show ?thesis by simp
next
  case (Some e)
  have "bindE (checkE (Some e)) (\<lambda>_. k) = failE e" by (rule ext) (simp add: prog_simps)
  with Some assms(2) show ?thesis by (simp add: traced_failE)
qed

section \<open>Go maps from strings to strings\<close>

text \<open>
  A \<^verbatim>\<open>map[string]string\<close> is a finite map. A nil map and an empty map read the same; the
  code allocates before it writes, so both are \<^term>\<open>fmempty\<close>. \<open>get m k\<close> is Go's
  \<^verbatim>\<open>m[k]\<close>: the zero value \<open>[]\<close> when the key is missing.
\<close>

type_synonym smap = "(string, string) fmap"

definition get :: "smap \<Rightarrow> string \<Rightarrow> string" where
  "get m k = (case fmlookup m k of None \<Rightarrow> [] | Some v \<Rightarrow> v)"

definition hasKey :: "smap \<Rightarrow> string \<Rightarrow> bool" where
  "hasKey m k \<longleftrightarrow> fmlookup m k \<noteq> None"

lemma get_fmupd [simp]: "get (fmupd k v m) k' = (if k = k' then v else get m k')"
  by (simp add: get_def)

lemma get_fmdrop [simp]: "get (fmdrop k m) k' = (if k = k' then [] else get m k')"
  by (simp add: get_def)

lemma get_fmempty [simp]: "get fmempty k = []"
  by (simp add: get_def)

lemma hasKey_simps [simp]:
  "hasKey fmempty k \<longleftrightarrow> False"
  "hasKey (fmupd k v m) k' \<longleftrightarrow> k = k' \<or> hasKey m k'"
  "hasKey (fmdrop k m) k' \<longleftrightarrow> k \<noteq> k' \<and> hasKey m k'"
  by (auto simp: hasKey_def)

lemma get_no_key: "\<not> hasKey m k \<Longrightarrow> get m k = []"
  by (simp add: hasKey_def get_def)

lemma get_fmap_of_list [simp]:
  "get (fmap_of_list []) k = []"
  "get (fmap_of_list ((k', v) # kvs)) k = (if k' = k then v else get (fmap_of_list kvs) k)"
  by (simp_all add: get_def fmlookup_of_list)

section \<open>Lists\<close>

lemma find_Some_in: "find P xs = Some x \<Longrightarrow> x \<in> set xs \<and> P x"
  by (induction xs) (auto split: if_splits)

end
