(* ===== verification/GoStrings.thy ===== *)
theory GoStrings
  imports Prelude
begin

text \<open>
  The functions of Go's \<^verbatim>\<open>strings\<close>, \<^verbatim>\<open>strconv\<close> and \<^verbatim>\<open>unicode/utf8\<close> packages the
  program uses, over byte strings (a Go string is a sequence of bytes; a \<^typ>\<open>char\<close> is a
  byte). \<open>TrimSpace\<close> and \<open>EqualFold\<close> work on UTF-8 encoded runes as the library does.
\<close>

section \<open>Trimming\<close>

text \<open>The 25 white-space runes of \<^verbatim>\<open>unicode.IsSpace\<close>, each as its UTF-8 encoding.\<close>

definition space_runes :: "string list" where
  "space_runes = [
    [CHR 0x09], [CHR 0x0A], [CHR 0x0B],
    [CHR 0x0C], [CHR 0x0D], [CHR 0x20],
    [CHR 0xC2, CHR 0x85], [CHR 0xC2, CHR 0xA0], [CHR 0xE1, CHR 0x9A, CHR 0x80],
    [CHR 0xE2, CHR 0x80, CHR 0x80], [CHR 0xE2, CHR 0x80, CHR 0x81], [CHR 0xE2, CHR 0x80, CHR 0x82],
    [CHR 0xE2, CHR 0x80, CHR 0x83], [CHR 0xE2, CHR 0x80, CHR 0x84], [CHR 0xE2, CHR 0x80, CHR 0x85],
    [CHR 0xE2, CHR 0x80, CHR 0x86], [CHR 0xE2, CHR 0x80, CHR 0x87], [CHR 0xE2, CHR 0x80, CHR 0x88],
    [CHR 0xE2, CHR 0x80, CHR 0x89], [CHR 0xE2, CHR 0x80, CHR 0x8A], [CHR 0xE2, CHR 0x80, CHR 0xA8],
    [CHR 0xE2, CHR 0x80, CHR 0xA9], [CHR 0xE2, CHR 0x80, CHR 0xAF], [CHR 0xE2, CHR 0x81, CHR 0x9F],
    [CHR 0xE3, CHR 0x80, CHR 0x80]]"

text \<open>
  Dropping leading encoded runes while there are any. No encoding is a prefix of
  another, so at most one matches.
\<close>

function trim_prefixes :: "string list \<Rightarrow> string \<Rightarrow> string" where
  "trim_prefixes rs s =
     (case find (\<lambda>r. r \<noteq> [] \<and> prefix r s) rs of
        None \<Rightarrow> s
      | Some r \<Rightarrow> trim_prefixes rs (drop (length r) s))"
  by pat_completeness auto
termination
  by (relation "measure (\<lambda>(rs, s). length s)") (auto simp: find_Some_iff prefix_def)

declare trim_prefixes.simps [simp del]

definition TrimLeftSpace :: "string \<Rightarrow> string" where
  "TrimLeftSpace s = trim_prefixes space_runes s"

definition TrimRightSpace :: "string \<Rightarrow> string" where
  "TrimRightSpace s = rev (trim_prefixes (map rev space_runes) (rev s))"

text \<open>\<^verbatim>\<open>strings.TrimSpace\<close>\<close>

definition TrimSpace :: "string \<Rightarrow> string" where
  "TrimSpace s = TrimRightSpace (TrimLeftSpace s)"

text \<open>\<^verbatim>\<open>strings.TrimSuffix\<close>\<close>

definition TrimSuffix :: "string \<Rightarrow> string \<Rightarrow> string" where
  "TrimSuffix s t = (if suffix t s then take (length s - length t) s else s)"

definition no_prefix :: "string list \<Rightarrow> string \<Rightarrow> bool" where
  "no_prefix rs s \<longleftrightarrow> list_all (\<lambda>r. r = [] \<or> \<not> prefix r s) rs"

lemma no_prefix_find: "no_prefix rs s \<longleftrightarrow> find (\<lambda>r. r \<noteq> [] \<and> prefix r s) rs = None"
  by (auto simp: no_prefix_def find_None_iff list_all_iff)

lemma trim_prefixes_id: "no_prefix rs s \<Longrightarrow> trim_prefixes rs s = s"
  by (subst trim_prefixes.simps) (simp add: no_prefix_find)

lemma trim_prefixes_done: "no_prefix rs (trim_prefixes rs s)"
proof (induction rs s rule: trim_prefixes.induct)
  case (1 rs s)
  show ?case
  proof (cases "find (\<lambda>r. r \<noteq> [] \<and> prefix r s) rs")
    case None
    then show ?thesis by (simp add: trim_prefixes.simps [of rs s] no_prefix_find)
  next
    case (Some r)
    with 1 show ?thesis by (simp add: trim_prefixes.simps [of rs s])
  qed
qed

lemma trim_prefixes_suffix: "suffix (trim_prefixes rs s) s"
proof (induction rs s rule: trim_prefixes.induct)
  case (1 rs s)
  show ?case
  proof (cases "find (\<lambda>r. r \<noteq> [] \<and> prefix r s) rs")
    case None
    then show ?thesis by (simp add: trim_prefixes.simps [of rs s])
  next
    case (Some r)
    with 1 have "suffix (trim_prefixes rs (drop (length r) s)) (drop (length r) s)" by blast
    then have "suffix (trim_prefixes rs (drop (length r) s)) s"
      by (rule suffix_order.trans) (rule suffix_drop)
    with Some show ?thesis by (simp add: trim_prefixes.simps [of rs s])
  qed
qed

lemma no_prefix_mono: "no_prefix rs s \<Longrightarrow> prefix t s \<Longrightarrow> no_prefix rs t"
  by (auto simp: no_prefix_def list_all_iff dest: prefix_order.trans)

lemma TrimRightSpace_prefix: "prefix (TrimRightSpace s) s"
  using trim_prefixes_suffix [of "map rev space_runes" "rev s"]
  by (simp add: TrimRightSpace_def suffix_to_prefix)

lemma TrimRightSpace_idem: "TrimRightSpace (TrimRightSpace s) = TrimRightSpace s"
  by (simp add: TrimRightSpace_def trim_prefixes_id [OF trim_prefixes_done])

text \<open>Trimming twice is trimming once.\<close>

lemma TrimSpace_idem [simp]: "TrimSpace (TrimSpace s) = TrimSpace s"
proof -
  have "no_prefix space_runes (TrimLeftSpace s)"
    by (simp add: TrimLeftSpace_def trim_prefixes_done)
  then have "no_prefix space_runes (TrimSpace s)"
    unfolding TrimSpace_def by (rule no_prefix_mono) (rule TrimRightSpace_prefix)
  then have "TrimLeftSpace (TrimSpace s) = TrimSpace s"
    by (simp add: TrimLeftSpace_def trim_prefixes_id)
  then show ?thesis
    by (simp add: TrimSpace_def TrimRightSpace_idem)
qed

lemma TrimSpace_Nil [simp]: "TrimSpace [] = []"
  by (simp add: TrimSpace_def TrimLeftSpace_def TrimRightSpace_def trim_prefixes_id
      no_prefix_def space_runes_def)

text \<open>
  A string whose first and last bytes are printable ASCII is its own trimming, which is
  how closed examples evaluate.
\<close>

definition plain_char :: "char \<Rightarrow> bool" where
  "plain_char c \<longleftrightarrow> c \<notin> set (map hd space_runes) \<and> c \<notin> set (map last space_runes)"

lemma no_prefix_hd: "s \<noteq> [] \<Longrightarrow> hd s \<notin> set (map hd rs) \<Longrightarrow> no_prefix rs s"
  by (auto simp: no_prefix_def list_all_iff prefix_def)

lemma TrimSpace_plain: "plain_char (hd s) \<Longrightarrow> plain_char (last s) \<Longrightarrow> TrimSpace s = s"
proof (cases "s = []")
  case False
  assume a: "plain_char (hd s)" "plain_char (last s)"
  from False a(1) have l: "TrimLeftSpace s = s"
    by (auto simp: TrimLeftSpace_def plain_char_def intro!: trim_prefixes_id no_prefix_hd)
  have "map hd (map rev space_runes) = map last space_runes"
    by (simp add: space_runes_def)
  with False a(2) have "no_prefix (map rev space_runes) (rev s)"
    by (intro no_prefix_hd) (auto simp: plain_char_def hd_rev)
  then have "TrimRightSpace s = s"
    by (simp add: TrimRightSpace_def trim_prefixes_id)
  with l show ?thesis by (simp add: TrimSpace_def)
qed simp

lemma set_TrimSpace: "set (TrimSpace s) \<subseteq> set s"
proof -
  have "set (TrimSpace s) \<subseteq> set (TrimLeftSpace s)"
    unfolding TrimSpace_def by (rule set_mono_prefix [OF TrimRightSpace_prefix])
  moreover have "set (TrimLeftSpace s) \<subseteq> set s"
    unfolding TrimLeftSpace_def by (rule set_mono_suffix [OF trim_prefixes_suffix])
  ultimately show ?thesis by blast
qed

lemma TrimSuffix_append [simp]: "TrimSuffix (s @ t) t = s"
  by (simp add: TrimSuffix_def suffix_def)

lemma TrimSuffix_no: "\<not> suffix t s \<Longrightarrow> TrimSuffix s t = s"
  by (simp add: TrimSuffix_def)

section \<open>Splitting and joining\<close>

text \<open>\<^verbatim>\<open>strings.Split(s, ",")\<close> for a separator of one byte: never an empty list.\<close>

fun Split :: "string \<Rightarrow> char \<Rightarrow> string list" where
  "Split [] c = [[]]"
| "Split (x # xs) c =
     (if x = c then [] # Split xs c
      else (case Split xs c of [] \<Rightarrow> [[x]] | p # ps \<Rightarrow> (x # p) # ps))"

fun Join :: "string list \<Rightarrow> char \<Rightarrow> string" where
  "Join [] c = []"
| "Join [p] c = p"
| "Join (p # ps) c = p @ c # Join ps c"

lemma Split_nonempty: "Split s c \<noteq> []"
  by (cases s) (auto split: list.splits)

lemma Split_single: "c \<notin> set p \<Longrightarrow> Split p c = [p]"
  by (induction p) auto

lemma Split_append: "c \<notin> set p \<Longrightarrow> Split (p @ c # s) c = p # Split s c"
  by (induction p) auto

lemma Split_Join:
  "ps \<noteq> [] \<Longrightarrow> list_all (\<lambda>p. c \<notin> set p) ps \<Longrightarrow> Split (Join ps c) c = ps"
  by (induction ps c rule: Join.induct) (auto simp: Split_single Split_append)

section \<open>Paths\<close>

text \<open>
  \<^verbatim>\<open>filepath.Join\<close> of a directory and a file name: the joined path, cleaned lexically
  (empty and \<open>.\<close> elements dropped, \<open>..\<close> resolved). The stack is kept in reverse.
\<close>

fun clean_elems :: "bool \<Rightarrow> string list \<Rightarrow> string list \<Rightarrow> string list" where
  "clean_elems rooted [] st = rev st"
| "clean_elems rooted (e # es) st =
     (if e = [] \<or> e = ''.'' then clean_elems rooted es st
      else if e = ''..'' then
        (case st of
           t # ts \<Rightarrow> if t \<noteq> ''..'' then clean_elems rooted es ts else clean_elems rooted es (e # st)
         | [] \<Rightarrow> if rooted then clean_elems rooted es [] else clean_elems rooted es [e])
      else clean_elems rooted es (e # st))"

definition CleanPath :: "string \<Rightarrow> string" where
  "CleanPath p =
     (let rooted = (p \<noteq> [] \<and> hd p = CHR ''/'');
          out = (if rooted then ''/'' else []) @ Join (clean_elems rooted (Split p CHR ''/'') []) CHR ''/''
      in if out = [] then ''.'' else out)"

definition JoinPath :: "string \<Rightarrow> string \<Rightarrow> string" where
  "JoinPath dir file =
     (let es = filter (\<lambda>e. e \<noteq> []) [dir, file] in
      if es = [] then [] else CleanPath (Join es CHR ''/''))"

lemma JoinPath_example: "JoinPath ''/tmp/certs/'' ''tls.crt'' = ''/tmp/certs/tls.crt''"
  by (simp add: JoinPath_def CleanPath_def Let_def)

section \<open>UTF-8 and case folding\<close>

definition cont_byte :: "nat \<Rightarrow> bool" where
  "cont_byte b \<longleftrightarrow> 128 \<le> b \<and> b \<le> 191"

text \<open>
  \<^verbatim>\<open>utf8.DecodeRune\<close> on a lead byte and the bytes after it: the rune and how many
  continuation bytes it takes. An invalid encoding is one byte wide and decodes to
  U+FFFD (65533).
\<close>

definition second_ok :: "nat \<Rightarrow> nat \<Rightarrow> bool" where
  "second_ok b b1 \<longleftrightarrow>
     (if b = 224 then 160 else if b = 240 then 144 else 128) \<le> b1 \<and>
     b1 \<le> (if b = 237 then 159 else if b = 244 then 143 else 191)"

fun decode_rune :: "nat \<Rightarrow> nat list \<Rightarrow> nat \<times> nat" where
  "decode_rune b bs =
     (if b < 128 then (b, 0)
      else if 194 \<le> b \<and> b \<le> 223 then
        (case bs of
           b1 # _ \<Rightarrow> if cont_byte b1 then ((b - 192) * 64 + (b1 - 128), 1) else (65533, 0)
         | _ \<Rightarrow> (65533, 0))
      else if 224 \<le> b \<and> b \<le> 239 then
        (case bs of
           b1 # b2 # _ \<Rightarrow>
             if second_ok b b1 \<and> cont_byte b2
             then ((b - 224) * 4096 + (b1 - 128) * 64 + (b2 - 128), 2) else (65533, 0)
         | _ \<Rightarrow> (65533, 0))
      else if 240 \<le> b \<and> b \<le> 244 then
        (case bs of
           b1 # b2 # b3 # _ \<Rightarrow>
             if second_ok b b1 \<and> cont_byte b2 \<and> cont_byte b3
             then ((b - 240) * 262144 + (b1 - 128) * 4096 + (b2 - 128) * 64 + (b3 - 128), 3)
             else (65533, 0)
         | _ \<Rightarrow> (65533, 0))
      else (65533, 0))"

declare decode_rune.simps [simp del]

function runes :: "nat list \<Rightarrow> nat list" where
  "runes [] = []"
| "runes (b # bs) = (case decode_rune b bs of (r, n) \<Rightarrow> r # runes (drop n bs))"
  by pat_completeness auto
termination
  by (relation "measure length") auto

text \<open>
  Unicode simple case folding (the C and S rows of CaseFolding.txt, Unicode 15) as rows
  \<open>(first, last, stride, delta)\<close>; two runes are equal under \<^verbatim>\<open>unicode.SimpleFold\<close> iff
  they fold to the same rune.
\<close>

definition fold_table :: "(nat \<times> nat \<times> nat \<times> int) list" where
  "fold_table = [
    (181, 181, 1, 775), (192, 214, 1, 32), (216, 222, 1, 32), (256, 302, 2, 1),
    (306, 310, 2, 1), (313, 327, 2, 1), (330, 374, 2, 1), (376, 376, 1, -121),
    (377, 381, 2, 1), (383, 383, 1, -268), (385, 385, 1, 210), (386, 388, 2, 1),
    (390, 390, 1, 206), (391, 391, 1, 1), (393, 394, 1, 205), (395, 395, 1, 1),
    (398, 398, 1, 79), (399, 399, 1, 202), (400, 400, 1, 203), (401, 401, 1, 1),
    (403, 403, 1, 205), (404, 404, 1, 207), (406, 406, 1, 211), (407, 407, 1, 209),
    (408, 408, 1, 1), (412, 412, 1, 211), (413, 413, 1, 213), (415, 415, 1, 214),
    (416, 420, 2, 1), (422, 422, 1, 218), (423, 423, 1, 1), (425, 425, 1, 218),
    (428, 428, 1, 1), (430, 430, 1, 218), (431, 431, 1, 1), (433, 434, 1, 217),
    (435, 437, 2, 1), (439, 439, 1, 219), (440, 440, 1, 1), (444, 444, 1, 1), (452, 452, 1, 2),
    (453, 453, 1, 1), (455, 455, 1, 2), (456, 456, 1, 1), (458, 458, 1, 2), (459, 475, 2, 1),
    (478, 494, 2, 1), (497, 497, 1, 2), (498, 500, 2, 1), (502, 502, 1, -97),
    (503, 503, 1, -56), (504, 542, 2, 1), (544, 544, 1, -130), (546, 562, 2, 1),
    (570, 570, 1, 10795), (571, 571, 1, 1), (573, 573, 1, -163), (574, 574, 1, 10792),
    (577, 577, 1, 1), (579, 579, 1, -195), (580, 580, 1, 69), (581, 581, 1, 71),
    (582, 590, 2, 1), (837, 837, 1, 116), (880, 882, 2, 1), (886, 886, 1, 1),
    (895, 895, 1, 116), (902, 902, 1, 38), (904, 906, 1, 37), (908, 908, 1, 64),
    (910, 911, 1, 63), (913, 929, 1, 32), (931, 939, 1, 32), (962, 962, 1, 1),
    (975, 975, 1, 8), (976, 976, 1, -30), (977, 977, 1, -25), (981, 981, 1, -15),
    (982, 982, 1, -22), (984, 1006, 2, 1), (1008, 1008, 1, -54), (1009, 1009, 1, -48),
    (1012, 1012, 1, -60), (1013, 1013, 1, -64), (1015, 1015, 1, 1), (1017, 1017, 1, -7),
    (1018, 1018, 1, 1), (1021, 1023, 1, -130), (1024, 1039, 1, 80), (1040, 1071, 1, 32),
    (1120, 1152, 2, 1), (1162, 1214, 2, 1), (1216, 1216, 1, 15), (1217, 1229, 2, 1),
    (1232, 1326, 2, 1), (1329, 1366, 1, 48), (4256, 4293, 1, 7264), (4295, 4295, 1, 7264),
    (4301, 4301, 1, 7264), (5112, 5117, 1, -8), (7296, 7296, 1, -6222), (7297, 7297, 1, -6221),
    (7298, 7298, 1, -6212), (7299, 7300, 1, -6210), (7301, 7301, 1, -6211),
    (7302, 7302, 1, -6204), (7303, 7303, 1, -6180), (7304, 7304, 1, 35267),
    (7312, 7354, 1, -3008), (7357, 7359, 1, -3008), (7680, 7828, 2, 1), (7835, 7835, 1, -58),
    (7838, 7838, 1, -7615), (7840, 7934, 2, 1), (7944, 7951, 1, -8), (7960, 7965, 1, -8),
    (7976, 7983, 1, -8), (7992, 7999, 1, -8), (8008, 8013, 1, -8), (8025, 8031, 2, -8),
    (8040, 8047, 1, -8), (8072, 8079, 1, -8), (8088, 8095, 1, -8), (8104, 8111, 1, -8),
    (8120, 8121, 1, -8), (8122, 8123, 1, -74), (8124, 8124, 1, -9), (8126, 8126, 1, -7173),
    (8136, 8139, 1, -86), (8140, 8140, 1, -9), (8152, 8153, 1, -8), (8154, 8155, 1, -100),
    (8168, 8169, 1, -8), (8170, 8171, 1, -112), (8172, 8172, 1, -7), (8184, 8185, 1, -128),
    (8186, 8187, 1, -126), (8188, 8188, 1, -9), (8486, 8486, 1, -7517), (8490, 8490, 1, -8383),
    (8491, 8491, 1, -8262), (8498, 8498, 1, 28), (8544, 8559, 1, 16), (8579, 8579, 1, 1),
    (9398, 9423, 1, 26), (11264, 11311, 1, 48), (11360, 11360, 1, 1),
    (11362, 11362, 1, -10743), (11363, 11363, 1, -3814), (11364, 11364, 1, -10727),
    (11367, 11371, 2, 1), (11373, 11373, 1, -10780), (11374, 11374, 1, -10749),
    (11375, 11375, 1, -10783), (11376, 11376, 1, -10782), (11378, 11378, 1, 1),
    (11381, 11381, 1, 1), (11390, 11391, 1, -10815), (11392, 11490, 2, 1),
    (11499, 11501, 2, 1), (11506, 11506, 1, 1), (42560, 42604, 2, 1), (42624, 42650, 2, 1),
    (42786, 42798, 2, 1), (42802, 42862, 2, 1), (42873, 42875, 2, 1),
    (42877, 42877, 1, -35332), (42878, 42886, 2, 1), (42891, 42891, 1, 1),
    (42893, 42893, 1, -42280), (42896, 42898, 2, 1), (42902, 42920, 2, 1),
    (42922, 42922, 1, -42308), (42923, 42923, 1, -42319), (42924, 42924, 1, -42315),
    (42925, 42925, 1, -42305), (42926, 42926, 1, -42308), (42928, 42928, 1, -42258),
    (42929, 42929, 1, -42282), (42930, 42930, 1, -42261), (42931, 42931, 1, 928),
    (42932, 42946, 2, 1), (42948, 42948, 1, -48), (42949, 42949, 1, -42307),
    (42950, 42950, 1, -35384), (42951, 42953, 2, 1), (42960, 42960, 1, 1),
    (42966, 42968, 2, 1), (42997, 42997, 1, 1), (43888, 43967, 1, -38864),
    (65313, 65338, 1, 32), (66560, 66599, 1, 40), (66736, 66771, 1, 40), (66928, 66938, 1, 39),
    (66940, 66954, 1, 39), (66956, 66962, 1, 39), (66964, 66965, 1, 39), (68736, 68786, 1, 64),
    (71840, 71871, 1, 32), (93760, 93791, 1, 32), (125184, 125217, 1, 34)]"

definition fold_rune :: "nat \<Rightarrow> nat" where
  "fold_rune r =
     (if r < 128 then (if 65 \<le> r \<and> r \<le> 90 then r + 32 else r)
      else (case find (\<lambda>(lo, hi, st, d). lo \<le> r \<and> r \<le> hi \<and> (r - lo) mod st = 0) fold_table of
              None \<Rightarrow> r
            | Some (lo, hi, st, d) \<Rightarrow> nat (int r + d)))"

definition fold_string :: "string \<Rightarrow> nat list" where
  "fold_string s = map fold_rune (runes (map of_char s))"

text \<open>\<^verbatim>\<open>strings.EqualFold\<close>\<close>

definition EqualFold :: "string \<Rightarrow> string \<Rightarrow> bool" where
  "EqualFold s t \<longleftrightarrow> fold_string s = fold_string t"

lemma EqualFold_refl [simp, intro]: "EqualFold s s"
  by (simp add: EqualFold_def)

lemma EqualFold_sym: "EqualFold s t \<Longrightarrow> EqualFold t s"
  by (simp add: EqualFold_def)

lemma EqualFold_trans: "EqualFold s t \<Longrightarrow> EqualFold t u \<Longrightarrow> EqualFold s u"
  by (simp add: EqualFold_def)

lemma runes_ascii: "list_all (\<lambda>b. b < 128) bs \<Longrightarrow> runes bs = bs"
  by (induction bs) (simp_all add: decode_rune.simps)

lemma fold_string_ascii:
  "list_all (\<lambda>c. of_char c < (128::nat)) s \<Longrightarrow>
   fold_string s = map (\<lambda>c. let b = of_char c in if 65 \<le> b \<and> b \<le> 90 then b + 32 else b) s"
  by (simp add: fold_string_def runes_ascii list_all_iff fold_rune_def Let_def)

lemma fold_string_Nil [simp]: "fold_string s = [] \<longleftrightarrow> s = []"
proof -
  have "runes bs = [] \<longleftrightarrow> bs = []" for bs by (cases bs) (auto split: prod.splits)
  then show ?thesis by (simp add: fold_string_def)
qed

lemma EqualFold_Nil [simp]: "EqualFold s [] \<longleftrightarrow> s = []" "EqualFold [] s \<longleftrightarrow> s = []"
proof -
  have "fold_string [] = []" by (simp add: fold_string_def)
  then show "EqualFold s [] \<longleftrightarrow> s = []" "EqualFold [] s \<longleftrightarrow> s = []"
    by (auto simp: EqualFold_def) (metis fold_string_Nil)+
qed

text \<open>
  Equality up to ASCII case on closed strings, and one of the two runes beyond ASCII that
  fold into it (U+212A, the Kelvin sign).
\<close>

lemma EqualFold_ascii:
  "list_all (\<lambda>c. of_char c < (128::nat)) s \<Longrightarrow> list_all (\<lambda>c. of_char c < (128::nat)) t \<Longrightarrow>
   EqualFold s t \<longleftrightarrow>
     map (\<lambda>c. let b = of_char c :: nat in if 65 \<le> b \<and> b \<le> 90 then b + 32 else b) s =
     map (\<lambda>c. let b = of_char c in if 65 \<le> b \<and> b \<le> 90 then b + 32 else b) t"
  by (simp add: EqualFold_def fold_string_ascii)

lemma EqualFold_true: "EqualFold ''TrUe'' ''true''"
  by (simp add: EqualFold_ascii)

lemma EqualFold_kelvin: "EqualFold [CHR 0xE2, CHR 0x84, CHR 0xAA] ''k''"
  by (simp add: EqualFold_def fold_string_def decode_rune.simps second_ok_def cont_byte_def
      fold_rune_def fold_table_def)

section \<open>Quoting\<close>

definition hex_digit :: "nat \<Rightarrow> char" where
  "hex_digit n = ''0123456789abcdef'' ! (n mod 16)"

text \<open>
  \<^verbatim>\<open>strconv.Quote\<close>, the \<^verbatim>\<open>%q\<close> verb: exact on ASCII; bytes from 0x80 on are copied, as
  they are when they encode printable runes.
\<close>

definition quote_char :: "char \<Rightarrow> string" where
  "quote_char c =
     (let b = of_char c :: nat in
      if b = 34 then [CHR 0x5C, CHR 0x22]
      else if b = 92 then [CHR 0x5C, CHR 0x5C]
      else if b = 7 then [CHR 0x5C, CHR ''a'']
      else if b = 8 then [CHR 0x5C, CHR ''b'']
      else if b = 12 then [CHR 0x5C, CHR ''f'']
      else if b = 10 then [CHR 0x5C, CHR ''n'']
      else if b = 13 then [CHR 0x5C, CHR ''r'']
      else if b = 9 then [CHR 0x5C, CHR ''t'']
      else if b = 11 then [CHR 0x5C, CHR ''v'']
      else if b < 32 \<or> b = 127
        then [CHR 0x5C, CHR ''x'', hex_digit (b div 16), hex_digit b]
      else [c])"

definition Quote :: "string \<Rightarrow> string" where
  "Quote s = [CHR 0x22] @ concat (map quote_char s) @ [CHR 0x22]"

text \<open>\<^verbatim>\<open>strings.ToLower\<close> on ASCII text.\<close>

definition ascii_lower :: "char \<Rightarrow> char" where
  "ascii_lower c =
     (let b = of_char c :: nat in if 65 \<le> b \<and> b \<le> 90 then char_of (b + 32) else c)"

definition ToLower :: "string \<Rightarrow> string" where
  "ToLower s = map ascii_lower s"

text \<open>
  \<^verbatim>\<open>s[:n]\<close> guarded by \<^verbatim>\<open>len(s) > n\<close>, the pattern by which the code bounds names and
  messages.
\<close>

definition truncate_to :: "nat \<Rightarrow> string \<Rightarrow> string" where
  "truncate_to n s = (if length s > n then take n s else s)"

lemma length_truncate_to: "length (truncate_to n s) \<le> n"
  by (simp add: truncate_to_def)

lemma truncate_to_id: "length s \<le> n \<Longrightarrow> truncate_to n s = s"
  by (simp add: truncate_to_def)

end
