(* ===== verification/Sha256.thy ===== *)
theory Sha256
  imports GoStrings "HOL-Library.Word"
begin

text \<open>
  SHA-256 (FIPS 180-4), the \<^verbatim>\<open>crypto/sha256\<close> function behind \<^verbatim>\<open>ResourceKey\<close>, on bytes and
  32-bit words with wrap-around addition, and the lower-case hexadecimal encoding of
  \<^verbatim>\<open>encoding/hex\<close>.
\<close>

unbundle bit_operations_syntax

type_synonym byte = "8 word"
type_synonym u32 = "32 word"

text \<open>
  The constants are the first 32 bits of the fractional parts of roots of primes: cube roots of
  the first 64 for the rounds, square roots of the first 8 for the initial state.
  \<open>root_search k n i x\<close> finds the last \<open>i\<close> bits of the integer \<open>k\<close>-th root of \<open>n\<close>.
\<close>

fun root_search :: "nat \<Rightarrow> int \<Rightarrow> nat \<Rightarrow> int \<Rightarrow> int" where
  "root_search k n 0 x = x"
| "root_search k n (Suc i) x = root_search k n i (if (x + 2 ^ i) ^ k \<le> n then x + 2 ^ i else x)"

definition first_primes :: "int list" where
  "first_primes = [
    2, 3, 5, 7, 11, 13, 17, 19, 23, 29, 31, 37, 41, 43, 47, 53,
    59, 61, 67, 71, 73, 79, 83, 89, 97, 101, 103, 107, 109, 113, 127, 131,
    137, 139, 149, 151, 157, 163, 167, 173, 179, 181, 191, 193, 197, 199, 211, 223,
    227, 229, 233, 239, 241, 251, 257, 263, 269, 271, 277, 281, 283, 293, 307, 311]"

definition frac_root :: "nat \<Rightarrow> int \<Rightarrow> u32" where
  "frac_root k p = word_of_int (root_search k (p * 2 ^ (32 * k)) 36 0)"

definition sha_k :: "u32 list" where
  "sha_k = map (frac_root 3) first_primes"

definition sha_init :: "u32 list" where
  "sha_init = map (frac_root 2) (take 8 first_primes)"

lemma length_constants: "length sha_k = 64" "length sha_init = 8"
  by (simp_all add: sha_k_def sha_init_def first_primes_def)

definition big_sigma0 :: "u32 \<Rightarrow> u32" where
  "big_sigma0 x = word_rotr 2 x XOR word_rotr 13 x XOR word_rotr 22 x"

definition big_sigma1 :: "u32 \<Rightarrow> u32" where
  "big_sigma1 x = word_rotr 6 x XOR word_rotr 11 x XOR word_rotr 25 x"

definition small_sigma0 :: "u32 \<Rightarrow> u32" where
  "small_sigma0 x = word_rotr 7 x XOR word_rotr 18 x XOR drop_bit 3 x"

definition small_sigma1 :: "u32 \<Rightarrow> u32" where
  "small_sigma1 x = word_rotr 17 x XOR word_rotr 19 x XOR drop_bit 10 x"

definition sha_ch :: "u32 \<Rightarrow> u32 \<Rightarrow> u32 \<Rightarrow> u32" where
  "sha_ch x y z = (x AND y) XOR (NOT x AND z)"

definition sha_maj :: "u32 \<Rightarrow> u32 \<Rightarrow> u32 \<Rightarrow> u32" where
  "sha_maj x y z = (x AND y) XOR (x AND z) XOR (y AND z)"

text \<open>
  Padding: one bit 1, zeros up to 56 bytes modulo 64, the length in bits as 64 bits.
\<close>

definition sha_pad :: "byte list \<Rightarrow> byte list" where
  "sha_pad m =
     (let n = length m; z = (119 - n mod 64) mod 64
      in m @ [0x80] @ replicate z 0 @ map (\<lambda>i. ucast (drop_bit (8 * i) (word_of_nat (8 * n) :: 64 word))) [7, 6, 5, 4, 3, 2, 1, 0])"

fun be_words :: "byte list \<Rightarrow> u32 list" where
  "be_words (a # b # c # d # bs) =
     (push_bit 24 (ucast a) OR push_bit 16 (ucast b) OR push_bit 8 (ucast c) OR ucast d) # be_words bs"
| "be_words _ = []"

text \<open>
  The message schedule, kept in reverse so that the words 2, 7, 15 and 16 back are at
  fixed positions.
\<close>

fun sha_schedule :: "nat \<Rightarrow> u32 list \<Rightarrow> u32 list" where
  "sha_schedule 0 rs = rs"
| "sha_schedule (Suc n) rs =
     sha_schedule n ((small_sigma1 (rs ! 1) + rs ! 6 + small_sigma0 (rs ! 14) + rs ! 15) # rs)"

fun sha_round :: "u32 list \<Rightarrow> u32 \<times> u32 \<Rightarrow> u32 list" where
  "sha_round [a, b, c, d, e, f, g, h] (k, w) =
     (let t1 = h + big_sigma1 e + sha_ch e f g + k + w;
          t2 = big_sigma0 a + sha_maj a b c
      in [t1 + t2, a, b, c, d + t1, e, f, g])"
| "sha_round st _ = st"

definition sha_block :: "u32 list \<Rightarrow> u32 list \<Rightarrow> u32 list" where
  "sha_block h ws =
     (let sched = rev (sha_schedule 48 (rev ws))
      in map2 (+) h (foldl sha_round h (zip sha_k sched)))"

function sha_blocks :: "u32 list \<Rightarrow> u32 list \<Rightarrow> u32 list" where
  "sha_blocks h ws =
     (if length ws < 16 then h else sha_blocks (sha_block h (take 16 ws)) (drop 16 ws))"
  by pat_completeness auto
termination
  by (relation "measure (\<lambda>(h, ws). length ws)") auto

declare sha_blocks.simps [simp del]

definition word_bytes :: "u32 \<Rightarrow> byte list" where
  "word_bytes w = [ucast (drop_bit 24 w), ucast (drop_bit 16 w), ucast (drop_bit 8 w), ucast w]"

text \<open>\<^verbatim>\<open>sha256.Sum256\<close>\<close>

definition Sum256 :: "byte list \<Rightarrow> byte list" where
  "Sum256 m = concat (map word_bytes (sha_blocks sha_init (be_words (sha_pad m))))"

text \<open>\<^verbatim>\<open>[]byte(s)\<close> and \<^verbatim>\<open>hex.EncodeToString\<close>\<close>

definition bytes_of_string :: "string \<Rightarrow> byte list" where
  "bytes_of_string s = map (\<lambda>c. word_of_nat (of_char c)) s"

definition EncodeToString :: "byte list \<Rightarrow> string" where
  "EncodeToString bs = concat (map (\<lambda>b. [hex_digit (unat b div 16), hex_digit (unat b)]) bs)"

section \<open>Sizes\<close>

lemma length_sha_round: "length (sha_round st kw) = length st"
  by (cases "(st, kw)" rule: sha_round.cases) (auto simp: Let_def)

lemma length_foldl_round: "length (foldl sha_round st kws) = length st"
  by (induction kws arbitrary: st) (auto simp: length_sha_round)

lemma length_sha_block: "length (sha_block h ws) = length h"
  by (simp add: sha_block_def Let_def length_foldl_round)

lemma length_sha_blocks: "length (sha_blocks h ws) = length h"
  by (induction h ws rule: sha_blocks.induct)
    (simp add: sha_blocks.simps [of h ws for h ws] length_sha_block)

lemma length_Sum256: "length (Sum256 m) = 32"
proof -
  have "length (concat (map word_bytes ws)) = 4 * length ws" for ws
    by (induction ws) (simp_all add: word_bytes_def)
  then show ?thesis
    by (simp add: Sum256_def length_sha_blocks length_constants)
qed

lemma length_EncodeToString: "length (EncodeToString bs) = 2 * length bs"
  by (induction bs) (simp_all add: EncodeToString_def)

lemma EncodeToString_digits: "set (EncodeToString bs) \<subseteq> set ''0123456789abcdef''"
proof -
  have "hex_digit n \<in> set ''0123456789abcdef''" for n
    unfolding hex_digit_def by (rule nth_mem) simp
  then show ?thesis
    unfolding EncodeToString_def by auto
qed

text \<open>The test vector of the standard for the one-block message.\<close>

lemma Sum256_abc:
  "EncodeToString (Sum256 (bytes_of_string ''abc'')) =
     ''ba7816bf8f01cfea414140de5dae2223b00361a396177a9cb410ff61f20015ad''"
  by code_simp

end
