(* ===== verification/Subject.thy ===== *)
theory Subject
  imports Sha256
begin

text \<open>
  \<^verbatim>\<open>internal/wif/annotations.go\<close> and \<^verbatim>\<open>internal/wif/subject.go\<close>: the well-known keys, the JWT
  subject, the resource key (a truncated SHA-256), ownership labels and their matching,
  display names and scope parsing.
\<close>

section \<open>Constants\<close>

definition AnnotationEnabled :: string where
  "AnnotationEnabled = ''thalassa.cloud/wif.enabled''"
definition AnnotationRole :: string where
  "AnnotationRole = ''thalassa.cloud/wif.role''"
definition AnnotationPolicy :: string where
  "AnnotationPolicy = ''thalassa.cloud/wif.policy''"
definition AnnotationScopes :: string where
  "AnnotationScopes = ''thalassa.cloud/wif.scopes''"
definition AnnotationName :: string where
  "AnnotationName = ''thalassa.cloud/wif.name''"
definition AnnotationDeleteResources :: string where
  "AnnotationDeleteResources = ''thalassa.cloud/wif.delete-resources''"
definition AnnotationStatus :: string where
  "AnnotationStatus = ''thalassa.cloud/wif.status''"
definition AnnotationServiceAccountID :: string where
  "AnnotationServiceAccountID = ''thalassa.cloud/wif.service-account-id''"
definition AnnotationFederatedIdentityID :: string where
  "AnnotationFederatedIdentityID = ''thalassa.cloud/wif.federated-identity-id''"
definition AnnotationProviderID :: string where
  "AnnotationProviderID = ''thalassa.cloud/wif.provider-id''"
definition AnnotationPolicyID :: string where
  "AnnotationPolicyID = ''thalassa.cloud/wif.policy-id''"
definition AnnotationOrganisationID :: string where
  "AnnotationOrganisationID = ''thalassa.cloud/wif.organisation-id''"
definition AnnotationProjectID :: string where
  "AnnotationProjectID = ''thalassa.cloud/wif.project-id''"
definition AnnotationLastError :: string where
  "AnnotationLastError = ''thalassa.cloud/wif.last-error''"
definition AnnotationLastReconcile :: string where
  "AnnotationLastReconcile = ''thalassa.cloud/wif.last-reconcile''"
definition AnnotationProviderSubject :: string where
  "AnnotationProviderSubject = ''thalassa.cloud/wif.provider-subject''"
definition AnnotationRepository :: string where
  "AnnotationRepository = ''thalassa.cloud/wif.repository''"

lemmas annotation_keys =
  AnnotationEnabled_def AnnotationRole_def AnnotationPolicy_def AnnotationScopes_def
  AnnotationName_def AnnotationDeleteResources_def AnnotationStatus_def
  AnnotationServiceAccountID_def AnnotationFederatedIdentityID_def AnnotationProviderID_def
  AnnotationPolicyID_def AnnotationOrganisationID_def AnnotationProjectID_def
  AnnotationLastError_def AnnotationLastReconcile_def AnnotationProviderSubject_def
  AnnotationRepository_def

definition ConfigMapKeyOrganisationID :: string where
  "ConfigMapKeyOrganisationID = ''organisation-id''"
definition ConfigMapKeyServiceAccountID :: string where
  "ConfigMapKeyServiceAccountID = ''service-account-id''"
definition ConfigMapKeyProjectID :: string where
  "ConfigMapKeyProjectID = ''project-id''"

lemmas configmap_keys =
  ConfigMapKeyOrganisationID_def ConfigMapKeyServiceAccountID_def ConfigMapKeyProjectID_def

definition LabelWIFUse :: string where
  "LabelWIFUse = ''thalassa.cloud/wif.use''"
definition LabelWIFUseValue :: string where
  "LabelWIFUseValue = ''true''"

definition EnvOrganisationID :: string where
  "EnvOrganisationID = ''THALASSA_ORGANISATION_ID''"
definition EnvServiceAccountID :: string where
  "EnvServiceAccountID = ''THALASSA_SERVICE_ACCOUNT_ID''"
definition EnvProjectID :: string where
  "EnvProjectID = ''THALASSA_PROJECT_ID''"
definition EnvSubjectTokenFile :: string where
  "EnvSubjectTokenFile = ''THALASSA_SUBJECT_TOKEN_FILE''"

lemmas env_names =
  EnvOrganisationID_def EnvServiceAccountID_def EnvProjectID_def EnvSubjectTokenFile_def

definition ProjectedVolumeName :: string where
  "ProjectedVolumeName = ''thalassa-wif''"
definition ProjectedTokenMountPath :: string where
  "ProjectedTokenMountPath = ''/var/run/secrets/thalassa''"
definition ProjectedTokenPath :: string where
  "ProjectedTokenPath = ''token''"
definition DefaultSubjectTokenFile :: string where
  "DefaultSubjectTokenFile = ProjectedTokenMountPath @ ''/'' @ ProjectedTokenPath"

definition FinalizerName :: string where
  "FinalizerName = ''thalassa.cloud/wif-finalizer''"
definition BindingFinalizerName :: string where
  "BindingFinalizerName = FinalizerName"

definition StatusPending :: string where
  "StatusPending = ''Pending''"
definition StatusReady :: string where
  "StatusReady = ''Ready''"
definition StatusError :: string where
  "StatusError = ''Error''"

lemmas status_values = StatusPending_def StatusReady_def StatusError_def

definition LabelManagedBy :: string where
  "LabelManagedBy = ''thalassa.cloud/managed-by''"
definition ValueManagedBy :: string where
  "ValueManagedBy = ''workload-identity-controller''"
definition LabelWIFKey :: string where
  "LabelWIFKey = ''thalassa.cloud/wif-key''"
definition LabelWIFVCS :: string where
  "LabelWIFVCS = ''thalassa.cloud/wif-vcs''"
definition ValueVCSKubernetes :: string where
  "ValueVCSKubernetes = ''kubernetes''"
definition LabelKubernetesClusterID :: string where
  "LabelKubernetesClusterID = ''kubernetes_cluster_id''"
definition LabelK8sNamespace :: string where
  "LabelK8sNamespace = ''thalassa.cloud/k8s-namespace''"
definition LabelK8sServiceAccount :: string where
  "LabelK8sServiceAccount = ''thalassa.cloud/k8s-service-account''"

lemmas label_keys =
  LabelManagedBy_def LabelWIFKey_def LabelWIFVCS_def LabelKubernetesClusterID_def
  LabelK8sNamespace_def LabelK8sServiceAccount_def

text \<open>
  Constants of the \<^verbatim>\<open>client-go\<close> package \<^verbatim>\<open>iam\<close>, which is not part of the repository: their
  values are parameters.
\<close>

record iam_consts =
  AccessCredentialsScopeAPIRead :: string
  AccessCredentialsScopeAPIWrite :: string
  AccessCredentialsScopeKubernetes :: string
  AccessCredentialsScopeObjectStorage :: string
  AudienceMatchModeAny :: string

section \<open>Subject, key and labels\<close>

definition BuildKubernetesSubject :: "string \<Rightarrow> string \<Rightarrow> error + string" where
  "BuildKubernetesSubject namespace name =
     (let namespace = TrimSpace namespace; name = TrimSpace name in
      if namespace = [] \<or> name = [] then Inl (ErrMsg ''namespace and name are required'')
      else if CHR ''/'' \<in> set namespace \<or> CHR ''/'' \<in> set name
        then Inl (ErrMsg (''namespace and name must not contain '' @ [CHR 0x27, CHR ''/'', CHR 0x27]))
      else Inr (''system:serviceaccount:'' @ namespace @ '':'' @ name))"

definition NormalizeIssuer :: "string \<Rightarrow> string" where
  "NormalizeIssuer issuer = TrimSuffix (TrimSpace issuer) ''/''"

text \<open>The text that is hashed, and the key.\<close>

definition key_input :: "string \<Rightarrow> string \<Rightarrow> string \<Rightarrow> string \<Rightarrow> string" where
  "key_input namespace saName subject issuer =
     (let repo = TrimSpace namespace @ ''/'' @ TrimSpace saName in
      ToLower ValueVCSKubernetes @ [CHR 0x0A] @ repo @ [CHR 0x0A] @ subject @ [CHR 0x0A] @
      NormalizeIssuer issuer)"

definition ResourceKey :: "string \<Rightarrow> string \<Rightarrow> string \<Rightarrow> string \<Rightarrow> string" where
  "ResourceKey namespace saName subject issuer =
     EncodeToString (take 8 (Sum256 (bytes_of_string (key_input namespace saName subject issuer))))"

definition OwnershipLabels :: "string \<Rightarrow> string \<Rightarrow> string \<Rightarrow> smap" where
  "OwnershipLabels key namespace saName =
     fmap_of_list [
       (LabelManagedBy, ValueManagedBy),
       (LabelWIFKey, key),
       (LabelWIFVCS, ValueVCSKubernetes),
       (LabelK8sNamespace, namespace),
       (LabelK8sServiceAccount, saName)]"

text \<open>
  The loop over the wanted labels compares \<^verbatim>\<open>have[k]\<close>, so a wanted empty value also
  matches a missing key.
\<close>

definition LabelsMatch :: "smap \<Rightarrow> smap \<Rightarrow> bool" where
  "LabelsMatch have want =
     (if want = fmempty then False
      else fBall (fmdom want) (\<lambda>k. get have k = get want k))"

section \<open>Names\<close>

definition sanitizeName :: "string \<Rightarrow> string" where
  "sanitizeName s = truncate_to 200 (TrimSpace s)"

definition DefaultResourceNames :: "string \<Rightarrow> string \<Rightarrow> string \<times> string" where
  "DefaultResourceNames key override =
     (let override = TrimSpace override in
      if override \<noteq> [] then (sanitizeName override, sanitizeName (override @ ''-fi''))
      else (sanitizeName (''wif-k8s-'' @ key), sanitizeName (''wif-k8s-'' @ key @ ''-fi'')))"

section \<open>Scopes\<close>

definition AccessCredentialsScopeOpenID :: string where
  "AccessCredentialsScopeOpenID = ''openid''"

definition knownScope :: "iam_consts \<Rightarrow> string \<Rightarrow> string option" where
  "knownScope k s =
     (if s = AccessCredentialsScopeOpenID \<or> s = AccessCredentialsScopeAPIRead k \<or>
         s = AccessCredentialsScopeAPIWrite k \<or> s = AccessCredentialsScopeKubernetes k \<or>
         s = AccessCredentialsScopeObjectStorage k
      then Some s else None)"

text \<open>The loop of \<^verbatim>\<open>ParseScopeList\<close>, with its set of seen names and its output.\<close>

fun scope_loop ::
    "iam_consts \<Rightarrow> string list \<Rightarrow> string list \<Rightarrow> string list \<Rightarrow> error + string list" where
  "scope_loop k [] seen out = Inr out"
| "scope_loop k (p # ps) seen out =
     (let p = TrimSpace p in
      if p = [] then scope_loop k ps seen out
      else if p = ''*'' then Inl (ErrMsg ''wildcard scope is not allowed'')
      else (case knownScope k p of
              None \<Rightarrow> Inl (ErrMsg (''unsupported scope '' @ Quote p))
            | Some scope \<Rightarrow>
                if p \<in> set seen then scope_loop k ps seen out
                else scope_loop k ps (p # seen) (out @ [scope])))"

definition ParseScopeList :: "iam_consts \<Rightarrow> string list \<Rightarrow> error + string list" where
  "ParseScopeList k parts =
     (case scope_loop k parts [] [] of
        Inl e \<Rightarrow> Inl e
      | Inr out \<Rightarrow> if out = [] then Inr [AccessCredentialsScopeOpenID] else Inr out)"

definition ParseScopes :: "iam_consts \<Rightarrow> string \<Rightarrow> error + string list" where
  "ParseScopes k raw =
     (let raw = TrimSpace raw in
      if raw = [] then ParseScopeList k [] else ParseScopeList k (Split raw CHR '',''))"

section \<open>Annotation switches\<close>

definition IsEnabled :: "smap \<Rightarrow> bool" where
  "IsEnabled annotations = EqualFold (TrimSpace (get annotations AnnotationEnabled)) ''true''"

definition DeleteResources :: "smap \<Rightarrow> bool" where
  "DeleteResources annotations =
     EqualFold (TrimSpace (get annotations AnnotationDeleteResources)) ''true''"

section \<open>Facts about labels\<close>

lemma LabelsMatch_iff:
  "LabelsMatch h want \<longleftrightarrow> want \<noteq> fmempty \<and> (\<forall>k. hasKey want k \<longrightarrow> get h k = get want k)"
  by (auto simp: LabelsMatch_def hasKey_def fmlookup_dom_iff fBall_alt_def)

lemma LabelsMatch_self: "want \<noteq> fmempty \<Longrightarrow> LabelsMatch want want"
  by (simp add: LabelsMatch_iff)

lemma LabelsMatch_empty [simp]: "\<not> LabelsMatch h fmempty"
  by (simp add: LabelsMatch_def)

text \<open>On a map literal with distinct keys, matching is one equation per entry.\<close>

lemma LabelsMatch_list:
  assumes "distinct (map fst kvs)" and "kvs \<noteq> []"
  shows "LabelsMatch h (fmap_of_list kvs) \<longleftrightarrow> list_all (\<lambda>(k, v). get h k = v) kvs"
proof -
  have "get (fmap_of_list kvs) k = v" if "(k, v) \<in> set kvs" for k v
    using that assms(1) by (simp add: get_def fmlookup_of_list)
  moreover have "hasKey (fmap_of_list kvs) k \<longleftrightarrow> (\<exists>v. (k, v) \<in> set kvs)" for k
    by (force simp: hasKey_def fmlookup_of_list map_of_eq_None_iff)
  moreover have "fmap_of_list kvs \<noteq> fmempty"
    using assms(2) by (cases kvs) auto
  ultimately show ?thesis
    by (fastforce simp: LabelsMatch_iff list_all_iff)
qed

lemma label_keys_distinct:
  "distinct [LabelManagedBy, LabelWIFKey, LabelWIFVCS, LabelK8sNamespace, LabelK8sServiceAccount]"
  by (simp add: label_keys)

lemma LabelsMatch_ownership:
  "LabelsMatch h (OwnershipLabels key ns sa) \<longleftrightarrow>
     get h LabelManagedBy = ValueManagedBy \<and> get h LabelWIFKey = key \<and>
     get h LabelWIFVCS = ValueVCSKubernetes \<and> get h LabelK8sNamespace = ns \<and>
     get h LabelK8sServiceAccount = sa"
  unfolding OwnershipLabels_def
  by (subst LabelsMatch_list) (use label_keys_distinct in simp_all)

lemma get_OwnershipLabels [simp]:
  "get (OwnershipLabels k ns sa) LabelManagedBy = ValueManagedBy"
  "get (OwnershipLabels k ns sa) LabelWIFKey = k"
  "get (OwnershipLabels k ns sa) LabelWIFVCS = ValueVCSKubernetes"
  "get (OwnershipLabels k ns sa) LabelK8sNamespace = ns"
  "get (OwnershipLabels k ns sa) LabelK8sServiceAccount = sa"
  using label_keys_distinct by (simp_all add: OwnershipLabels_def)

text \<open>Two workloads' label sets match only if the workloads agree.\<close>

lemma OwnershipLabels_match_eq:
  "LabelsMatch (OwnershipLabels k ns sa) (OwnershipLabels k' ns' sa') \<longleftrightarrow>
     k = k' \<and> ns = ns' \<and> sa = sa'"
  by (simp add: LabelsMatch_ownership)

lemma OwnershipLabels_self [simp]: "LabelsMatch (OwnershipLabels k ns sa) (OwnershipLabels k ns sa)"
  by (simp add: OwnershipLabels_match_eq)

lemma LabelsMatch_single [simp]:
  "LabelsMatch h (fmupd k v fmempty) \<longleftrightarrow> get h k = v"
  using LabelsMatch_list [of "[(k, v)]" h] by simp

section \<open>Facts about subjects and keys\<close>

lemma BuildKubernetesSubject_ok:
  "BuildKubernetesSubject ns n = Inr s \<longleftrightarrow>
     TrimSpace ns \<noteq> [] \<and> TrimSpace n \<noteq> [] \<and>
     CHR ''/'' \<notin> set (TrimSpace ns) \<and> CHR ''/'' \<notin> set (TrimSpace n) \<and>
     s = ''system:serviceaccount:'' @ TrimSpace ns @ '':'' @ TrimSpace n"
  by (auto simp: BuildKubernetesSubject_def Let_def)

lemma append_sep_inject:
  "c \<notin> set xs \<Longrightarrow> c \<notin> set xs' \<Longrightarrow> xs @ c # ys = xs' @ c # ys' \<longleftrightarrow> xs = xs' \<and> ys = ys'"
proof (induction xs arbitrary: xs')
  case Nil
  then show ?case by (cases xs') auto
next
  case (Cons x xs)
  then show ?case by (cases xs') auto
qed

lemma length_ResourceKey [simp]: "length (ResourceKey ns sa sub iss) = 16"
  by (simp add: ResourceKey_def length_EncodeToString length_Sum256)

lemma ResourceKey_digits: "set (ResourceKey ns sa sub iss) \<subseteq> set ''0123456789abcdef''"
  unfolding ResourceKey_def by (rule EncodeToString_digits)

lemma NormalizeIssuer_slash:
  "TrimSpace (iss @ ''/'') = TrimSpace iss @ ''/'' \<Longrightarrow> \<not> suffix ''/'' (TrimSpace iss) \<Longrightarrow>
   NormalizeIssuer (iss @ ''/'') = NormalizeIssuer iss"
  by (simp add: NormalizeIssuer_def TrimSuffix_no)

lemma binding_name_short: "length (''wif-k8s-'' @ ResourceKey ns sa sub iss) = 24"
  by simp

text \<open>
  The subject determines namespace and name (a namespace has no colon), and the hashed text
  determines everything the key stands for (names have no newline and, after
  \<^verbatim>\<open>BuildKubernetesSubject\<close>, no slash).
\<close>

lemma BuildKubernetesSubject_inject:
  assumes "BuildKubernetesSubject ns n = Inr s" and "BuildKubernetesSubject ns' n' = Inr s"
    and "CHR '':'' \<notin> set (TrimSpace ns)" and "CHR '':'' \<notin> set (TrimSpace ns')"
  shows "TrimSpace ns = TrimSpace ns' \<and> TrimSpace n = TrimSpace n'"
proof -
  from assms(1,2) have "TrimSpace ns @ CHR '':'' # TrimSpace n = TrimSpace ns' @ CHR '':'' # TrimSpace n'"
    by (auto simp: BuildKubernetesSubject_ok)
  with assms(3,4) show ?thesis by (simp add: append_sep_inject)
qed

lemma key_input_inject:
  assumes eq: "key_input ns sa sub iss = key_input ns' sa' sub' iss'"
    and slash: "CHR ''/'' \<notin> set (TrimSpace ns)" "CHR ''/'' \<notin> set (TrimSpace ns')"
    and nl: "CHR 0x0A \<notin> set (TrimSpace ns @ TrimSpace sa @ sub)"
      "CHR 0x0A \<notin> set (TrimSpace ns' @ TrimSpace sa' @ sub')"
  shows "TrimSpace ns = TrimSpace ns' \<and> TrimSpace sa = TrimSpace sa' \<and> sub = sub' \<and>
    NormalizeIssuer iss = NormalizeIssuer iss'"
proof -
  let ?repo = "TrimSpace ns @ CHR ''/'' # TrimSpace sa"
  let ?repo' = "TrimSpace ns' @ CHR ''/'' # TrimSpace sa'"
  from eq have
    "?repo @ CHR 0x0A # sub @ CHR 0x0A # NormalizeIssuer iss =
     ?repo' @ CHR 0x0A # sub' @ CHR 0x0A # NormalizeIssuer iss'"
    by (simp add: key_input_def Let_def)
  with nl have "?repo = ?repo' \<and>
      sub @ CHR 0x0A # NormalizeIssuer iss = sub' @ CHR 0x0A # NormalizeIssuer iss'"
    by (subst (asm) append_sep_inject) auto
  moreover from this nl have "sub = sub' \<and> NormalizeIssuer iss = NormalizeIssuer iss'"
    by (subst (asm) append_sep_inject) auto
  moreover from calculation(1) slash have "TrimSpace ns = TrimSpace ns' \<and> TrimSpace sa = TrimSpace sa'"
    by (simp add: append_sep_inject)
  ultimately show ?thesis by blast
qed

section \<open>Facts about names\<close>

lemma length_sanitizeName: "length (sanitizeName s) \<le> 200"
  by (simp add: sanitizeName_def length_truncate_to)

lemma DefaultResourceNames_bound:
  "length (fst (DefaultResourceNames key override)) \<le> 200 \<and>
   length (snd (DefaultResourceNames key override)) \<le> 200"
  by (simp add: DefaultResourceNames_def Let_def length_sanitizeName)

section \<open>Facts about scopes\<close>

text \<open>The names a scope list mentions, and which of them are acceptable.\<close>

definition scope_names :: "string list \<Rightarrow> string list" where
  "scope_names parts = filter (\<lambda>p. p \<noteq> []) (map TrimSpace parts)"

definition scope_ok :: "iam_consts \<Rightarrow> string \<Rightarrow> bool" where
  "scope_ok k p \<longleftrightarrow> p \<noteq> ''*'' \<and> knownScope k p \<noteq> None"

lemma knownScope_Some: "knownScope k p = Some s \<Longrightarrow> s = p"
  by (auto simp: knownScope_def split: if_splits)

lemma scope_names_simps [simp]:
  "scope_names [] = []"
  "scope_names (p # ps) = (if TrimSpace p = [] then scope_names ps else TrimSpace p # scope_names ps)"
  by (simp_all add: scope_names_def)

lemma scope_loop_returns:
  "(\<exists>r. scope_loop k ps seen out = Inr r) \<longleftrightarrow> list_all (scope_ok k) (scope_names ps)"
proof (induction k ps seen out rule: scope_loop.induct)
  case (2 k p ps seen out)
  then show ?case by (cases "knownScope k (TrimSpace p)") (auto simp: Let_def scope_ok_def)
qed simp

lemma scope_loop_result:
  "scope_loop k ps seen out = Inr r \<Longrightarrow> set seen = set out \<Longrightarrow> distinct out \<Longrightarrow>
   distinct r \<and> set r = set out \<union> set (scope_names ps) \<and>
   (\<exists>s. r = out @ s \<and> subseq s (scope_names ps))"
proof (induction k ps seen out rule: scope_loop.induct)
  case (2 k p ps seen out)
  show ?case
  proof (cases "TrimSpace p = [] \<or> TrimSpace p \<in> set seen")
    case True
    with 2 show ?thesis
      by (auto simp: Let_def split: option.splits if_splits) blast+
  next
    case False
    from 2(4) False obtain s where s: "knownScope k (TrimSpace p) = Some s"
      and run: "scope_loop k ps (TrimSpace p # seen) (out @ [s]) = Inr r"
      by (auto simp: Let_def split: option.splits if_splits)
    from s have [simp]: "s = TrimSpace p" by (rule knownScope_Some)
    from False run 2(4-6) s have
      "distinct r \<and> set r = set (out @ [s]) \<union> set (scope_names ps) \<and>
       (\<exists>t. r = (out @ [s]) @ t \<and> subseq t (scope_names ps))"
      by (intro 2(3) [OF refl _ _ s]) (auto split: if_splits)
    with False show ?thesis by auto
  qed
qed auto

lemma ParseScopeList_returns:
  "(\<exists>r. ParseScopeList k parts = Inr r) \<longleftrightarrow> list_all (scope_ok k) (scope_names parts)"
  using scope_loop_returns [of k parts "[]" "[]"]
  by (auto simp: ParseScopeList_def split: sum.splits)

lemma ParseScopeList_result:
  assumes "ParseScopeList k parts = Inr r"
  shows "r \<noteq> [] \<and> distinct r \<and>
    (if scope_names parts = [] then r = [AccessCredentialsScopeOpenID]
     else set r = set (scope_names parts) \<and> subseq r (scope_names parts))"
proof -
  from assms obtain out where out: "scope_loop k parts [] [] = Inr out"
    and r: "r = (if out = [] then [AccessCredentialsScopeOpenID] else out)"
    by (auto simp: ParseScopeList_def split: sum.splits if_splits)
  from scope_loop_result [OF out] have
    "distinct out" "set out = set (scope_names parts)" "subseq out (scope_names parts)"
    by auto
  with r show ?thesis by (cases "out = []") auto
qed

lemma ParseScopeList_known:
  assumes "ParseScopeList k parts = Inr r" and "s \<in> set r"
  shows "knownScope k s = Some s \<and> (s = ''*'' \<longrightarrow> scope_names parts = [])"
proof (cases "scope_names parts = []")
  case True
  with ParseScopeList_result [OF assms(1)] assms(2) show ?thesis by (simp add: knownScope_def)
next
  case False
  with ParseScopeList_result [OF assms(1)] assms(2) have "s \<in> set (scope_names parts)" by auto
  moreover have "list_all (scope_ok k) (scope_names parts)"
    using assms(1) ParseScopeList_returns by blast
  ultimately have "scope_ok k s" by (auto simp: list_all_iff)
  then show ?thesis by (auto simp: scope_ok_def dest: knownScope_Some)
qed

text \<open>Scopes that are their own parse: what the annotation of a scope list reads back as.\<close>

lemma scope_loop_distinct:
  "list_all (scope_ok k) ps \<Longrightarrow> list_all (\<lambda>p. p \<noteq> [] \<and> TrimSpace p = p) ps \<Longrightarrow> distinct ps \<Longrightarrow>
   set ps \<inter> set seen = {} \<Longrightarrow> scope_loop k ps seen out = Inr (out @ ps)"
proof (induction ps arbitrary: seen out)
  case (Cons p ps)
  then obtain s where s: "knownScope k p = Some s" by (auto simp: scope_ok_def)
  moreover from s have "s = p" by (rule knownScope_Some)
  ultimately show ?case using Cons by (auto simp: Let_def scope_ok_def)
qed simp

definition plain_scope :: "string \<Rightarrow> bool" where
  "plain_scope p \<longleftrightarrow> p \<noteq> [] \<and> list_all (\<lambda>c. plain_char c \<and> c \<noteq> CHR '','') p"

lemma plain_scope_trim: "plain_scope p \<Longrightarrow> TrimSpace p = p"
  by (rule TrimSpace_plain) (auto simp: plain_scope_def list_all_iff)

lemma Join_plain_ends:
  "ps \<noteq> [] \<Longrightarrow> list_all plain_scope ps \<Longrightarrow>
   Join ps c \<noteq> [] \<and> plain_char (hd (Join ps c)) \<and> plain_char (last (Join ps c))"
proof (induction ps c rule: Join.induct)
  case (3 p q ps c)
  then show ?case by (auto simp: plain_scope_def list_all_iff)
qed (auto simp: plain_scope_def list_all_iff)

lemma ParseScopes_Join:
  assumes "rs \<noteq> []" and "distinct rs" and "list_all (scope_ok k) rs" and "list_all plain_scope rs"
  shows "ParseScopes k (Join rs CHR '','') = Inr rs"
proof -
  have j: "Join rs CHR '','' \<noteq> []" "TrimSpace (Join rs CHR '','') = Join rs CHR '',''"
    using Join_plain_ends [OF assms(1,4)] by (auto intro: TrimSpace_plain)
  have "Split (Join rs CHR '','') CHR '','' = rs"
    using assms(1,4) by (intro Split_Join) (auto simp: list_all_iff plain_scope_def)
  moreover have "scope_loop k rs [] [] = Inr rs"
    using scope_loop_distinct [OF assms(3) _ assms(2), of "[]" "[]"] assms(4)
    by (auto simp: list_all_iff plain_scope_trim) (auto simp: plain_scope_def)
  ultimately show ?thesis
    using j assms(1) by (simp add: ParseScopes_def ParseScopeList_def)
qed

end
