(* ===== verification/IamApi.thy ===== *)
theory IamApi
  imports Subject "HOL-Library.Multiset"
begin

text \<open>
  The interface \<^verbatim>\<open>IAMClient\<close> of \<^verbatim>\<open>internal/wif/ensure.go\<close> to the Thalassa IAM API. The
  implementation (\<^verbatim>\<open>client-go\<close>) is outside the repository, so a client is a record of
  operations over an arbitrary world state and every function of the program takes it as
  an argument. Pointers that may be nil are options; a request struct that carries no data
  is dropped. Two things are built on the record: an instrumented client that also keeps
  the trace of its calls and responses, and the locale \<open>iam_store\<close> that states the
  documented behaviour of a store behind the API.
\<close>

section \<open>Resources and requests\<close>

record FederatedIdentityProvider =
  idp_Identity :: string
  idp_ProviderIssuer :: string
  idp_Labels :: smap

record ServiceAccount =
  sa_Identity :: string
  sa_Name :: string
  sa_Labels :: smap
  sa_Annotations :: smap

record FederatedIdentity =
  fi_Identity :: string
  fi_Name :: string
  fi_Description :: string
  fi_Labels :: smap
  fi_Annotations :: smap
  fi_ProviderSubject :: string
  fi_TrustedAudiences :: "string list"
  fi_AudienceMatchMode :: string
  fi_AllowedScopes :: "string list"

record OrganisationRole =
  role_Identity :: string
  role_Slug :: string
  role_Name :: string

record IamPolicy =
  policy_Identity :: string
  policy_Slug :: string
  policy_Name :: string

text \<open>\<^verbatim>\<open>OrganisationRoleBinding\<close> and \<^verbatim>\<open>IamPolicyBinding\<close> have the same fields.\<close>

record iam_binding =
  b_Identity :: string
  b_Name :: string
  b_Labels :: smap
  b_ServiceAccount :: "ServiceAccount option"

type_synonym OrganisationRoleBinding = iam_binding
type_synonym IamPolicyBinding = iam_binding

record CreateServiceAccountRequest =
  csa_Name :: string
  csa_Description :: "string option"
  csa_Labels :: smap
  csa_Annotations :: smap

record CreateFederatedIdentityRequest =
  cfi_Name :: string
  cfi_Description :: string
  cfi_Labels :: smap
  cfi_Annotations :: smap
  cfi_ServiceAccountIdentity :: string
  cfi_ProviderIdentity :: string
  cfi_ProviderSubject :: string
  cfi_TrustedAudiences :: "string list"
  cfi_AudienceMatchMode :: string
  cfi_AllowedScopes :: "string list"

record UpdateFederatedIdentityRequest =
  ufi_Name :: string
  ufi_Description :: string
  ufi_Labels :: smap
  ufi_Annotations :: smap
  ufi_TrustedAudiences :: "string list"
  ufi_AudienceMatchMode :: string
  ufi_AllowedScopes :: "string list"

record CreateBindingRequest =
  cb_Name :: string
  cb_Description :: string
  cb_Labels :: smap
  cb_ServiceAccountIdentity :: "string option"

section \<open>The client\<close>

text \<open>The list operations take the labels of the request's filter.\<close>

record 'w iam_client =
  ic_consts :: iam_consts
  ListFederatedIdentityProviders :: "smap \<Rightarrow> (FederatedIdentityProvider list, 'w) api"
  ListServiceAccounts :: "smap \<Rightarrow> (ServiceAccount list, 'w) api"
  CreateServiceAccount :: "CreateServiceAccountRequest \<Rightarrow> (ServiceAccount option, 'w) api"
  DeleteServiceAccount :: "string \<Rightarrow> (unit, 'w) api"
  ListFederatedIdentities :: "smap \<Rightarrow> (FederatedIdentity list, 'w) api"
  CreateFederatedIdentity :: "CreateFederatedIdentityRequest \<Rightarrow> (FederatedIdentity option, 'w) api"
  UpdateFederatedIdentity ::
    "string \<Rightarrow> UpdateFederatedIdentityRequest \<Rightarrow> (FederatedIdentity option, 'w) api"
  DeleteFederatedIdentity :: "string \<Rightarrow> (unit, 'w) api"
  GetOrganisationRole :: "string \<Rightarrow> (OrganisationRole option, 'w) api"
  ListOrganisationRoles :: "(OrganisationRole list, 'w) api"
  ListRoleBindings :: "string \<Rightarrow> (OrganisationRoleBinding list, 'w) api"
  CreateRoleBinding ::
    "string \<Rightarrow> CreateBindingRequest \<Rightarrow> (OrganisationRoleBinding option, 'w) api"
  DeleteRoleBinding :: "string \<Rightarrow> string \<Rightarrow> (unit, 'w) api"
  ListIamPolicies :: "(IamPolicy list, 'w) api"
  GetIamPolicy :: "string \<Rightarrow> (IamPolicy option, 'w) api"
  ListIamPolicyBindings :: "string \<Rightarrow> (IamPolicyBinding list, 'w) api"
  CreateIamPolicyBinding ::
    "string \<Rightarrow> CreateBindingRequest \<Rightarrow> (IamPolicyBinding option, 'w) api"
  DeleteIamPolicyBinding :: "string \<Rightarrow> string \<Rightarrow> (unit, 'w) api"

text \<open>
  A client that never returns a nil resource without an error, which is what the code
  relies on when it dereferences the resources it created or updated.
\<close>

definition never_nil :: "'w iam_client \<Rightarrow> bool" where
  "never_nil c \<longleftrightarrow>
     (\<forall>req w. fst (CreateServiceAccount c req w) \<noteq> Inr None) \<and>
     (\<forall>req w. fst (CreateFederatedIdentity c req w) \<noteq> Inr None) \<and>
     (\<forall>i req w. fst (UpdateFederatedIdentity c i req w) \<noteq> Inr None)"

section \<open>The instrumented client\<close>

datatype iam_event =
    EvListProviders smap "api_error + FederatedIdentityProvider list"
  | EvListSAs smap "api_error + ServiceAccount list"
  | EvCreateSA CreateServiceAccountRequest "api_error + ServiceAccount option"
  | EvDeleteSA string "api_error + unit"
  | EvListFIs smap "api_error + FederatedIdentity list"
  | EvCreateFI CreateFederatedIdentityRequest "api_error + FederatedIdentity option"
  | EvUpdateFI string UpdateFederatedIdentityRequest "api_error + FederatedIdentity option"
  | EvDeleteFI string "api_error + unit"
  | EvGetRole string "api_error + OrganisationRole option"
  | EvListRoles "api_error + OrganisationRole list"
  | EvListRBs string "api_error + OrganisationRoleBinding list"
  | EvCreateRB string CreateBindingRequest "api_error + OrganisationRoleBinding option"
  | EvDeleteRB string string "api_error + unit"
  | EvListPolicies "api_error + IamPolicy list"
  | EvGetPolicy string "api_error + IamPolicy option"
  | EvListPBs string "api_error + IamPolicyBinding list"
  | EvCreatePB string CreateBindingRequest "api_error + IamPolicyBinding option"
  | EvDeletePB string string "api_error + unit"

text \<open>The calls that change something at the API, and those that delete.\<close>

fun deletes :: "iam_event \<Rightarrow> bool" where
  "deletes (EvDeleteSA _ _) = True"
| "deletes (EvDeleteFI _ _) = True"
| "deletes (EvDeleteRB _ _ _) = True"
| "deletes (EvDeletePB _ _ _) = True"
| "deletes _ = False"

fun creates :: "iam_event \<Rightarrow> bool" where
  "creates (EvCreateSA _ _) = True"
| "creates (EvCreateFI _ _) = True"
| "creates (EvUpdateFI _ _ _) = True"
| "creates (EvCreateRB _ _ _) = True"
| "creates (EvCreatePB _ _ _) = True"
| "creates _ = False"

definition mutates :: "iam_event \<Rightarrow> bool" where
  "mutates e \<longleftrightarrow> creates e \<or> deletes e"

text \<open>\<open>emb\<close> embeds the events of this client into a trace shared with other clients.\<close>

definition logged :: "(iam_event \<Rightarrow> 'e) \<Rightarrow> 'w iam_client \<Rightarrow> ('w \<times> 'e list) iam_client" where
  "logged emb c = \<lparr>
     ic_consts = ic_consts c,
     ListFederatedIdentityProviders =
       (\<lambda>l. logcall (\<lambda>r. emb (EvListProviders l r)) (ListFederatedIdentityProviders c l)),
     ListServiceAccounts = (\<lambda>l. logcall (\<lambda>r. emb (EvListSAs l r)) (ListServiceAccounts c l)),
     CreateServiceAccount = (\<lambda>q. logcall (\<lambda>r. emb (EvCreateSA q r)) (CreateServiceAccount c q)),
     DeleteServiceAccount = (\<lambda>i. logcall (\<lambda>r. emb (EvDeleteSA i r)) (DeleteServiceAccount c i)),
     ListFederatedIdentities =
       (\<lambda>l. logcall (\<lambda>r. emb (EvListFIs l r)) (ListFederatedIdentities c l)),
     CreateFederatedIdentity =
       (\<lambda>q. logcall (\<lambda>r. emb (EvCreateFI q r)) (CreateFederatedIdentity c q)),
     UpdateFederatedIdentity =
       (\<lambda>i q. logcall (\<lambda>r. emb (EvUpdateFI i q r)) (UpdateFederatedIdentity c i q)),
     DeleteFederatedIdentity =
       (\<lambda>i. logcall (\<lambda>r. emb (EvDeleteFI i r)) (DeleteFederatedIdentity c i)),
     GetOrganisationRole = (\<lambda>i. logcall (\<lambda>r. emb (EvGetRole i r)) (GetOrganisationRole c i)),
     ListOrganisationRoles = logcall (\<lambda>r. emb (EvListRoles r)) (ListOrganisationRoles c),
     ListRoleBindings = (\<lambda>i. logcall (\<lambda>r. emb (EvListRBs i r)) (ListRoleBindings c i)),
     CreateRoleBinding =
       (\<lambda>i q. logcall (\<lambda>r. emb (EvCreateRB i q r)) (CreateRoleBinding c i q)),
     DeleteRoleBinding =
       (\<lambda>i b. logcall (\<lambda>r. emb (EvDeleteRB i b r)) (DeleteRoleBinding c i b)),
     ListIamPolicies = logcall (\<lambda>r. emb (EvListPolicies r)) (ListIamPolicies c),
     GetIamPolicy = (\<lambda>i. logcall (\<lambda>r. emb (EvGetPolicy i r)) (GetIamPolicy c i)),
     ListIamPolicyBindings =
       (\<lambda>i. logcall (\<lambda>r. emb (EvListPBs i r)) (ListIamPolicyBindings c i)),
     CreateIamPolicyBinding =
       (\<lambda>i q. logcall (\<lambda>r. emb (EvCreatePB i q r)) (CreateIamPolicyBinding c i q)),
     DeleteIamPolicyBinding =
       (\<lambda>i b. logcall (\<lambda>r. emb (EvDeletePB i b r)) (DeleteIamPolicyBinding c i b))\<rparr>"

lemma logged_sel [simp]:
  "ic_consts (logged emb c) = ic_consts c"
  "ListFederatedIdentityProviders (logged emb c) l =
     logcall (\<lambda>r. emb (EvListProviders l r)) (ListFederatedIdentityProviders c l)"
  "ListServiceAccounts (logged emb c) l = logcall (\<lambda>r. emb (EvListSAs l r)) (ListServiceAccounts c l)"
  "CreateServiceAccount (logged emb c) q =
     logcall (\<lambda>r. emb (EvCreateSA q r)) (CreateServiceAccount c q)"
  "DeleteServiceAccount (logged emb c) i =
     logcall (\<lambda>r. emb (EvDeleteSA i r)) (DeleteServiceAccount c i)"
  "ListFederatedIdentities (logged emb c) l =
     logcall (\<lambda>r. emb (EvListFIs l r)) (ListFederatedIdentities c l)"
  "CreateFederatedIdentity (logged emb c) fq =
     logcall (\<lambda>r. emb (EvCreateFI fq r)) (CreateFederatedIdentity c fq)"
  "UpdateFederatedIdentity (logged emb c) i uq =
     logcall (\<lambda>r. emb (EvUpdateFI i uq r)) (UpdateFederatedIdentity c i uq)"
  "DeleteFederatedIdentity (logged emb c) i =
     logcall (\<lambda>r. emb (EvDeleteFI i r)) (DeleteFederatedIdentity c i)"
  "GetOrganisationRole (logged emb c) i =
     logcall (\<lambda>r. emb (EvGetRole i r)) (GetOrganisationRole c i)"
  "ListOrganisationRoles (logged emb c) = logcall (\<lambda>r. emb (EvListRoles r)) (ListOrganisationRoles c)"
  "ListRoleBindings (logged emb c) i = logcall (\<lambda>r. emb (EvListRBs i r)) (ListRoleBindings c i)"
  "CreateRoleBinding (logged emb c) i bq =
     logcall (\<lambda>r. emb (EvCreateRB i bq r)) (CreateRoleBinding c i bq)"
  "DeleteRoleBinding (logged emb c) i j =
     logcall (\<lambda>r. emb (EvDeleteRB i j r)) (DeleteRoleBinding c i j)"
  "ListIamPolicies (logged emb c) = logcall (\<lambda>r. emb (EvListPolicies r)) (ListIamPolicies c)"
  "GetIamPolicy (logged emb c) i = logcall (\<lambda>r. emb (EvGetPolicy i r)) (GetIamPolicy c i)"
  "ListIamPolicyBindings (logged emb c) i =
     logcall (\<lambda>r. emb (EvListPBs i r)) (ListIamPolicyBindings c i)"
  "CreateIamPolicyBinding (logged emb c) i bq =
     logcall (\<lambda>r. emb (EvCreatePB i bq r)) (CreateIamPolicyBinding c i bq)"
  "DeleteIamPolicyBinding (logged emb c) i j =
     logcall (\<lambda>r. emb (EvDeletePB i j r)) (DeleteIamPolicyBinding c i j)"
  by (simp_all add: logged_def)

section \<open>The store behind the API\<close>

text \<open>
  Documented behaviour of the API, as laws over views of the world: lists and lookups
  change nothing and answer from their view; a list filtered by labels contains exactly
  the stored resources with these labels (a server may filter or leave that to the
  caller); a created resource is stored with the requested fields beside the others; an
  update replaces the first resource of that identity and keeps what the request does
  not name, the provider subject in particular; a created binding is listed for its
  service account. Every operation may also fail.
\<close>

definition created_fi :: "CreateFederatedIdentityRequest \<Rightarrow> FederatedIdentity \<Rightarrow> bool" where
  "created_fi q f \<longleftrightarrow>
     fi_Name f = cfi_Name q \<and> fi_Description f = cfi_Description q \<and> fi_Labels f = cfi_Labels q \<and>
     fi_Annotations f = cfi_Annotations q \<and> fi_ProviderSubject f = cfi_ProviderSubject q \<and>
     fi_TrustedAudiences f = cfi_TrustedAudiences q \<and>
     fi_AudienceMatchMode f = cfi_AudienceMatchMode q \<and> fi_AllowedScopes f = cfi_AllowedScopes q"

definition updated_fi :: "UpdateFederatedIdentityRequest \<Rightarrow> FederatedIdentity \<Rightarrow> FederatedIdentity" where
  "updated_fi q f = f\<lparr>
     fi_Name := ufi_Name q, fi_Description := ufi_Description q, fi_Labels := ufi_Labels q,
     fi_Annotations := ufi_Annotations q, fi_TrustedAudiences := ufi_TrustedAudiences q,
     fi_AudienceMatchMode := ufi_AudienceMatchMode q, fi_AllowedScopes := ufi_AllowedScopes q\<rparr>"

definition binds_sa :: "string \<Rightarrow> iam_binding \<Rightarrow> bool" where
  "binds_sa i b \<longleftrightarrow> (case b_ServiceAccount b of None \<Rightarrow> False | Some s \<Rightarrow> sa_Identity s = i)"

locale iam_store =
  fixes c :: "'w iam_client"
    and provs :: "'w \<Rightarrow> FederatedIdentityProvider list"
    and sas :: "'w \<Rightarrow> ServiceAccount list"
    and fis :: "'w \<Rightarrow> FederatedIdentity list"
    and roles :: "'w \<Rightarrow> OrganisationRole list"
    and rbs :: "'w \<Rightarrow> string \<Rightarrow> OrganisationRoleBinding list"
    and pols :: "'w \<Rightarrow> IamPolicy list"
    and pbs :: "'w \<Rightarrow> string \<Rightarrow> IamPolicyBinding list"
  assumes reads_pure:
      "snd (ListFederatedIdentityProviders c l w) = w"
      "snd (ListServiceAccounts c l w) = w"
      "snd (ListFederatedIdentities c l w) = w"
      "snd (GetOrganisationRole c i w) = w"
      "snd (ListOrganisationRoles c w) = w"
      "snd (ListRoleBindings c i w) = w"
      "snd (ListIamPolicies c w) = w"
      "snd (GetIamPolicy c i w) = w"
      "snd (ListIamPolicyBindings c i w) = w"
    and provs_view: "provs w = provs w' \<Longrightarrow>
      fst (ListFederatedIdentityProviders c l w) = fst (ListFederatedIdentityProviders c l w')"
    and roles_view: "roles w = roles w' \<Longrightarrow>
      fst (GetOrganisationRole c i w) = fst (GetOrganisationRole c i w') \<and>
      fst (ListOrganisationRoles c w) = fst (ListOrganisationRoles c w')"
    and pols_view: "pols w = pols w' \<Longrightarrow>
      fst (GetIamPolicy c i w) = fst (GetIamPolicy c i w') \<and>
      fst (ListIamPolicies c w) = fst (ListIamPolicies c w')"
    and sas_listed: "ListServiceAccounts c l w = (Inr xs, w') \<Longrightarrow>
      filter (\<lambda>s. LabelsMatch (sa_Labels s) l) xs = filter (\<lambda>s. LabelsMatch (sa_Labels s) l) (sas w)"
    and fis_listed: "ListFederatedIdentities c l w = (Inr ys, w') \<Longrightarrow>
      filter (\<lambda>f. LabelsMatch (fi_Labels f) l) ys = filter (\<lambda>f. LabelsMatch (fi_Labels f) l) (fis w)"
    and rbs_listed: "ListRoleBindings c i w = (Inr bs, w') \<Longrightarrow> set bs = set (rbs w i)"
    and pbs_listed: "ListIamPolicyBindings c i w = (Inr bs, w') \<Longrightarrow> set bs = set (pbs w i)"
    and sa_created: "CreateServiceAccount c q w = (Inr (Some s), w') \<Longrightarrow>
      mset (sas w') = add_mset s (mset (sas w)) \<and> sa_Labels s = csa_Labels q \<and>
      provs w' = provs w \<and> fis w' = fis w \<and> roles w' = roles w \<and> rbs w' = rbs w \<and>
      pols w' = pols w \<and> pbs w' = pbs w"
    and fi_created: "CreateFederatedIdentity c fq w = (Inr (Some f), w') \<Longrightarrow>
      mset (fis w') = add_mset f (mset (fis w)) \<and> created_fi fq f \<and>
      provs w' = provs w \<and> sas w' = sas w \<and> roles w' = roles w \<and> rbs w' = rbs w \<and>
      pols w' = pols w \<and> pbs w' = pbs w"
    and fi_updated: "UpdateFederatedIdentity c i uq w = (Inr (Some f), w') \<Longrightarrow>
      (\<exists>pre old post. fis w = pre @ old # post \<and> fi_Identity old = i \<and>
         i \<notin> fi_Identity ` set pre \<and> f = updated_fi uq old \<and> fis w' = pre @ f # post) \<and>
      provs w' = provs w \<and> sas w' = sas w \<and> roles w' = roles w \<and> rbs w' = rbs w \<and>
      pols w' = pols w \<and> pbs w' = pbs w"
    and rb_created: "CreateRoleBinding c i bq w = (Inr b, w') \<Longrightarrow>
      (\<forall>k. cb_ServiceAccountIdentity bq = Some k \<longrightarrow>
         (\<exists>b' \<in> set (rbs w' i). binds_sa k b' \<and> b_Labels b' = cb_Labels bq)) \<and>
      (\<forall>j. set (rbs w j) \<subseteq> set (rbs w' j)) \<and>
      provs w' = provs w \<and> sas w' = sas w \<and> fis w' = fis w \<and> roles w' = roles w \<and>
      pols w' = pols w \<and> pbs w' = pbs w"
    and pb_created: "CreateIamPolicyBinding c i bq w = (Inr b, w') \<Longrightarrow>
      (\<forall>k. cb_ServiceAccountIdentity bq = Some k \<longrightarrow>
         (\<exists>b' \<in> set (pbs w' i). binds_sa k b' \<and> b_Labels b' = cb_Labels bq)) \<and>
      (\<forall>j. set (pbs w j) \<subseteq> set (pbs w' j)) \<and>
      provs w' = provs w \<and> sas w' = sas w \<and> fis w' = fis w \<and> roles w' = roles w \<and>
      pols w' = pols w \<and> rbs w' = rbs w"

text \<open>A store that is reachable: its reads do not fail.\<close>

locale iam_store_up = iam_store +
  assumes reads_up:
      "\<exists>xs. fst (ListFederatedIdentityProviders c l w) = Inr xs"
      "\<exists>xs. fst (ListServiceAccounts c l w) = Inr xs"
      "\<exists>xs. fst (ListFederatedIdentities c l w) = Inr xs"
      "\<exists>xs. fst (ListOrganisationRoles c w) = Inr xs"
      "\<exists>xs. fst (ListRoleBindings c i w) = Inr xs"
      "\<exists>xs. fst (ListIamPolicies c w) = Inr xs"
      "\<exists>xs. fst (ListIamPolicyBindings c i w) = Inr xs"

text \<open>
  A store that also deletes by identity. Deleting a service account may cascade to the
  federated identities and bindings that refer to it.
\<close>

locale iam_store_del = iam_store_up +
  assumes sa_deleted: "DeleteServiceAccount c i w = (Inr u, w') \<Longrightarrow>
      sas w' = filter (\<lambda>s. sa_Identity s \<noteq> i) (sas w) \<and>
      set (fis w') \<subseteq> set (fis w) \<and> (\<forall>j. set (pbs w' j) \<subseteq> set (pbs w j)) \<and>
      (\<forall>j. set (rbs w' j) \<subseteq> set (rbs w j))"
    and fi_deleted: "DeleteFederatedIdentity c i w = (Inr u, w') \<Longrightarrow>
      fis w' = filter (\<lambda>f. fi_Identity f \<noteq> i) (fis w) \<and>
      sas w' = sas w \<and> roles w' = roles w \<and> rbs w' = rbs w \<and> pols w' = pols w \<and> pbs w' = pbs w"
    and pb_deleted: "DeleteIamPolicyBinding c p i w = (Inr u, w') \<Longrightarrow>
      pbs w' = (pbs w)(p := filter (\<lambda>b. b_Identity b \<noteq> i) (pbs w p)) \<and>
      fis w' = fis w \<and> sas w' = sas w \<and> roles w' = roles w \<and> rbs w' = rbs w \<and> pols w' = pols w"
    and rb_deleted: "DeleteRoleBinding c p i w = (Inr u, w') \<Longrightarrow>
      rbs w' = (rbs w)(p := filter (\<lambda>b. b_Identity b \<noteq> i) (rbs w p)) \<and>
      fis w' = fis w \<and> sas w' = sas w \<and> roles w' = roles w \<and> pbs w' = pbs w \<and> pols w' = pols w"

end
