(* ===== verification/Allowlist.thy ===== *)
theory Allowlist
  imports GoStrings
begin

text \<open>
  \<^verbatim>\<open>internal/config/allowlist.go\<close>: which policy and role references a binding may name.
  The loops are list recursions with the code's early returns; the lemmas give the
  decision as one quantified condition and show that blank entries fail closed.
\<close>

fun allow_loop :: "string list \<Rightarrow> string list \<Rightarrow> bool" where
  "allow_loop [] cs = False"
| "allow_loop (a # as) cs =
     (let a = TrimSpace a in
      if a = [] then allow_loop as cs
      else if list_ex (\<lambda>c. EqualFold a c) cs then True
      else allow_loop as cs)"

definition RefAllowed :: "string \<Rightarrow> string list \<Rightarrow> string list \<Rightarrow> bool" where
  "RefAllowed ref allowlist resolved =
     (if allowlist = [] then True
      else
        (let r = TrimSpace ref;
             candidates = (if r \<noteq> [] then [r] else []) @
                          filter (\<lambda>t. t \<noteq> []) (map TrimSpace resolved)
         in allow_loop allowlist candidates))"

definition CheckRefAllowlist ::
    "string \<Rightarrow> string \<Rightarrow> string list \<Rightarrow> string list \<Rightarrow> error option" where
  "CheckRefAllowlist kind ref allowlist resolved =
     (let ref = TrimSpace ref in
      if ref = [] \<or> allowlist = [] then None
      else if RefAllowed ref allowlist resolved then None
      else Some (ErrMsg (kind @ '' '' @ Quote ref @ '' is not in the configured allowlist'')))"

lemma allow_loop_iff:
  "allow_loop as cs \<longleftrightarrow>
     (\<exists>a \<in> set as. TrimSpace a \<noteq> [] \<and> (\<exists>c \<in> set cs. EqualFold (TrimSpace a) c))"
  by (induction as) (auto simp: Let_def list_ex_iff)

text \<open>
  The decision: an entry that is not blank equals, up to case and surrounding space, the
  reference itself or one of the names the API resolved it to.
\<close>

lemma RefAllowed_iff:
  "RefAllowed ref allowlist resolved \<longleftrightarrow>
     allowlist = [] \<or>
     (\<exists>a \<in> set allowlist. \<exists>c \<in> set (ref # resolved).
        TrimSpace a \<noteq> [] \<and> EqualFold (TrimSpace a) (TrimSpace c))"
proof -
  have "TrimSpace c \<noteq> []" if "EqualFold (TrimSpace a) (TrimSpace c)" "TrimSpace a \<noteq> []" for a c
    using that by auto
  then show ?thesis
    by (auto simp: RefAllowed_def allow_loop_iff Let_def)
qed

lemma RefAllowed_trim: "RefAllowed (TrimSpace ref) allowlist resolved = RefAllowed ref allowlist resolved"
  by (simp add: RefAllowed_def)

lemma CheckRefAllowlist_None:
  "CheckRefAllowlist kind ref allowlist resolved = None \<longleftrightarrow>
     TrimSpace ref = [] \<or> RefAllowed ref allowlist resolved"
  by (auto simp: CheckRefAllowlist_def Let_def RefAllowed_trim RefAllowed_def)

lemma RefAllowed_blank_list:
  "allowlist \<noteq> [] \<Longrightarrow> (\<forall>a \<in> set allowlist. TrimSpace a = []) \<Longrightarrow> \<not> RefAllowed ref allowlist resolved"
  by (auto simp: RefAllowed_iff)

lemma RefAllowed_mono:
  "RefAllowed ref al resolved \<Longrightarrow> al \<noteq> [] \<Longrightarrow> set al \<subseteq> set al' \<Longrightarrow>
   set resolved \<subseteq> set resolved' \<Longrightarrow> RefAllowed ref al' resolved'"
  by (auto simp: RefAllowed_iff)

end
