(* ===== verification/Ensure.thy ===== *)
theory Ensure
  imports IamApi Allowlist "HOL-Library.List_Lexorder" "HOL-Library.Char_ord"
begin

text \<open>
  \<^verbatim>\<open>internal/wif/ensure.go\<close>: creating, updating and deleting the Thalassa resources of one
  Kubernetes ServiceAccount. Every function takes the client and the world; the order of
  calls, early returns and error wrapping are the code's.
\<close>

record EnsureInput =
  in_Namespace :: string
  in_ServiceAccount :: string
  in_RoleRef :: string
  in_PolicyRef :: string
  in_NameOverride :: string
  in_Scopes :: "string list"
  in_TrustedAudiences :: "string list"
  in_ClusterIdentity :: string
  in_AllowedPolicies :: "string list"
  in_AllowedRoles :: "string list"

record EnsureResult =
  res_ProviderID :: string
  res_ServiceAccountID :: string
  res_FederatedIdentityID :: string
  res_PolicyID :: string
  res_Issuer :: string
  res_Subject :: string
  res_Key :: string

section \<open>Lookups\<close>

text \<open>The loop of \<^verbatim>\<open>FindProviderByClusterID\<close>: how many match, and the last that does.\<close>

fun provider_loop ::
    "smap \<Rightarrow> FederatedIdentityProvider list \<Rightarrow> nat \<Rightarrow> FederatedIdentityProvider option \<Rightarrow>
     nat \<times> FederatedIdentityProvider option" where
  "provider_loop want [] n found = (n, found)"
| "provider_loop want (p # ps) n found =
     (if LabelsMatch (idp_Labels p) want then provider_loop want ps (n + 1) (Some p)
      else provider_loop want ps n found)"

definition FindProviderByClusterID ::
    "'w iam_client \<Rightarrow> string \<Rightarrow> (FederatedIdentityProvider, 'w) prog" where
  "FindProviderByClusterID c clusterIdentity =
     (let clusterIdentity = TrimSpace clusterIdentity in
      if clusterIdentity = [] then failE (ErrMsg ''cluster identity is required'')
      else
        (let want = fmap_of_list [(LabelKubernetesClusterID, clusterIdentity)] in
         bindE (call (ListFederatedIdentityProviders c want)) (\<lambda>list.
           case provider_loop want list 0 None of
             (n, found) \<Rightarrow>
               if n = 0 then failE (ErrProviderNotReady clusterIdentity)
               else if n > 1 then
                 failE (ErrMsg (''multiple federated identity providers match label '' @
                   LabelKubernetesClusterID @ ''='' @ clusterIdentity))
               else derefE found)))"

definition findByLabelsSA :: "'w iam_client \<Rightarrow> smap \<Rightarrow> (ServiceAccount option, 'w) prog" where
  "findByLabelsSA c want =
     bindE (call (ListServiceAccounts c want)) (\<lambda>list.
       okE (find (\<lambda>s. LabelsMatch (sa_Labels s) want) list))"

definition findByLabelsFI :: "'w iam_client \<Rightarrow> smap \<Rightarrow> (FederatedIdentity option, 'w) prog" where
  "findByLabelsFI c want =
     bindE (call (ListFederatedIdentities c want)) (\<lambda>list.
       okE (find (\<lambda>f. LabelsMatch (fi_Labels f) want) list))"

definition resolveOrganisationRole :: "'w iam_client \<Rightarrow> string \<Rightarrow> (OrganisationRole, 'w) prog" where
  "resolveOrganisationRole c ref =
     (let ref = TrimSpace ref in
      tryE (call (GetOrganisationRole c ref)) (\<lambda>got.
        case got of
          Inr (Some role) \<Rightarrow> okE role
        | _ \<Rightarrow>
            bindE (wrapE ''list organisation roles'' (call (ListOrganisationRoles c))) (\<lambda>roles.
              case find (\<lambda>r. EqualFold (role_Identity r) ref \<or> EqualFold (role_Slug r) ref \<or>
                             EqualFold (role_Name r) ref) roles of
                Some r \<Rightarrow> okE r
              | None \<Rightarrow> failE (ErrMsg (''organisation role not found: '' @ ref)))))"

text \<open>
  The loop of \<^verbatim>\<open>resolveIamPolicy\<close>: an identity match anywhere in the list wins over the
  first slug or name match.
\<close>

fun policy_loop :: "string \<Rightarrow> IamPolicy list \<Rightarrow> IamPolicy option \<Rightarrow> IamPolicy option" where
  "policy_loop ref [] bySlugOrName = bySlugOrName"
| "policy_loop ref (p # ps) bySlugOrName =
     (if EqualFold (policy_Identity p) ref then Some p
      else if bySlugOrName = None \<and> (EqualFold (policy_Slug p) ref \<or> EqualFold (policy_Name p) ref)
        then policy_loop ref ps (Some p)
      else policy_loop ref ps bySlugOrName)"

definition resolveIamPolicy :: "'w iam_client \<Rightarrow> string \<Rightarrow> (IamPolicy, 'w) prog" where
  "resolveIamPolicy c ref =
     (let ref = TrimSpace ref in
      if ref = [] then failE (ErrMsg ''iam policy ref is required'')
      else
        (let listed =
           bindE (wrapE ''list iam policies'' (call (ListIamPolicies c))) (\<lambda>policies.
             case policy_loop ref policies None of
               Some p \<Rightarrow> okE p
             | None \<Rightarrow> failE (ErrMsg (''iam policy not found: '' @ ref)))
         in
         tryE (call (GetIamPolicy c ref)) (\<lambda>got.
           case got of
             Inr (Some policy) \<Rightarrow>
               if TrimSpace (policy_Identity policy) \<noteq> [] then okE policy else listed
           | _ \<Rightarrow> listed)))"

definition hasRoleBindingForSA :: "'w iam_client \<Rightarrow> string \<Rightarrow> string \<Rightarrow> (bool, 'w) prog" where
  "hasRoleBindingForSA c roleIdentity saIdentity =
     bindE (call (ListRoleBindings c roleIdentity)) (\<lambda>bindings.
       okE (list_ex (binds_sa saIdentity) bindings))"

definition hasPolicyBindingForSA :: "'w iam_client \<Rightarrow> string \<Rightarrow> string \<Rightarrow> (bool, 'w) prog" where
  "hasPolicyBindingForSA c policyIdentity saIdentity =
     bindE (call (ListIamPolicyBindings c policyIdentity)) (\<lambda>bindings.
       okE (list_ex (binds_sa saIdentity) bindings))"

section \<open>Comparing a federated identity with the desired one\<close>

definition scopesEqual :: "string list \<Rightarrow> string list \<Rightarrow> bool" where
  "scopesEqual a b \<longleftrightarrow> sort a = sort b"

definition audiencesEqual :: "string list \<Rightarrow> string list \<Rightarrow> bool" where
  "audiencesEqual a b \<longleftrightarrow> sort a = sort b"

definition fiNeedsUpdate ::
    "iam_consts \<Rightarrow> FederatedIdentity \<Rightarrow> string \<Rightarrow> string \<Rightarrow> string \<Rightarrow> string list \<Rightarrow> string list \<Rightarrow> smap \<Rightarrow>
     bool" where
  "fiNeedsUpdate k fi name desc subject scopes audiences labels =
     (let annSubj = get (fi_Annotations fi) AnnotationProviderSubject in
      \<not> scopesEqual (fi_AllowedScopes fi) scopes \<or>
      \<not> audiencesEqual (fi_TrustedAudiences fi) audiences \<or>
      (fi_AudienceMatchMode fi \<noteq> [] \<and> fi_AudienceMatchMode fi \<noteq> AudienceMatchModeAny k) \<or>
      fi_Name fi \<noteq> name \<or>
      fi_Description fi \<noteq> desc \<or>
      \<not> LabelsMatch (fi_Labels fi) labels \<or>
      annSubj \<noteq> subject \<or>
      fi_ProviderSubject fi \<noteq> subject)"

section \<open>Ensuring one resource\<close>

text \<open>The requests, as the code fills them in.\<close>

definition sa_create_request ::
    "string \<Rightarrow> string \<Rightarrow> string \<Rightarrow> string \<Rightarrow> smap \<Rightarrow> CreateServiceAccountRequest" where
  "sa_create_request name subject ns k8sSA labels =
     (let repo = ns @ ''/'' @ k8sSA;
          desc = ''Workload identity for Kubernetes '' @ repo @ ''; JWT sub: '' @ subject
      in \<lparr>csa_Name = name,
          csa_Description = Some desc,
          csa_Labels = labels,
          csa_Annotations = fmap_of_list [
            (AnnotationRepository, repo),
            (AnnotationProviderSubject, subject)]\<rparr>)"

definition fi_description :: "string \<Rightarrow> string" where
  "fi_description subject = ''WIF binding for '' @ subject"

definition fi_create_request ::
    "iam_consts \<Rightarrow> FederatedIdentityProvider \<Rightarrow> ServiceAccount \<Rightarrow> string \<Rightarrow> string \<Rightarrow> string list \<Rightarrow>
     string list \<Rightarrow> smap \<Rightarrow> CreateFederatedIdentityRequest" where
  "fi_create_request k provider sa fiName subject scopes audiences labels = \<lparr>
     cfi_Name = fiName,
     cfi_Description = fi_description subject,
     cfi_Labels = labels,
     cfi_Annotations = fmap_of_list [(AnnotationProviderSubject, subject)],
     cfi_ServiceAccountIdentity = sa_Identity sa,
     cfi_ProviderIdentity = idp_Identity provider,
     cfi_ProviderSubject = subject,
     cfi_TrustedAudiences = audiences,
     cfi_AudienceMatchMode = AudienceMatchModeAny k,
     cfi_AllowedScopes = scopes\<rparr>"

definition fi_update_request ::
    "iam_consts \<Rightarrow> string \<Rightarrow> string \<Rightarrow> string list \<Rightarrow> string list \<Rightarrow> smap \<Rightarrow>
     UpdateFederatedIdentityRequest" where
  "fi_update_request k fiName subject scopes audiences labels = \<lparr>
     ufi_Name = fiName,
     ufi_Description = fi_description subject,
     ufi_Labels = labels,
     ufi_Annotations = fmap_of_list [(AnnotationProviderSubject, subject)],
     ufi_TrustedAudiences = audiences,
     ufi_AudienceMatchMode = AudienceMatchModeAny k,
     ufi_AllowedScopes = scopes\<rparr>"

definition role_binding_request :: "ServiceAccount \<Rightarrow> string \<Rightarrow> smap \<Rightarrow> CreateBindingRequest" where
  "role_binding_request sa key labels = \<lparr>
     cb_Name = truncate_to 63 (''wif-k8s-'' @ key),
     cb_Description = ''WIF binding for Thalassa SA '' @ sa_Identity sa,
     cb_Labels = labels,
     cb_ServiceAccountIdentity = Some (sa_Identity sa)\<rparr>"

definition policy_binding_request :: "ServiceAccount \<Rightarrow> string \<Rightarrow> smap \<Rightarrow> CreateBindingRequest" where
  "policy_binding_request sa key labels = \<lparr>
     cb_Name = truncate_to 63 (''wif-k8s-'' @ key),
     cb_Description = ''WIF policy binding for Thalassa SA '' @ sa_Identity sa,
     cb_Labels = labels,
     cb_ServiceAccountIdentity = Some (sa_Identity sa)\<rparr>"

definition ensureServiceAccount ::
    "'w iam_client \<Rightarrow> string \<Rightarrow> string \<Rightarrow> string \<Rightarrow> string \<Rightarrow> smap \<Rightarrow> (ServiceAccount option, 'w) prog" where
  "ensureServiceAccount c name subject ns k8sSA labels =
     bindE (findByLabelsSA c labels) (\<lambda>existing.
       case existing of
         Some s \<Rightarrow> okE (Some s)
       | None \<Rightarrow> call (CreateServiceAccount c (sa_create_request name subject ns k8sSA labels)))"

definition ensureFederatedIdentity ::
    "'w iam_client \<Rightarrow> FederatedIdentityProvider \<Rightarrow> ServiceAccount option \<Rightarrow> string \<Rightarrow> string \<Rightarrow>
     string list \<Rightarrow> string list \<Rightarrow> smap \<Rightarrow> (FederatedIdentity option, 'w) prog" where
  "ensureFederatedIdentity c provider sa fiName subject scopes audiences labels =
     bindE (findByLabelsFI c labels) (\<lambda>existing.
       case existing of
         None \<Rightarrow>
           bindE (derefE sa) (\<lambda>s.
             call (CreateFederatedIdentity c
               (fi_create_request (ic_consts c) provider s fiName subject scopes audiences labels)))
       | Some f \<Rightarrow>
           if \<not> fiNeedsUpdate (ic_consts c) f fiName (fi_description subject) subject scopes
                  audiences labels
           then okE (Some f)
           else call (UpdateFederatedIdentity c (fi_Identity f)
             (fi_update_request (ic_consts c) fiName subject scopes audiences labels)))"

definition ensureRoleBinding ::
    "'w iam_client \<Rightarrow> OrganisationRole \<Rightarrow> ServiceAccount \<Rightarrow> string \<Rightarrow> smap \<Rightarrow> (unit, 'w) prog" where
  "ensureRoleBinding c role sa key labels =
     bindE (hasRoleBindingForSA c (role_Identity role) (sa_Identity sa)) (\<lambda>ok.
       if ok then okE ()
       else bindE (call (CreateRoleBinding c (role_Identity role)
              (role_binding_request sa key labels))) (\<lambda>_. okE ()))"

definition ensurePolicyBinding ::
    "'w iam_client \<Rightarrow> IamPolicy \<Rightarrow> ServiceAccount \<Rightarrow> string \<Rightarrow> smap \<Rightarrow> (unit, 'w) prog" where
  "ensurePolicyBinding c policy sa key labels =
     bindE (hasPolicyBindingForSA c (policy_Identity policy) (sa_Identity sa)) (\<lambda>ok.
       if ok then okE ()
       else bindE (call (CreateIamPolicyBinding c (policy_Identity policy)
              (policy_binding_request sa key labels))) (\<lambda>_. okE ()))"

section \<open>Ensuring a workload identity\<close>

definition validateEnsureInput :: "EnsureInput \<Rightarrow> error option" where
  "validateEnsureInput inp =
     (if TrimSpace (in_Namespace inp) = [] \<or> TrimSpace (in_ServiceAccount inp) = []
      then Some (ErrMsg ''kubernetes namespace and service account are required'')
      else
        (let role = TrimSpace (in_RoleRef inp); policy = TrimSpace (in_PolicyRef inp) in
         if role = [] \<and> policy = []
           then Some (ErrMsg ''at least one of policy or role is required'')
         else if role = ''*'' \<or> policy = ''*''
           then Some (ErrMsg ''wildcard policy/role is not allowed'')
         else if TrimSpace (in_ClusterIdentity inp) = []
           then Some (ErrMsg ''cluster identity is required'')
         else if length (in_TrustedAudiences inp) = 0
           then Some (ErrMsg ''trusted audiences are required'')
         else if length (in_Scopes inp) = 0 then Some (ErrMsg ''scopes are required'')
         else None))"

text \<open>The policy and the role step of \<^verbatim>\<open>EnsureWorkloadIdentity\<close>.\<close>

definition ensurePolicyStep ::
    "'w iam_client \<Rightarrow> EnsureInput \<Rightarrow> ServiceAccount \<Rightarrow> string \<Rightarrow> smap \<Rightarrow> EnsureResult \<Rightarrow>
     (EnsureResult, 'w) prog" where
  "ensurePolicyStep c inp sa key labels result =
     (let policyRef = TrimSpace (in_PolicyRef inp) in
      if policyRef \<noteq> [] then
        bindE (resolveIamPolicy c policyRef) (\<lambda>policy.
        bindE (checkE (CheckRefAllowlist ''policy'' policyRef (in_AllowedPolicies inp)
                 [policy_Identity policy, policy_Slug policy, policy_Name policy])) (\<lambda>_.
        bindE (ensurePolicyBinding c policy sa key labels) (\<lambda>_.
        okE (result\<lparr>res_PolicyID := policy_Identity policy\<rparr>))))
      else okE result)"

definition ensureRoleStep ::
    "'w iam_client \<Rightarrow> EnsureInput \<Rightarrow> ServiceAccount \<Rightarrow> string \<Rightarrow> smap \<Rightarrow> (unit, 'w) prog" where
  "ensureRoleStep c inp sa key labels =
     (let roleRef = TrimSpace (in_RoleRef inp) in
      if roleRef \<noteq> [] then
        bindE (resolveOrganisationRole c roleRef) (\<lambda>role.
        bindE (checkE (CheckRefAllowlist ''role'' roleRef (in_AllowedRoles inp)
                 [role_Identity role, role_Slug role, role_Name role])) (\<lambda>_.
        ensureRoleBinding c role sa key labels))
      else okE ())"

definition EnsureWorkloadIdentity ::
    "'w iam_client \<Rightarrow> EnsureInput \<Rightarrow> (EnsureResult, 'w) prog" where
  "EnsureWorkloadIdentity c inp =
     bindE (checkE (validateEnsureInput inp)) (\<lambda>_.
     bindE (FindProviderByClusterID c (in_ClusterIdentity inp)) (\<lambda>provider.
     let issuer = NormalizeIssuer (idp_ProviderIssuer provider) in
     if issuer = [] then
       failE (ErrMsg (''federated identity provider '' @ idp_Identity provider @
         '' has an empty issuer''))
     else
     (case BuildKubernetesSubject (in_Namespace inp) (in_ServiceAccount inp) of
        Inl e \<Rightarrow> failE e
      | Inr subject \<Rightarrow>
     let key = ResourceKey (in_Namespace inp) (in_ServiceAccount inp) subject issuer;
         names = DefaultResourceNames key (in_NameOverride inp);
         labels = OwnershipLabels key (in_Namespace inp) (in_ServiceAccount inp) in
     bindE (ensureServiceAccount c (fst names) subject (in_Namespace inp) (in_ServiceAccount inp)
              labels) (\<lambda>sa.
     bindE (ensureFederatedIdentity c provider sa (snd names) subject (in_Scopes inp)
              (in_TrustedAudiences inp) labels) (\<lambda>fi.
     bindE (derefE sa) (\<lambda>sa.
     bindE (derefE fi) (\<lambda>fi.
     bindE (ensurePolicyStep c inp sa key labels \<lparr>
         res_ProviderID = idp_Identity provider,
         res_ServiceAccountID = sa_Identity sa,
         res_FederatedIdentityID = fi_Identity fi,
         res_PolicyID = [],
         res_Issuer = issuer,
         res_Subject = subject,
         res_Key = key\<rparr>) (\<lambda>result.
     bindE (ensureRoleStep c inp sa key labels) (\<lambda>_.
     okE result))))))))) "

section \<open>Deleting a workload identity\<close>

definition managed_labels :: smap where
  "managed_labels = fmap_of_list [(LabelManagedBy, ValueManagedBy)]"

text \<open>The loop of \<^verbatim>\<open>deleteRoleBindingForSA\<close> and \<^verbatim>\<open>deletePolicyBindingForSA\<close>.\<close>

fun delete_loop ::
    "(string \<Rightarrow> (unit, 'w) prog) \<Rightarrow> string \<Rightarrow> iam_binding list \<Rightarrow> (unit, 'w) prog" where
  "delete_loop del saIdentity [] = okE ()"
| "delete_loop del saIdentity (b # bs) =
     (if binds_sa saIdentity b then
        (if LabelsMatch (b_Labels b) managed_labels
         then bindE (del (b_Identity b)) (\<lambda>_. delete_loop del saIdentity bs)
         else delete_loop del saIdentity bs)
      else delete_loop del saIdentity bs)"

definition deleteRoleBindingForSA :: "'w iam_client \<Rightarrow> string \<Rightarrow> string \<Rightarrow> (unit, 'w) prog" where
  "deleteRoleBindingForSA c roleIdentity saIdentity =
     bindE (wrapE ''list role bindings'' (call (ListRoleBindings c roleIdentity))) (\<lambda>bindings.
       delete_loop (\<lambda>i. wrapE ''delete role binding'' (call (DeleteRoleBinding c roleIdentity i)))
         saIdentity bindings)"

definition deletePolicyBindingForSA :: "'w iam_client \<Rightarrow> string \<Rightarrow> string \<Rightarrow> (unit, 'w) prog" where
  "deletePolicyBindingForSA c policyIdentity saIdentity =
     bindE (wrapE ''list iam policy bindings'' (call (ListIamPolicyBindings c policyIdentity)))
       (\<lambda>bindings.
         delete_loop
           (\<lambda>i. wrapE ''delete iam policy binding'' (call (DeleteIamPolicyBinding c policyIdentity i)))
           saIdentity bindings)"

text \<open>
  The binding steps: a reference that cannot be resolved any more is skipped. The four
  steps of \<^verbatim>\<open>DeleteWorkloadIdentity\<close> after computing the labels are in the code's order.
\<close>

definition deletePolicyStep :: "'w iam_client \<Rightarrow> string \<Rightarrow> ServiceAccount option \<Rightarrow> (unit, 'w) prog" where
  "deletePolicyStep c policyRef sa =
     (case sa of
        None \<Rightarrow> okE ()
      | Some s \<Rightarrow>
          if TrimSpace policyRef \<noteq> [] then
            tryE (resolveIamPolicy c policyRef) (\<lambda>r.
              case r of
                Inr policy \<Rightarrow> deletePolicyBindingForSA c (policy_Identity policy) (sa_Identity s)
              | Inl _ \<Rightarrow> okE ())
          else okE ())"

definition deleteRoleStep :: "'w iam_client \<Rightarrow> string \<Rightarrow> ServiceAccount option \<Rightarrow> (unit, 'w) prog" where
  "deleteRoleStep c roleRef sa =
     (case sa of
        None \<Rightarrow> okE ()
      | Some s \<Rightarrow>
          if TrimSpace roleRef \<noteq> [] then
            tryE (resolveOrganisationRole c roleRef) (\<lambda>r.
              case r of
                Inr role \<Rightarrow> deleteRoleBindingForSA c (role_Identity role) (sa_Identity s)
              | Inl _ \<Rightarrow> okE ())
          else okE ())"

definition DeleteWorkloadIdentity ::
    "'w iam_client \<Rightarrow> string \<Rightarrow> string \<Rightarrow> string \<Rightarrow> string \<Rightarrow> string \<Rightarrow> (unit, 'w) prog" where
  "DeleteWorkloadIdentity c namespace saName issuer roleRef policyRef =
     (case BuildKubernetesSubject namespace saName of
        Inl e \<Rightarrow> failE e
      | Inr subject \<Rightarrow>
     let key = ResourceKey namespace saName subject issuer;
         want = OwnershipLabels key namespace saName in
     bindE (findByLabelsFI c want) (\<lambda>fi.
     bindE (case fi of
              None \<Rightarrow> okE ()
            | Some f \<Rightarrow>
                wrapE ''delete federated identity'' (call (DeleteFederatedIdentity c (fi_Identity f))))
       (\<lambda>_.
     bindE (findByLabelsSA c want) (\<lambda>sa.
     bindE (deletePolicyStep c policyRef sa) (\<lambda>_.
     bindE (deleteRoleStep c roleRef sa) (\<lambda>_.
     (case sa of
        None \<Rightarrow> okE ()
      | Some s \<Rightarrow>
          wrapE ''delete service account'' (call (DeleteServiceAccount c (sa_Identity s))))))))))"

section \<open>Facts about the lookups\<close>

lemma provider_loop_eq:
  "provider_loop want ps n found =
     (n + length (filter (\<lambda>p. LabelsMatch (idp_Labels p) want) ps),
      if filter (\<lambda>p. LabelsMatch (idp_Labels p) want) ps = [] then found
      else Some (last (filter (\<lambda>p. LabelsMatch (idp_Labels p) want) ps)))"
  by (induction ps arbitrary: n found) auto

definition matching_providers ::
    "string \<Rightarrow> FederatedIdentityProvider list \<Rightarrow> FederatedIdentityProvider list" where
  "matching_providers cluster ps =
     filter (\<lambda>p. get (idp_Labels p) LabelKubernetesClusterID = cluster) ps"

lemma FindProvider_run:
  assumes "TrimSpace cluster \<noteq> []"
    and "ListFederatedIdentityProviders c (fmap_of_list [(LabelKubernetesClusterID, TrimSpace cluster)]) w
      = (Inr ps, w')"
  shows "FindProviderByClusterID c cluster w =
    (case matching_providers (TrimSpace cluster) ps of
       [] \<Rightarrow> (Err (ErrProviderNotReady (TrimSpace cluster)), w')
     | [p] \<Rightarrow> (Ok p, w')
     | _ \<Rightarrow> (Err (ErrMsg (''multiple federated identity providers match label '' @
                LabelKubernetesClusterID @ ''='' @ TrimSpace cluster)), w'))"
proof -
  let ?m = "filter (\<lambda>p. LabelsMatch (idp_Labels p)
      (fmap_of_list [(LabelKubernetesClusterID, TrimSpace cluster)])) ps"
  have "?m = matching_providers (TrimSpace cluster) ps"
    by (simp add: matching_providers_def)
  then show ?thesis
    using assms
    by (cases ?m rule: list.exhaust [case_product list.exhaust])
      (auto simp: FindProviderByClusterID_def provider_loop_eq prog_simps Let_def split: list.splits)
qed

lemma FindProvider_ok:
  "FindProviderByClusterID c cluster w = (Ok p, w') \<longleftrightarrow>
     TrimSpace cluster \<noteq> [] \<and>
     (\<exists>ps. ListFederatedIdentityProviders c
             (fmap_of_list [(LabelKubernetesClusterID, TrimSpace cluster)]) w = (Inr ps, w') \<and>
           matching_providers (TrimSpace cluster) ps = [p])"
proof (cases "TrimSpace cluster = []")
  case True
  then show ?thesis by (simp add: FindProviderByClusterID_def prog_ok)
next
  case False
  obtain r v where run: "ListFederatedIdentityProviders c
      (fmap_of_list [(LabelKubernetesClusterID, TrimSpace cluster)]) w = (r, v)"
    by fastforce
  show ?thesis
  proof (cases r)
    case (Inl e)
    with False run show ?thesis
      by (simp add: FindProviderByClusterID_def Let_def prog_ok)
  next
    case (Inr ps)
    with False run show ?thesis
      by (simp add: FindProvider_run split: list.splits) auto
  qed
qed

lemma total_FindProvider [total_intros]: "total_prog (FindProviderByClusterID c cluster)"
  unfolding total_prog_def
proof
  fix w
  obtain r v where run: "ListFederatedIdentityProviders c
      (fmap_of_list [(LabelKubernetesClusterID, TrimSpace cluster)]) w = (r, v)"
    by fastforce
  show "fst (FindProviderByClusterID c cluster w) \<noteq> Panic"
  proof (cases "TrimSpace cluster = []")
    case True
    then show ?thesis by (simp add: FindProviderByClusterID_def prog_simps)
  next
    case False
    show ?thesis
    proof (cases r)
      case (Inl e)
      with False run show ?thesis
        by (simp add: FindProviderByClusterID_def Let_def prog_simps)
    next
      case (Inr ps)
      with False run show ?thesis
        by (simp add: FindProvider_run split: list.splits)
    qed
  qed
qed

text \<open>The two phases of the policy loop.\<close>

lemma policy_loop_eq:
  "policy_loop ref ps acc =
     (case find (\<lambda>p. EqualFold (policy_Identity p) ref) ps of
        Some p \<Rightarrow> Some p
      | None \<Rightarrow>
          (case acc of
             Some p \<Rightarrow> Some p
           | None \<Rightarrow> find (\<lambda>p. EqualFold (policy_Slug p) ref \<or> EqualFold (policy_Name p) ref) ps))"
  by (induction ps arbitrary: acc) (auto split: option.splits)

definition policy_named :: "string \<Rightarrow> IamPolicy \<Rightarrow> bool" where
  "policy_named ref p \<longleftrightarrow>
     EqualFold (policy_Identity p) ref \<or> EqualFold (policy_Slug p) ref \<or> EqualFold (policy_Name p) ref"

lemma policy_loop_Some:
  assumes "policy_loop ref ps None = Some p"
  shows "p \<in> set ps \<and> policy_named ref p"
  using assms
  by (auto simp: policy_loop_eq policy_named_def find_Some_iff split: option.splits)

lemma resolveIamPolicy_ok:
  assumes "resolveIamPolicy c ref w = (Ok p, w')"
  shows "TrimSpace ref \<noteq> [] \<and>
    ((GetIamPolicy c (TrimSpace ref) w = (Inr (Some p), w') \<and> TrimSpace (policy_Identity p) \<noteq> []) \<or>
     (\<exists>v ps. ListIamPolicies c v = (Inr ps, w') \<and> p \<in> set ps \<and> policy_named (TrimSpace ref) p))"
proof -
  let ?ref = "TrimSpace ref"
  let ?pick = "\<lambda>ps. case policy_loop ?ref ps None of Some p \<Rightarrow> okE p
      | None \<Rightarrow> failE (ErrMsg (''iam policy not found: '' @ ?ref))"
  let ?listed = "bindE (wrapE ''list iam policies'' (call (ListIamPolicies c))) ?pick"
  have listed: "\<exists>v ps. ListIamPolicies c v = (Inr ps, w') \<and> p \<in> set ps \<and> policy_named ?ref p"
    if "?listed v = (Ok p, w')" for v
  proof -
    from that obtain ps u where ps: "ListIamPolicies c v = (Inr ps, u)"
      and pick: "?pick ps u = (Ok p, w')"
      by (auto simp: prog_ok)
    from pick have "policy_loop ?ref ps None = Some p" "w' = u"
      by (auto simp: prog_ok split: option.splits)
    with ps policy_loop_Some show ?thesis by blast
  qed
  have ne: "?ref \<noteq> []" using assms by (auto simp: resolveIamPolicy_def prog_ok)
  obtain r v where get: "GetIamPolicy c ?ref w = (r, v)" by fastforce
  consider (hit) q where "r = Inr (Some q)" "TrimSpace (policy_Identity q) \<noteq> []"
    | (miss) "\<not> (\<exists>q. r = Inr (Some q) \<and> TrimSpace (policy_Identity q) \<noteq> [])" by blast
  then show ?thesis
  proof cases
    case hit
    with assms ne get show ?thesis
      by (auto simp: resolveIamPolicy_def Let_def tryE_def call_def okE_def)
  next
    case miss
    with assms ne get have "?listed v = (Ok p, w')"
      by (auto simp: resolveIamPolicy_def Let_def tryE_def call_def split: sum.splits option.splits if_splits)
    from listed [OF this] ne show ?thesis by blast
  qed
qed

definition role_named :: "string \<Rightarrow> OrganisationRole \<Rightarrow> bool" where
  "role_named ref r \<longleftrightarrow>
     EqualFold (role_Identity r) ref \<or> EqualFold (role_Slug r) ref \<or> EqualFold (role_Name r) ref"

lemma scopesEqual_mset: "scopesEqual a b \<longleftrightarrow> mset a = mset b"
  unfolding scopesEqual_def by (metis mset_sort properties_for_sort sorted_sort)

lemma audiencesEqual_mset: "audiencesEqual a b \<longleftrightarrow> mset a = mset b"
  unfolding audiencesEqual_def by (metis mset_sort properties_for_sort sorted_sort)

lemma fiNeedsUpdate_False:
  "\<not> fiNeedsUpdate k f name desc subject scopes audiences labels \<longleftrightarrow>
     mset (fi_AllowedScopes f) = mset scopes \<and> mset (fi_TrustedAudiences f) = mset audiences \<and>
     fi_AudienceMatchMode f \<in> {[], AudienceMatchModeAny k} \<and> fi_Name f = name \<and>
     fi_Description f = desc \<and> LabelsMatch (fi_Labels f) labels \<and>
     get (fi_Annotations f) AnnotationProviderSubject = subject \<and> fi_ProviderSubject f = subject"
  by (auto simp: fiNeedsUpdate_def Let_def scopesEqual_mset audiencesEqual_mset)

section \<open>Absence of panics\<close>

lemma total_findByLabels [total_intros]:
  "total_prog (findByLabelsSA c want)" "total_prog (findByLabelsFI c want)"
  unfolding findByLabelsSA_def findByLabelsFI_def
  by (rule total_bindE_all, rule total_call, rule total_okE)+

lemma total_resolveOrganisationRole [total_intros]: "total_prog (resolveOrganisationRole c ref)"
  unfolding resolveOrganisationRole_def Let_def
  by (intro total_tryE total_call)
    (auto intro!: total_bindE_all total_wrapE total_call total_okE total_failE
      split: sum.splits option.splits)

lemma total_resolveIamPolicy [total_intros]: "total_prog (resolveIamPolicy c ref)"
  unfolding resolveIamPolicy_def Let_def
  by (auto intro!: total_tryE total_bindE_all total_wrapE total_call total_okE total_failE
      split: sum.splits option.splits if_splits)

lemma total_hasBinding [total_intros]:
  "total_prog (hasRoleBindingForSA c i k)" "total_prog (hasPolicyBindingForSA c i k)"
  unfolding hasRoleBindingForSA_def hasPolicyBindingForSA_def
  by (rule total_bindE_all, rule total_call, rule total_okE)+

lemma total_ensureBinding [total_intros]:
  "total_prog (ensureRoleBinding c role sa key labels)"
  "total_prog (ensurePolicyBinding c policy sa key labels)"
  unfolding ensureRoleBinding_def ensurePolicyBinding_def
  by (auto intro!: total_bindE_all total_hasBinding total_call total_okE)

lemma total_steps [total_intros]:
  "total_prog (ensurePolicyStep c inp sa key labels res)"
  "total_prog (ensureRoleStep c inp sa key labels)"
  unfolding ensurePolicyStep_def ensureRoleStep_def Let_def
  by (auto intro!: total_bindE_all total_checkE total_ensureBinding total_resolveIamPolicy
      total_resolveOrganisationRole total_okE)

lemma total_delete_loop [total_intros]:
  assumes "\<And>i. total_prog (del i)"
  shows "total_prog (delete_loop del k bs)"
  using assms by (induction bs) (auto intro: total_okE total_bindE_all)

lemma total_DeleteWorkloadIdentity [total_intros]:
  "total_prog (DeleteWorkloadIdentity c ns sa iss roleRef policyRef)"
  unfolding DeleteWorkloadIdentity_def deletePolicyStep_def deleteRoleStep_def
    deleteRoleBindingForSA_def deletePolicyBindingForSA_def Let_def
  by (auto intro!: total_bindE_all total_findByLabels total_wrapE total_call total_okE total_failE
      total_tryE total_resolveIamPolicy total_resolveOrganisationRole total_delete_loop
      split: sum.splits option.splits)

text \<open>
  \<^verbatim>\<open>EnsureWorkloadIdentity\<close> dereferences what it created or updated; with a client that
  returns a resource or an error it never hits a nil pointer.
\<close>

lemma never_nilD:
  assumes "never_nil c"
  shows "CreateServiceAccount c q w \<noteq> (Inr None, w')"
    and "CreateFederatedIdentity c fq w \<noteq> (Inr None, w')"
    and "UpdateFederatedIdentity c i uq w \<noteq> (Inr None, w')"
proof -
  note nn = assms [unfolded never_nil_def]
  from nn have "fst (CreateServiceAccount c q w) \<noteq> Inr None" by blast
  then show "CreateServiceAccount c q w \<noteq> (Inr None, w')" by auto
  from nn have "fst (CreateFederatedIdentity c fq w) \<noteq> Inr None" by blast
  then show "CreateFederatedIdentity c fq w \<noteq> (Inr None, w')" by auto
  from nn have "fst (UpdateFederatedIdentity c i uq w) \<noteq> Inr None" by blast
  then show "UpdateFederatedIdentity c i uq w \<noteq> (Inr None, w')" by auto
qed

lemma ensureServiceAccount_some:
  assumes "never_nil c" and "ensureServiceAccount c n sub ns k labels w = (Ok s, w')"
  shows "s \<noteq> None"
proof
  assume "s = None"
  with assms(2) never_nilD(1) [OF assms(1)] show False
    by (auto simp: ensureServiceAccount_def prog_ok split: option.splits)
qed

lemma ensureFederatedIdentity_some:
  assumes "never_nil c"
    and "ensureFederatedIdentity c p sa n sub scopes auds labels w = (Ok f, w')"
  shows "f \<noteq> None"
proof
  assume "f = None"
  with assms(2) never_nilD(2,3) [OF assms(1)] show False
    by (auto simp: ensureFederatedIdentity_def prog_ok split: option.splits if_splits)
qed

lemma total_ensureServiceAccount [total_intros]:
  "total_prog (ensureServiceAccount c n sub ns k labels)"
  unfolding ensureServiceAccount_def Let_def
  by (auto intro!: total_bindE_all total_findByLabels total_call total_okE split: option.splits)

lemma total_derefE_Some [total_intros]: "p \<noteq> None \<Longrightarrow> total_prog (derefE p)"
  by (auto simp: derefE_def intro: total_okE)

lemma total_ensureFederatedIdentity [total_intros]:
  "sa \<noteq> None \<Longrightarrow> total_prog (ensureFederatedIdentity c p sa n sub scopes auds labels)"
  unfolding ensureFederatedIdentity_def Let_def
  by (auto intro!: total_bindE_all total_findByLabels total_call total_okE total_derefE_Some
      split: option.splits)

lemma total_EnsureWorkloadIdentity:
  assumes nn: "never_nil c"
  shows "total_prog (EnsureWorkloadIdentity c inp)"
  unfolding EnsureWorkloadIdentity_def Let_def
  by (auto intro!: total_bindE_all [OF total_checkE] total_bindE_all [OF total_FindProvider]
      total_bindE [OF total_ensureServiceAccount] total_bindE [OF total_ensureFederatedIdentity]
      total_bindE_all [OF total_derefE_Some] total_bindE_all [OF total_steps(1)]
      total_bindE_all [OF total_steps(2)] total_okE total_failE
      dest: ensureServiceAccount_some [OF nn] ensureFederatedIdentity_some [OF nn]
      split: sum.splits)

end
