(* ===== verification/EnsureTrace.thy ===== *)
theory EnsureTrace
  imports Ensure
begin

text \<open>
  What \<^verbatim>\<open>internal/wif/ensure.go\<close> may do to the IAM API, whatever the API answers: which
  calls ensuring makes, which bindings it creates, and what deleting is allowed to remove.
  All facts are about the trace of an instrumented client, over an arbitrary embedding of
  its events into a larger trace.
\<close>

section \<open>The events of each function\<close>

lemma emits_findByLabels [emits_intros]:
  "(\<And>r. P (emb (EvListSAs want r))) \<Longrightarrow> emits P (findByLabelsSA (logged emb c) want)"
  "(\<And>r. P (emb (EvListFIs want r))) \<Longrightarrow> emits P (findByLabelsFI (logged emb c) want)"
  unfolding findByLabelsSA_def findByLabelsFI_def
  by (auto intro!: emits_intros emits_call)

lemma emits_FindProvider [emits_intros]:
  "(\<And>l r. P (emb (EvListProviders l r))) \<Longrightarrow>
   emits P (FindProviderByClusterID (logged emb c) cluster)"
  unfolding FindProviderByClusterID_def Let_def
  by (auto intro!: emits_intros emits_call split: prod.splits)

lemma emits_resolveIamPolicy [emits_intros]:
  "(\<And>i r. P (emb (EvGetPolicy i r))) \<Longrightarrow> (\<And>r. P (emb (EvListPolicies r))) \<Longrightarrow>
   emits P (resolveIamPolicy (logged emb c) ref)"
  unfolding resolveIamPolicy_def Let_def
  by (auto intro!: emits_intros emits_call split: option.splits sum.splits)

lemma emits_resolveOrganisationRole [emits_intros]:
  "(\<And>i r. P (emb (EvGetRole i r))) \<Longrightarrow> (\<And>r. P (emb (EvListRoles r))) \<Longrightarrow>
   emits P (resolveOrganisationRole (logged emb c) ref)"
  unfolding resolveOrganisationRole_def Let_def
  by (auto intro!: emits_intros emits_call split: option.splits sum.splits)

lemma emits_ensureServiceAccount [emits_intros]:
  "(\<And>l r. P (emb (EvListSAs l r))) \<Longrightarrow>
   (\<And>r. P (emb (EvCreateSA (sa_create_request n sub ns k labels) r))) \<Longrightarrow>
   emits P (ensureServiceAccount (logged emb c) n sub ns k labels)"
  unfolding ensureServiceAccount_def
  by (auto intro!: emits_intros emits_call split: option.splits)

lemma emits_ensureFederatedIdentity [emits_intros]:
  "(\<And>l r. P (emb (EvListFIs l r))) \<Longrightarrow>
   (\<And>s r. P (emb (EvCreateFI (fi_create_request (ic_consts c) p s n sub scopes auds labels) r))) \<Longrightarrow>
   (\<And>i r. P (emb (EvUpdateFI i (fi_update_request (ic_consts c) n sub scopes auds labels) r))) \<Longrightarrow>
   emits P (ensureFederatedIdentity (logged emb c) p sa n sub scopes auds labels)"
  unfolding ensureFederatedIdentity_def
  by (auto intro!: emits_intros emits_call split: option.splits)

lemma emits_ensureRoleBinding [emits_intros]:
  "(\<And>i r. P (emb (EvListRBs i r))) \<Longrightarrow>
   (\<And>r. P (emb (EvCreateRB (role_Identity role) (role_binding_request sa key labels) r))) \<Longrightarrow>
   emits P (ensureRoleBinding (logged emb c) role sa key labels)"
  unfolding ensureRoleBinding_def hasRoleBindingForSA_def
  by (auto intro!: emits_intros emits_call)

lemma emits_ensurePolicyBinding [emits_intros]:
  "(\<And>i r. P (emb (EvListPBs i r))) \<Longrightarrow>
   (\<And>r. P (emb (EvCreatePB (policy_Identity pol) (policy_binding_request sa key labels) r))) \<Longrightarrow>
   emits P (ensurePolicyBinding (logged emb c) pol sa key labels)"
  unfolding ensurePolicyBinding_def hasPolicyBindingForSA_def
  by (auto intro!: emits_intros emits_call)

lemma emits_ensurePolicyStep [emits_intros]:
  "(\<And>i r. P (emb (EvGetPolicy i r))) \<Longrightarrow> (\<And>r. P (emb (EvListPolicies r))) \<Longrightarrow>
   (\<And>i r. P (emb (EvListPBs i r))) \<Longrightarrow>
   (\<And>i r. P (emb (EvCreatePB i (policy_binding_request sa key labels) r))) \<Longrightarrow>
   emits P (ensurePolicyStep (logged emb c) inp sa key labels res)"
  unfolding ensurePolicyStep_def Let_def by (auto intro!: emits_intros)

lemma emits_ensureRoleStep [emits_intros]:
  "(\<And>i r. P (emb (EvGetRole i r))) \<Longrightarrow> (\<And>r. P (emb (EvListRoles r))) \<Longrightarrow>
   (\<And>i r. P (emb (EvListRBs i r))) \<Longrightarrow>
   (\<And>i r. P (emb (EvCreateRB i (role_binding_request sa key labels) r))) \<Longrightarrow>
   emits P (ensureRoleStep (logged emb c) inp sa key labels)"
  unfolding ensureRoleStep_def Let_def by (auto intro!: emits_intros)

section \<open>What ensuring writes\<close>

text \<open>
  The writes \<^verbatim>\<open>EnsureWorkloadIdentity\<close> may make for an input: resources that carry the
  ownership labels of this very workload under some issuer, a federated identity with the
  workload's subject, scopes and audiences, and bindings of a service account. It never
  deletes.
\<close>

definition owned_labels :: "EnsureInput \<Rightarrow> string \<Rightarrow> string \<Rightarrow> smap" where
  "owned_labels inp subject issuer =
     OwnershipLabels (ResourceKey (in_Namespace inp) (in_ServiceAccount inp) subject issuer)
       (in_Namespace inp) (in_ServiceAccount inp)"

fun ensure_write :: "EnsureInput \<Rightarrow> string \<Rightarrow> smap \<Rightarrow> iam_event \<Rightarrow> bool" where
  "ensure_write inp subject labels (EvCreateSA q r) \<longleftrightarrow> csa_Labels q = labels"
| "ensure_write inp subject labels (EvCreateFI q r) \<longleftrightarrow>
     cfi_Labels q = labels \<and> cfi_ProviderSubject q = subject \<and>
     cfi_AllowedScopes q = in_Scopes inp \<and> cfi_TrustedAudiences q = in_TrustedAudiences inp"
| "ensure_write inp subject labels (EvUpdateFI i q r) \<longleftrightarrow>
     ufi_Labels q = labels \<and>
     ufi_AllowedScopes q = in_Scopes inp \<and> ufi_TrustedAudiences q = in_TrustedAudiences inp"
| "ensure_write inp subject labels (EvCreateRB i q r) \<longleftrightarrow>
     cb_Labels q = labels \<and> cb_ServiceAccountIdentity q \<noteq> None"
| "ensure_write inp subject labels (EvCreatePB i q r) \<longleftrightarrow>
     cb_Labels q = labels \<and> cb_ServiceAccountIdentity q \<noteq> None"
| "ensure_write inp subject labels _ \<longleftrightarrow> True"

definition ensure_event :: "EnsureInput \<Rightarrow> iam_event \<Rightarrow> bool" where
  "ensure_event inp x \<longleftrightarrow>
     \<not> deletes x \<and>
     (creates x \<longrightarrow>
       (\<exists>subject issuer.
          BuildKubernetesSubject (in_Namespace inp) (in_ServiceAccount inp) = Inr subject \<and>
          ensure_write inp subject (owned_labels inp subject issuer) x))"

lemma requests_sel [simp]:
  "csa_Labels (sa_create_request n sub ns k labels) = labels"
  "cfi_Labels (fi_create_request kc p s n sub scopes auds labels) = labels"
  "cfi_Name (fi_create_request kc p s n sub scopes auds labels) = n"
  "cfi_Description (fi_create_request kc p s n sub scopes auds labels) = fi_description sub"
  "get (cfi_Annotations (fi_create_request kc p s n sub scopes auds labels)) AnnotationProviderSubject = sub"
  "cfi_ProviderSubject (fi_create_request kc p s n sub scopes auds labels) = sub"
  "cfi_AllowedScopes (fi_create_request kc p s n sub scopes auds labels) = scopes"
  "cfi_TrustedAudiences (fi_create_request kc p s n sub scopes auds labels) = auds"
  "cfi_AudienceMatchMode (fi_create_request kc p s n sub scopes auds labels) = AudienceMatchModeAny kc"
  "ufi_Labels (fi_update_request kc n sub scopes auds labels) = labels"
  "ufi_Name (fi_update_request kc n sub scopes auds labels) = n"
  "ufi_Description (fi_update_request kc n sub scopes auds labels) = fi_description sub"
  "get (ufi_Annotations (fi_update_request kc n sub scopes auds labels)) AnnotationProviderSubject = sub"
  "ufi_AllowedScopes (fi_update_request kc n sub scopes auds labels) = scopes"
  "ufi_TrustedAudiences (fi_update_request kc n sub scopes auds labels) = auds"
  "ufi_AudienceMatchMode (fi_update_request kc n sub scopes auds labels) = AudienceMatchModeAny kc"
  "cb_Labels (role_binding_request sa key labels) = labels"
  "cb_Labels (policy_binding_request sa key labels) = labels"
  "cb_ServiceAccountIdentity (role_binding_request sa key labels) = Some (sa_Identity sa)"
  "cb_ServiceAccountIdentity (policy_binding_request sa key labels) = Some (sa_Identity sa)"
  by (simp_all add: sa_create_request_def fi_create_request_def fi_update_request_def
      role_binding_request_def policy_binding_request_def Let_def)

lemma ensure_event_write:
  assumes "BuildKubernetesSubject (in_Namespace inp) (in_ServiceAccount inp) = Inr subject"
    and "ensure_write inp subject
       (OwnershipLabels (ResourceKey (in_Namespace inp) (in_ServiceAccount inp) subject issuer)
          (in_Namespace inp) (in_ServiceAccount inp)) x"
    and "\<not> deletes x"
  shows "\<exists>y. emb x = emb y \<and> ensure_event inp y"
  using assms unfolding ensure_event_def owned_labels_def by blast

lemma ensure_event_read: "\<not> mutates x \<Longrightarrow> \<exists>y. emb x = emb y \<and> ensure_event inp y"
  unfolding ensure_event_def mutates_def by blast

lemma emits_EnsureWorkloadIdentity:
  "emits (\<lambda>e. \<exists>x. e = emb x \<and> ensure_event inp x) (EnsureWorkloadIdentity (logged emb c) inp)"
  unfolding EnsureWorkloadIdentity_def Let_def
  by (auto intro!: emits_intros split: sum.splits)
    (((rule ensure_event_write, assumption, simp, simp) |
      (rule ensure_event_read, simp add: mutates_def))+)

section \<open>Bindings are for allowed references only\<close>

definition policy_seen :: "(iam_event \<Rightarrow> 'e) \<Rightarrow> string \<Rightarrow> IamPolicy \<Rightarrow> 'e list \<Rightarrow> bool" where
  "policy_seen emb ref p es \<longleftrightarrow>
     emb (EvGetPolicy ref (Inr (Some p))) \<in> set es \<or>
     (\<exists>ps. emb (EvListPolicies (Inr ps)) \<in> set es \<and> p \<in> set ps \<and> policy_named ref p)"

definition role_seen :: "(iam_event \<Rightarrow> 'e) \<Rightarrow> string \<Rightarrow> OrganisationRole \<Rightarrow> 'e list \<Rightarrow> bool" where
  "role_seen emb ref r es \<longleftrightarrow>
     emb (EvGetRole ref (Inr (Some r))) \<in> set es \<or>
     (\<exists>rs. emb (EvListRoles (Inr rs)) \<in> set es \<and> r \<in> set rs \<and> role_named ref r)"

lemma policy_seen_append [intro]:
  "policy_seen emb ref p es \<Longrightarrow> policy_seen emb ref p (es @ es')"
  "policy_seen emb ref p es' \<Longrightarrow> policy_seen emb ref p (es @ es')"
  by (auto simp: policy_seen_def)

lemma role_seen_append [intro]:
  "role_seen emb ref p es \<Longrightarrow> role_seen emb ref p (es @ es')"
  "role_seen emb ref p es' \<Longrightarrow> role_seen emb ref p (es @ es')"
  by (auto simp: role_seen_def)

lemma traced_list_call:
  "traced (wrapE t (call (logcall ev f))) (\<lambda>r es. \<forall>xs. r = Ok xs \<longrightarrow> es = [ev (Inr xs)])"
  by (rule traced_wrapE [OF traced_logcall]) auto

lemma traced_resolveIamPolicy:
  "traced (resolveIamPolicy (logged emb c) ref)
     (\<lambda>r es. \<forall>p. r = Ok p \<longrightarrow> policy_seen emb (TrimSpace ref) p es)"
proof -
  let ?ref = "TrimSpace ref"
  let ?pick = "\<lambda>ps. case policy_loop ?ref ps None of Some p \<Rightarrow> okE p
      | None \<Rightarrow> failE (ErrMsg (''iam policy not found: '' @ ?ref))"
  let ?Q = "\<lambda>r es. \<forall>p. r = Ok p \<longrightarrow> policy_seen emb ?ref p es"
  let ?listed = "bindE (wrapE ''list iam policies'' (call (ListIamPolicies (logged emb c)))) ?pick"
  have pick: "traced (?pick ps) (\<lambda>r es'. ?Q r ([emb (EvListPolicies (Inr ps))] @ es'))" for ps
    by (cases "policy_loop ?ref ps None")
      (auto intro!: traced_okE traced_failE simp: policy_seen_def dest: policy_loop_Some)
  have listed: "traced ?listed ?Q"
    unfolding logged_sel by (rule traced_bindE [OF traced_list_call]) (use pick in auto)
  have later: "traced ?listed (\<lambda>r es'. ?Q r (es @ es'))" for es
    by (rule traced_weaken [OF listed]) auto
  have hit: "traced (case got of
        Inr (Some q) \<Rightarrow> if TrimSpace (policy_Identity q) \<noteq> [] then okE q else ?listed
      | _ \<Rightarrow> ?listed) (\<lambda>r es'. ?Q r (es @ es'))"
    if "\<And>q. got = Inr (Some q) \<Longrightarrow> policy_seen emb ?ref q es"
    for got :: "error + IamPolicy option" and es
    by (cases got rule: sum.exhaust [case_names Inl Inr]; cases "projr got")
      (use that in \<open>auto intro!: later [unfolded logged_sel] traced_okE split: option.splits\<close>)
  show ?thesis
  proof (cases "?ref = []")
    case True
    then show ?thesis by (simp add: resolveIamPolicy_def traced_failE)
  next
    case False
    have "traced (tryE (call (GetIamPolicy (logged emb c) ?ref)) (\<lambda>got. case got of
        Inr (Some q) \<Rightarrow> if TrimSpace (policy_Identity q) \<noteq> [] then okE q else ?listed
      | _ \<Rightarrow> ?listed)) ?Q"
      unfolding logged_sel(16)
      by (rule traced_tryE [OF traced_logcall]; (rule hit)?) (auto simp: policy_seen_def)
    then show ?thesis unfolding resolveIamPolicy_def Let_def by (simp only: False if_False)
  qed
qed

lemma traced_resolveOrganisationRole:
  "traced (resolveOrganisationRole (logged emb c) ref)
     (\<lambda>r es. \<forall>p. r = Ok p \<longrightarrow> role_seen emb (TrimSpace ref) p es)"
proof -
  let ?ref = "TrimSpace ref"
  let ?pick = "\<lambda>rs. case find (\<lambda>r. EqualFold (role_Identity r) ?ref \<or> EqualFold (role_Slug r) ?ref \<or>
        EqualFold (role_Name r) ?ref) rs of Some p \<Rightarrow> okE p
      | None \<Rightarrow> failE (ErrMsg (''organisation role not found: '' @ ?ref))"
  let ?Q = "\<lambda>r es. \<forall>p. r = Ok p \<longrightarrow> role_seen emb ?ref p es"
  let ?listed = "bindE (wrapE ''list organisation roles''
      (call (ListOrganisationRoles (logged emb c)))) ?pick"
  have pick: "traced (?pick rs) (\<lambda>r es'. ?Q r ([emb (EvListRoles (Inr rs))] @ es'))" for rs
    by (auto intro!: traced_okE traced_failE simp: role_seen_def role_named_def find_Some_iff
        split: option.splits)
  have listed: "traced ?listed ?Q"
    unfolding logged_sel by (rule traced_bindE [OF traced_list_call]) (use pick in auto)
  have later: "traced ?listed (\<lambda>r es'. ?Q r (es @ es'))" for es
    by (rule traced_weaken [OF listed]) auto
  have hit: "traced (case got of Inr (Some q) \<Rightarrow> okE q | _ \<Rightarrow> ?listed) (\<lambda>r es'. ?Q r (es @ es'))"
    if "\<And>q. got = Inr (Some q) \<Longrightarrow> role_seen emb ?ref q es"
    for got :: "error + OrganisationRole option" and es
    by (cases got rule: sum.exhaust [case_names Inl Inr]; cases "projr got")
      (use that in \<open>auto intro!: later [unfolded logged_sel] traced_okE split: option.splits\<close>)
  have "traced (tryE (call (GetOrganisationRole (logged emb c) ?ref)) (\<lambda>got. case got of
        Inr (Some q) \<Rightarrow> okE q | _ \<Rightarrow> ?listed)) ?Q"
    unfolding logged_sel(10)
    by (rule traced_tryE [OF traced_logcall]; (rule hit)?) (auto simp: role_seen_def)
  then show ?thesis unfolding resolveOrganisationRole_def Let_def .
qed

text \<open>Every binding that was created is for a reference the lists permit.\<close>

definition policies_allowed :: "(iam_event \<Rightarrow> 'e) \<Rightarrow> EnsureInput \<Rightarrow> 'e list \<Rightarrow> bool" where
  "policies_allowed emb inp es \<longleftrightarrow>
     (\<forall>i q r. emb (EvCreatePB i q r) \<in> set es \<longrightarrow>
        (\<exists>p. policy_seen emb (TrimSpace (in_PolicyRef inp)) p es \<and> policy_Identity p = i \<and>
             RefAllowed (in_PolicyRef inp) (in_AllowedPolicies inp)
               [policy_Identity p, policy_Slug p, policy_Name p]))"

definition roles_allowed :: "(iam_event \<Rightarrow> 'e) \<Rightarrow> EnsureInput \<Rightarrow> 'e list \<Rightarrow> bool" where
  "roles_allowed emb inp es \<longleftrightarrow>
     (\<forall>i q r. emb (EvCreateRB i q r) \<in> set es \<longrightarrow>
        (\<exists>p. role_seen emb (TrimSpace (in_RoleRef inp)) p es \<and> role_Identity p = i \<and>
             RefAllowed (in_RoleRef inp) (in_AllowedRoles inp)
               [role_Identity p, role_Slug p, role_Name p]))"

lemma policies_allowed_append:
  assumes "policies_allowed emb inp es" and "list_all (\<lambda>e. \<forall>i q r. e \<noteq> emb (EvCreatePB i q r)) es'"
  shows "policies_allowed emb inp (es @ es')" "policies_allowed emb inp (es' @ es)"
  using assms unfolding policies_allowed_def list_all_iff by (simp; blast)+

lemma roles_allowed_append:
  assumes "roles_allowed emb inp es" and "list_all (\<lambda>e. \<forall>i q r. e \<noteq> emb (EvCreateRB i q r)) es'"
  shows "roles_allowed emb inp (es @ es')" "roles_allowed emb inp (es' @ es)"
  using assms unfolding roles_allowed_def list_all_iff by (simp; blast)+

lemma allowed_none:
  "list_all (\<lambda>e. \<forall>i q r. e \<noteq> emb (EvCreatePB i q r)) es \<Longrightarrow> policies_allowed emb inp es"
  "list_all (\<lambda>e. \<forall>i q r. e \<noteq> emb (EvCreateRB i q r)) es \<Longrightarrow> roles_allowed emb inp es"
  unfolding policies_allowed_def roles_allowed_def list_all_iff by blast+

lemma policies_allowed_one:
  assumes "policy_seen emb (TrimSpace (in_PolicyRef inp)) p es"
    and none: "list_all (\<lambda>e. \<forall>i q r. e \<noteq> emb (EvCreatePB i q r)) es"
    and "RefAllowed (in_PolicyRef inp) (in_AllowedPolicies inp)
      [policy_Identity p, policy_Slug p, policy_Name p]"
    and "\<forall>i q x. emb (EvCreatePB i q x) \<in> set es' \<longrightarrow> i = policy_Identity p"
  shows "policies_allowed emb inp (es @ es')"
  unfolding policies_allowed_def
proof (intro allI impI)
  fix i q r
  assume "emb (EvCreatePB i q r) \<in> set (es @ es')"
  with none have "emb (EvCreatePB i q r) \<in> set es'" by (fastforce simp: list_all_iff)
  with assms(4) have "i = policy_Identity p" by blast
  with assms(1,3) show "\<exists>p. policy_seen emb (TrimSpace (in_PolicyRef inp)) p (es @ es') \<and>
      policy_Identity p = i \<and> RefAllowed (in_PolicyRef inp) (in_AllowedPolicies inp)
        [policy_Identity p, policy_Slug p, policy_Name p]" by blast
qed

lemma roles_allowed_one:
  assumes "role_seen emb (TrimSpace (in_RoleRef inp)) p es"
    and none: "list_all (\<lambda>e. \<forall>i q r. e \<noteq> emb (EvCreateRB i q r)) es"
    and "RefAllowed (in_RoleRef inp) (in_AllowedRoles inp)
      [role_Identity p, role_Slug p, role_Name p]"
    and "\<forall>i q x. emb (EvCreateRB i q x) \<in> set es' \<longrightarrow> i = role_Identity p"
  shows "roles_allowed emb inp (es @ es')"
  unfolding roles_allowed_def
proof (intro allI impI)
  fix i q r
  assume "emb (EvCreateRB i q r) \<in> set (es @ es')"
  with none have "emb (EvCreateRB i q r) \<in> set es'" by (fastforce simp: list_all_iff)
  with assms(4) have "i = role_Identity p" by blast
  with assms(1,3) show "\<exists>p. role_seen emb (TrimSpace (in_RoleRef inp)) p (es @ es') \<and>
      role_Identity p = i \<and> RefAllowed (in_RoleRef inp) (in_AllowedRoles inp)
        [role_Identity p, role_Slug p, role_Name p]" by blast
qed

lemma traced_ensurePolicyBinding:
  assumes "inj emb"
  shows "traced (ensurePolicyBinding (logged emb c) p sa key labels)
    (\<lambda>r es. \<forall>i q x. emb (EvCreatePB i q x) \<in> set es \<longrightarrow> i = policy_Identity p)"
  by (rule traced_weaken [OF emits_ensurePolicyBinding [unfolded emits_def,
        where P = "\<lambda>e. \<forall>i q x. e = emb (EvCreatePB i q x) \<longrightarrow> i = policy_Identity p"]])
    (auto simp: inj_eq [OF assms] list_all_iff)

lemma traced_ensureRoleBinding:
  assumes "inj emb"
  shows "traced (ensureRoleBinding (logged emb c) p sa key labels)
    (\<lambda>r es. \<forall>i q x. emb (EvCreateRB i q x) \<in> set es \<longrightarrow> i = role_Identity p)"
  by (rule traced_weaken [OF emits_ensureRoleBinding [unfolded emits_def,
        where P = "\<lambda>e. \<forall>i q x. e = emb (EvCreateRB i q x) \<longrightarrow> i = role_Identity p"]])
    (auto simp: inj_eq [OF assms] list_all_iff)

lemma traced_ensurePolicyStep:
  assumes inj: "inj emb"
  shows "traced (ensurePolicyStep (logged emb c) inp sa key labels res)
    (\<lambda>_ es. policies_allowed emb inp es)"
proof (cases "TrimSpace (in_PolicyRef inp) = []")
  case True
  then show ?thesis
    unfolding ensurePolicyStep_def Let_def by (auto intro!: traced_okE allowed_none)
next
  case False
  let ?none = "\<lambda>e. \<forall>i q r. e \<noteq> emb (EvCreatePB i q r)"
  have none: "emits ?none (resolveIamPolicy (logged emb c) ref)" for ref
    by (rule emits_resolveIamPolicy) (auto simp: inj_eq [OF inj])
  have res: "traced (resolveIamPolicy (logged emb c) (TrimSpace (in_PolicyRef inp)))
      (\<lambda>r es. (\<forall>p. r = Ok p \<longrightarrow> policy_seen emb (TrimSpace (in_PolicyRef inp)) p es) \<and>
              list_all ?none es)"
    using traced_conj [OF traced_resolveIamPolicy [of emb c "TrimSpace (in_PolicyRef inp)"]
        none [unfolded emits_def]] by simp
  have bind: "traced (bindE (ensurePolicyBinding (logged emb c) p sa key labels) (\<lambda>_. okE (f p)))
      (\<lambda>r es'. policies_allowed emb inp (es @ es'))"
    if "policy_seen emb (TrimSpace (in_PolicyRef inp)) p es" and "list_all ?none es"
      and "RefAllowed (in_PolicyRef inp) (in_AllowedPolicies inp)
        [policy_Identity p, policy_Slug p, policy_Name p]" for p es f
    by (rule traced_bindE [OF traced_ensurePolicyBinding [OF inj]])
      (use that in \<open>auto intro!: traced_okE policies_allowed_one, blast\<close>)
  have body: "traced
      (bindE (checkE (CheckRefAllowlist ''policy'' (TrimSpace (in_PolicyRef inp))
         (in_AllowedPolicies inp) [policy_Identity p, policy_Slug p, policy_Name p])) (\<lambda>_.
       bindE (ensurePolicyBinding (logged emb c) p sa key labels) (\<lambda>_. okE (f p))))
      (\<lambda>r es'. policies_allowed emb inp (es @ es'))"
    if "policy_seen emb (TrimSpace (in_PolicyRef inp)) p es" and "list_all ?none es" for p es f
    by (rule traced_guard; (rule bind)?)
      (use that False in \<open>auto simp: CheckRefAllowlist_None RefAllowed_trim intro: allowed_none\<close>)
  show ?thesis
    unfolding ensurePolicyStep_def Let_def using False
    by (simp only: not_False_eq_True if_True)
      (rule traced_bindE [OF res]; (rule body)?; auto intro: allowed_none)
qed

lemma traced_ensureRoleStep:
  assumes inj: "inj emb"
  shows "traced (ensureRoleStep (logged emb c) inp sa key labels)
    (\<lambda>_ es. roles_allowed emb inp es)"
proof (cases "TrimSpace (in_RoleRef inp) = []")
  case True
  then show ?thesis
    unfolding ensureRoleStep_def Let_def by (auto intro!: traced_okE allowed_none)
next
  case False
  let ?none = "\<lambda>e. \<forall>i q r. e \<noteq> emb (EvCreateRB i q r)"
  have none: "emits ?none (resolveOrganisationRole (logged emb c) ref)" for ref
    by (rule emits_resolveOrganisationRole) (auto simp: inj_eq [OF inj])
  have res: "traced (resolveOrganisationRole (logged emb c) (TrimSpace (in_RoleRef inp)))
      (\<lambda>r es. (\<forall>p. r = Ok p \<longrightarrow> role_seen emb (TrimSpace (in_RoleRef inp)) p es) \<and>
              list_all ?none es)"
    using traced_conj [OF traced_resolveOrganisationRole [of emb c "TrimSpace (in_RoleRef inp)"]
        none [unfolded emits_def]] by simp
  have bind: "traced (ensureRoleBinding (logged emb c) p sa key labels)
      (\<lambda>r es'. roles_allowed emb inp (es @ es'))"
    if "role_seen emb (TrimSpace (in_RoleRef inp)) p es" and "list_all ?none es"
      and "RefAllowed (in_RoleRef inp) (in_AllowedRoles inp)
        [role_Identity p, role_Slug p, role_Name p]" for p es
    by (rule traced_weaken [OF traced_ensureRoleBinding [OF inj]])
      (use that in \<open>auto intro!: roles_allowed_one\<close>)
  have body: "traced
      (bindE (checkE (CheckRefAllowlist ''role'' (TrimSpace (in_RoleRef inp))
         (in_AllowedRoles inp) [role_Identity p, role_Slug p, role_Name p])) (\<lambda>_.
       ensureRoleBinding (logged emb c) p sa key labels))
      (\<lambda>r es'. roles_allowed emb inp (es @ es'))"
    if "role_seen emb (TrimSpace (in_RoleRef inp)) p es" and "list_all ?none es" for p es
    by (rule traced_guard; (rule bind)?)
      (use that False in \<open>auto simp: CheckRefAllowlist_None RefAllowed_trim intro: allowed_none\<close>)
  show ?thesis
    unfolding ensureRoleStep_def Let_def using False
    by (simp only: not_False_eq_True if_True)
      (rule traced_bindE [OF res]; (rule body)?; auto intro: allowed_none)
qed

lemma traced_Ensure_policies:
  assumes inj: "inj emb"
  shows "traced (EnsureWorkloadIdentity (logged emb c) inp) (\<lambda>_ es. policies_allowed emb inp es)"
proof -
  let ?none = "\<lambda>e. \<forall>i q r. e \<noteq> emb (EvCreatePB i q r)"
  note pre = traced_bind_pre [where P = ?none and Q = "\<lambda>_ es. policies_allowed emb inp es"]
  note post = traced_bind_post [where P = ?none and Q = "\<lambda>es. policies_allowed emb inp es",
      OF traced_ensurePolicyStep [OF inj]]
  have none: "?none (emb x)" if "\<forall>i q r. x \<noteq> EvCreatePB i q r" for x
    using that by (auto simp: inj_eq [OF inj])
  show ?thesis
    unfolding EnsureWorkloadIdentity_def Let_def
    by (auto intro!: pre post emits_intros none traced_failE split: sum.splits)
      (simp_all add: policies_allowed_append allowed_none)
qed

lemma traced_Ensure_roles:
  assumes inj: "inj emb"
  shows "traced (EnsureWorkloadIdentity (logged emb c) inp) (\<lambda>_ es. roles_allowed emb inp es)"
proof -
  let ?none = "\<lambda>e. \<forall>i q r. e \<noteq> emb (EvCreateRB i q r)"
  note pre = traced_bind_pre [where P = ?none and Q = "\<lambda>_ es. roles_allowed emb inp es"]
  note post = traced_bind_post [where P = ?none and Q = "\<lambda>es. roles_allowed emb inp es",
      OF traced_ensureRoleStep [OF inj]]
  have none: "?none (emb x)" if "\<forall>i q r. x \<noteq> EvCreateRB i q r" for x
    using that by (auto simp: inj_eq [OF inj])
  show ?thesis
    unfolding EnsureWorkloadIdentity_def Let_def
    by (auto intro!: pre post emits_intros none traced_failE split: sum.splits)
      (simp_all add: roles_allowed_append allowed_none)
qed

section \<open>What deleting may touch\<close>

definition owned_sa :: "(iam_event \<Rightarrow> 'e) \<Rightarrow> smap \<Rightarrow> 'e list \<Rightarrow> string \<Rightarrow> bool" where
  "owned_sa emb want es i \<longleftrightarrow>
     (\<exists>ss s. emb (EvListSAs want (Inr ss)) \<in> set es \<and> s \<in> set ss \<and>
             LabelsMatch (sa_Labels s) want \<and> sa_Identity s = i)"

definition owned_fi :: "(iam_event \<Rightarrow> 'e) \<Rightarrow> smap \<Rightarrow> 'e list \<Rightarrow> string \<Rightarrow> bool" where
  "owned_fi emb want es i \<longleftrightarrow>
     (\<exists>fs f. emb (EvListFIs want (Inr fs)) \<in> set es \<and> f \<in> set fs \<and>
             LabelsMatch (fi_Labels f) want \<and> fi_Identity f = i)"

definition managed_binding ::
    "(iam_event \<Rightarrow> 'e) \<Rightarrow> smap \<Rightarrow> 'e list \<Rightarrow> string \<Rightarrow> iam_binding list \<Rightarrow> bool" where
  "managed_binding emb want es j bs \<longleftrightarrow>
     (\<exists>b i. b \<in> set bs \<and> b_Identity b = j \<and> get (b_Labels b) LabelManagedBy = ValueManagedBy \<and>
            binds_sa i b \<and> owned_sa emb want es i)"

fun failed_delete :: "iam_event \<Rightarrow> bool" where
  "failed_delete (EvDeleteSA _ (Inl _)) = True"
| "failed_delete (EvDeleteFI _ (Inl _)) = True"
| "failed_delete (EvDeleteRB _ _ (Inl _)) = True"
| "failed_delete (EvDeletePB _ _ (Inl _)) = True"
| "failed_delete _ = False"

text \<open>
  A call is justified by the events before it: only resources that a list returned with the
  full ownership labels are deleted, only managed bindings of such a service account, and
  the service account itself only when no earlier deletion failed.
\<close>

definition clean :: "(iam_event \<Rightarrow> 'e) \<Rightarrow> 'e list \<Rightarrow> bool" where
  "clean emb es \<longleftrightarrow> (\<forall>x. emb x \<in> set es \<longrightarrow> \<not> failed_delete x \<and> \<not> (\<exists>i r. x = EvDeleteSA i r))"

fun justified :: "(iam_event \<Rightarrow> 'e) \<Rightarrow> smap \<Rightarrow> 'e list \<Rightarrow> iam_event \<Rightarrow> bool" where
  "justified emb want es (EvDeleteFI i r) \<longleftrightarrow> owned_fi emb want es i"
| "justified emb want es (EvDeleteSA i r) \<longleftrightarrow> owned_sa emb want es i \<and> clean emb es"
| "justified emb want es (EvDeleteRB i j r) \<longleftrightarrow>
     (\<exists>bs. emb (EvListRBs i (Inr bs)) \<in> set es \<and> managed_binding emb want es j bs)"
| "justified emb want es (EvDeletePB i j r) \<longleftrightarrow>
     (\<exists>bs. emb (EvListPBs i (Inr bs)) \<in> set es \<and> managed_binding emb want es j bs)"
| "justified emb want es x \<longleftrightarrow> \<not> creates x"

fun justified_trace :: "(iam_event \<Rightarrow> 'e) \<Rightarrow> smap \<Rightarrow> 'e list \<Rightarrow> 'e list \<Rightarrow> bool" where
  "justified_trace emb want pre [] \<longleftrightarrow> True"
| "justified_trace emb want pre (e # es) \<longleftrightarrow>
     (\<exists>x. e = emb x \<and> justified emb want pre x) \<and> justified_trace emb want (pre @ [e]) es"

lemma justified_trace_append [simp]:
  "justified_trace emb want pre (es @ es') \<longleftrightarrow>
     justified_trace emb want pre es \<and> justified_trace emb want (pre @ es) es'"
  by (induction es arbitrary: pre) auto

lemma owned_append:
  "owned_sa emb want es i \<Longrightarrow> owned_sa emb want (es @ es') i"
  "owned_fi emb want es i \<Longrightarrow> owned_fi emb want (es @ es') i"
  by (auto simp: owned_sa_def owned_fi_def)

lemma clean_simps [simp]:
  "clean emb []"
  "clean emb (es @ es') \<longleftrightarrow> clean emb es \<and> clean emb es'"
  by (auto simp: clean_def)

definition deleting ::
    "(iam_event \<Rightarrow> 'e) \<Rightarrow> smap \<Rightarrow> 'e list \<Rightarrow> ('a \<Rightarrow> 'e list \<Rightarrow> bool) \<Rightarrow> ('a, 'w \<times> 'e list) prog \<Rightarrow> bool" where
  "deleting emb want pre Q m \<longleftrightarrow>
     traced m (\<lambda>r es. justified_trace emb want pre es \<and>
       (\<forall>x. r = Ok x \<longrightarrow> Q x (pre @ es)))"

lemma deleting_okE: "Q x pre \<Longrightarrow> deleting emb want pre Q (okE x)"
  unfolding deleting_def by (rule traced_okE) simp

lemma deleting_weaken:
  "deleting emb want pre Q m \<Longrightarrow> (\<And>x es. Q x es \<Longrightarrow> R x es) \<Longrightarrow> deleting emb want pre R m"
  unfolding deleting_def by (erule traced_weaken) blast

lemma deleting_bindE:
  assumes "deleting emb want pre Q m"
    and "\<And>x es. Q x (pre @ es) \<Longrightarrow> deleting emb want (pre @ es) R (k x)"
  shows "deleting emb want pre R (bindE m k)"
  unfolding deleting_def
proof (rule traced_bindE [OF assms(1) [unfolded deleting_def]])
  fix x es
  assume "justified_trace emb want pre es \<and> (\<forall>y. Ok x = Ok y \<longrightarrow> Q y (pre @ es))"
  with assms(2) [of x es] show "traced (k x) (\<lambda>r es'. justified_trace emb want pre (es @ es') \<and>
      (\<forall>y. r = Ok y \<longrightarrow> R y (pre @ es @ es')))"
    by (auto simp: deleting_def)
qed auto

lemma deleting_call:
  assumes just: "\<And>x. justified emb want pre (ev x)"
    and Q: "\<And>x. Q x (pre @ [emb (ev (Inr x))])"
  shows "deleting emb want pre Q (call (logcall (\<lambda>r. emb (ev r)) f))"
  unfolding deleting_def
proof (rule traced_weaken [OF traced_logcall])
  fix r es
  assume "\<exists>x. es = [emb (ev x)] \<and> r = outcome_of x"
  then obtain x where "es = [emb (ev x)]" "r = outcome_of x" by blast
  then show "justified_trace emb want pre es \<and> (\<forall>y. r = Ok y \<longrightarrow> Q y (pre @ es))"
    using just [of x] Q by (cases x) auto
qed

lemma deleting_wrapE: "deleting emb want pre Q m \<Longrightarrow> deleting emb want pre Q (wrapE t m)"
  unfolding deleting_def by (erule traced_wrapE) auto

lemma deleting_tryE:
  assumes "emits (\<lambda>e. \<exists>x. e = emb x \<and> \<not> mutates x) m"
    and "Q pre"
    and Q: "\<And>es es'. Q es \<Longrightarrow> list_all (\<lambda>e. \<exists>x. e = emb x \<and> \<not> mutates x) es' \<Longrightarrow> Q (es @ es')"
    and "\<And>r es. Q (pre @ es) \<Longrightarrow> deleting emb want (pre @ es) R (h r)"
  shows "deleting emb want pre R (tryE m h)"
proof -
  have read: "justified_trace emb want p es"
    if "list_all (\<lambda>e. \<exists>x. e = emb x \<and> \<not> mutates x) es" for es p
    using that
  proof (induction es arbitrary: p)
    case (Cons e es)
    then obtain x where "e = emb x" "\<not> mutates x" by auto
    moreover from this(2) have "justified emb want p x" by (cases x) (auto simp: mutates_def)
    ultimately show ?case using Cons by auto
  qed simp
  show ?thesis
    unfolding deleting_def
  proof (rule traced_tryE [OF assms(1) [unfolded emits_def]], goal_cases)
    case (1 x es)
    with assms(4) [OF Q [OF assms(2)], of es] read show ?case
      by (auto simp: deleting_def elim: traced_weaken)
  next
    case (2 x es)
    with assms(4) [OF Q [OF assms(2)], of es] read show ?case
      by (auto simp: deleting_def elim: traced_weaken)
  qed (simp_all add: read)
qed

lemma clean_reads:
  assumes "inj emb" and "list_all (\<lambda>e. \<exists>x. e = emb x \<and> \<not> mutates x) es"
  shows "clean emb es"
  using assms by (fastforce simp: clean_def list_all_iff mutates_def inj_eq elim: failed_delete.elims)

text \<open>The steps of the deletion, over any trace that has the facts they rest on.\<close>

lemma clean_single:
  assumes "inj emb"
  shows "clean emb [emb x] \<longleftrightarrow> \<not> failed_delete x \<and> \<not> (\<exists>i r. x = EvDeleteSA i r)"
  by (auto simp: clean_def inj_eq [OF assms])

lemma deleting_findFI:
  assumes "inj emb" and "clean emb pre"
  shows "deleting emb want pre
    (\<lambda>r es. clean emb es \<and> (\<forall>f. r = Some f \<longrightarrow> owned_fi emb want es (fi_Identity f)))
    (findByLabelsFI (logged emb c) want)"
  unfolding findByLabelsFI_def logged_sel
  by (rule deleting_bindE, rule deleting_call
      [where Q = "\<lambda>x es. clean emb es \<and> emb (EvListFIs want (Inr x)) \<in> set es"])
    (use assms in \<open>auto intro!: deleting_okE simp: owned_fi_def clean_single dest!: find_Some_in\<close>)

lemma deleting_findSA:
  assumes "inj emb" and "clean emb pre"
  shows "deleting emb want pre
    (\<lambda>r es. clean emb es \<and> (\<forall>s. r = Some s \<longrightarrow> owned_sa emb want es (sa_Identity s)))
    (findByLabelsSA (logged emb c) want)"
  unfolding findByLabelsSA_def logged_sel
  by (rule deleting_bindE, rule deleting_call
      [where Q = "\<lambda>x es. clean emb es \<and> emb (EvListSAs want (Inr x)) \<in> set es"])
    (use assms in \<open>auto intro!: deleting_okE simp: owned_sa_def clean_single dest!: find_Some_in\<close>)

lemma managed_match [simp]:
  "LabelsMatch l managed_labels \<longleftrightarrow> get l LabelManagedBy = ValueManagedBy"
  by (simp add: managed_labels_def)

lemma deleting_loop:
  assumes del: "\<And>pre b. I pre \<Longrightarrow> b \<in> set bs \<Longrightarrow> binds_sa i b \<Longrightarrow>
      get (b_Labels b) LabelManagedBy = ValueManagedBy \<Longrightarrow>
      deleting emb want pre (\<lambda>_. I) (del (b_Identity b))"
    and "I pre"
  shows "deleting emb want pre (\<lambda>_. I) (delete_loop del i bs)"
  using assms
proof (induction bs arbitrary: pre)
  case Nil
  then show ?case by (auto intro: deleting_okE)
next
  case (Cons b bs)
  have IH: "deleting emb want pre' (\<lambda>_. I) (delete_loop del i bs)" if "I pre'" for pre'
    using that by (intro Cons.IH Cons.prems(1)) simp_all
  show ?case
  proof (cases "binds_sa i b \<and> get (b_Labels b) LabelManagedBy = ValueManagedBy")
    case True
    then have "deleting emb want pre (\<lambda>_. I) (del (b_Identity b))"
      using Cons.prems by simp
    then have "deleting emb want pre (\<lambda>_. I)
        (bindE (del (b_Identity b)) (\<lambda>_. delete_loop del i bs))"
      by (rule deleting_bindE) (rule IH)
    with True show ?thesis by simp
  next
    case False
    with IH [OF Cons.prems(2)] show ?thesis by simp
  qed
qed

text \<open>What holds along the binding steps: no failed deletion, and the account is an owned one.\<close>

definition safe_so_far :: "(iam_event \<Rightarrow> 'e) \<Rightarrow> smap \<Rightarrow> string \<Rightarrow> 'e list \<Rightarrow> bool" where
  "safe_so_far emb want i es \<longleftrightarrow> clean emb es \<and> owned_sa emb want es i"

lemma safe_append:
  "safe_so_far emb want i es \<Longrightarrow> clean emb es' \<Longrightarrow> safe_so_far emb want i (es @ es')"
  by (simp add: safe_so_far_def owned_append)

lemma deleting_roleBinding:
  assumes inj: "inj emb" and "safe_so_far emb want i pre"
  shows "deleting emb want pre (\<lambda>_. safe_so_far emb want i)
    (deleteRoleBindingForSA (logged emb c) role i)"
  unfolding deleteRoleBindingForSA_def logged_sel
proof (rule deleting_bindE, rule deleting_wrapE, rule deleting_call
      [where Q = "\<lambda>x es. safe_so_far emb want i es \<and> emb (EvListRBs role (Inr x)) \<in> set es"])
  fix bs es
  assume "safe_so_far emb want i (pre @ es) \<and> emb (EvListRBs role (Inr bs)) \<in> set (pre @ es)"
  then show "deleting emb want (pre @ es) (\<lambda>_. safe_so_far emb want i) (delete_loop
      (\<lambda>j. wrapE ''delete role binding'' (call (logcall (\<lambda>r. emb (EvDeleteRB role j r))
        (DeleteRoleBinding c role j)))) i bs)"
    by (intro deleting_weaken [OF deleting_loop [where I = "\<lambda>es. safe_so_far emb want i es \<and>
            emb (EvListRBs role (Inr bs)) \<in> set es"]] deleting_wrapE deleting_call)
      (auto simp: managed_binding_def safe_so_far_def clean_single [OF inj] owned_append)
qed (use assms in \<open>auto intro!: safe_append simp: clean_single\<close>)

lemma deleting_policyBinding:
  assumes inj: "inj emb" and "safe_so_far emb want i pre"
  shows "deleting emb want pre (\<lambda>_. safe_so_far emb want i)
    (deletePolicyBindingForSA (logged emb c) pol i)"
  unfolding deletePolicyBindingForSA_def logged_sel
proof (rule deleting_bindE, rule deleting_wrapE, rule deleting_call
      [where Q = "\<lambda>x es. safe_so_far emb want i es \<and> emb (EvListPBs pol (Inr x)) \<in> set es"])
  fix bs es
  assume "safe_so_far emb want i (pre @ es) \<and> emb (EvListPBs pol (Inr bs)) \<in> set (pre @ es)"
  then show "deleting emb want (pre @ es) (\<lambda>_. safe_so_far emb want i) (delete_loop
      (\<lambda>j. wrapE ''delete iam policy binding'' (call (logcall (\<lambda>r. emb (EvDeletePB pol j r))
        (DeleteIamPolicyBinding c pol j)))) i bs)"
    by (intro deleting_weaken [OF deleting_loop [where I = "\<lambda>es. safe_so_far emb want i es \<and>
            emb (EvListPBs pol (Inr bs)) \<in> set es"]] deleting_wrapE deleting_call)
      (auto simp: managed_binding_def safe_so_far_def clean_single [OF inj] owned_append)
qed (use assms in \<open>auto intro!: safe_append simp: clean_single\<close>)

lemma emits_reads:
  "emits (\<lambda>e. \<exists>x. e = emb x \<and> \<not> mutates x) (resolveIamPolicy (logged emb c) ref)"
  "emits (\<lambda>e. \<exists>x. e = emb x \<and> \<not> mutates x) (resolveOrganisationRole (logged emb c) ref)"
  by ((rule emits_intros; rule exI, rule conjI, rule refl, simp add: mutates_def)+)

lemma deleting_policyStep:
  assumes inj: "inj emb" and "clean emb pre"
    and "\<And>s. sa = Some s \<Longrightarrow> owned_sa emb want pre (sa_Identity s)"
  shows "deleting emb want pre
    (\<lambda>_ es. clean emb es \<and> (\<forall>s. sa = Some s \<longrightarrow> owned_sa emb want es (sa_Identity s)))
    (deletePolicyStep (logged emb c) ref sa)"
proof (cases sa)
  case None
  with assms show ?thesis by (auto simp: deletePolicyStep_def intro!: deleting_okE)
next
  case (Some s)
  let ?S = "safe_so_far emb want (sa_Identity s)"
  from Some assms have pre: "?S pre" by (simp add: safe_so_far_def)
  have "deleting emb want pre (\<lambda>_. ?S) (tryE (resolveIamPolicy (logged emb c) ref) (\<lambda>r.
      case r of Inr p \<Rightarrow> deletePolicyBindingForSA (logged emb c) (policy_Identity p) (sa_Identity s)
      | Inl _ \<Rightarrow> okE ()))"
    by (rule deleting_tryE [OF emits_reads(1), where Q = ?S])
      (auto intro: pre safe_append clean_reads [OF inj] deleting_okE deleting_policyBinding [OF inj]
        split: sum.splits)
  with Some pre have "deleting emb want pre (\<lambda>_. ?S) (deletePolicyStep (logged emb c) ref sa)"
    by (auto simp: deletePolicyStep_def intro!: deleting_okE)
  then show ?thesis
    by (rule deleting_weaken) (auto simp: safe_so_far_def Some)
qed

lemma deleting_roleStep:
  assumes inj: "inj emb" and "clean emb pre"
    and "\<And>s. sa = Some s \<Longrightarrow> owned_sa emb want pre (sa_Identity s)"
  shows "deleting emb want pre
    (\<lambda>_ es. clean emb es \<and> (\<forall>s. sa = Some s \<longrightarrow> owned_sa emb want es (sa_Identity s)))
    (deleteRoleStep (logged emb c) ref sa)"
proof (cases sa)
  case None
  with assms show ?thesis by (auto simp: deleteRoleStep_def intro!: deleting_okE)
next
  case (Some s)
  let ?S = "safe_so_far emb want (sa_Identity s)"
  from Some assms have pre: "?S pre" by (simp add: safe_so_far_def)
  have "deleting emb want pre (\<lambda>_. ?S) (tryE (resolveOrganisationRole (logged emb c) ref) (\<lambda>r.
      case r of Inr p \<Rightarrow> deleteRoleBindingForSA (logged emb c) (role_Identity p) (sa_Identity s)
      | Inl _ \<Rightarrow> okE ()))"
    by (rule deleting_tryE [OF emits_reads(2), where Q = ?S])
      (auto intro: pre safe_append clean_reads [OF inj] deleting_okE deleting_roleBinding [OF inj]
        split: sum.splits)
  with Some pre have "deleting emb want pre (\<lambda>_. ?S) (deleteRoleStep (logged emb c) ref sa)"
    by (auto simp: deleteRoleStep_def intro!: deleting_okE)
  then show ?thesis
    by (rule deleting_weaken) (auto simp: safe_so_far_def Some)
qed

lemma deleting_DeleteWorkloadIdentity:
  assumes inj: "inj emb" and sub: "BuildKubernetesSubject ns sa = Inr subject"
    and want: "want = OwnershipLabels (ResourceKey ns sa subject iss) ns sa"
  shows "deleting emb want [] (\<lambda>_ _. True)
    (DeleteWorkloadIdentity (logged emb c) ns sa iss roleRef policyRef)"
  unfolding DeleteWorkloadIdentity_def sub sum.case Let_def want [symmetric]
proof (rule deleting_bindE [OF deleting_findFI [OF inj]], simp, goal_cases)
  case (1 fi es)
  have fi: "deleting emb want pre (\<lambda>_. clean emb) (case fi of None \<Rightarrow> okE ()
      | Some f \<Rightarrow> wrapE ''delete federated identity''
          (call (DeleteFederatedIdentity (logged emb c) (fi_Identity f))))"
    if "clean emb pre" "\<And>f. fi = Some f \<Longrightarrow> owned_fi emb want pre (fi_Identity f)" for pre
    using that by (auto intro!: deleting_okE deleting_wrapE deleting_call
        simp: clean_single [OF inj] split: option.splits)
  show ?case
  proof (rule deleting_bindE [OF fi], use 1 in simp, use 1 in simp,
      rule deleting_bindE [OF deleting_findSA [OF inj]], simp,
      rule deleting_bindE [OF deleting_policyStep [OF inj]], simp, simp,
      rule deleting_bindE [OF deleting_roleStep [OF inj]], simp, simp, goal_cases)
    case 1
    then show ?case
      by (auto intro!: deleting_okE deleting_wrapE deleting_call split: option.splits)
  qed
qed

end
