(* ===== verification/KubeApi.thy ===== *)
theory KubeApi
  imports IamApi
begin

text \<open>
  What the controllers and the webhook use of Kubernetes: the objects they read and write
  (only the fields the program touches), the API client (\<^verbatim>\<open>controller-runtime\<close>, outside the
  repository) as a record of operations, the finalizer and owner-reference helpers of
  \<^verbatim>\<open>controllerutil\<close> as parameters in the same record, the clock, and the instrumented client.
\<close>

section \<open>Time\<close>

text \<open>
  A \<^verbatim>\<open>time.Time\<close> is its Unix time in seconds: the program only stores it, or formats it in
  UTC with \<^verbatim>\<open>time.RFC3339\<close>, which has no fraction. The date of a day number is computed in
  the proleptic Gregorian calendar; \<^verbatim>\<open>pad\<close> writes a fixed number of decimal digits.
\<close>

fun pad :: "nat \<Rightarrow> int \<Rightarrow> string" where
  "pad 0 n = []"
| "pad (Suc k) n = pad k (n div 10) @ [''0123456789'' ! nat (n mod 10)]"

definition civil_from_days :: "int \<Rightarrow> int \<times> int \<times> int" where
  "civil_from_days z =
     (let z = z + 719468;
          era = z div 146097;
          doe = z - era * 146097;
          yoe = (doe - doe div 1460 + doe div 36524 - doe div 146096) div 365;
          doy = doe - (365 * yoe + yoe div 4 - yoe div 100);
          mp = (5 * doy + 2) div 153;
          d = doy - (153 * mp + 2) div 5 + 1;
          m = (if mp < 10 then mp + 3 else mp - 9);
          y = yoe + era * 400 + (if m \<le> 2 then 1 else 0)
      in (y, m, d))"

definition format_RFC3339 :: "int \<Rightarrow> string" where
  "format_RFC3339 t =
     (case civil_from_days (t div 86400) of
        (y, m, d) \<Rightarrow>
          (let s = t mod 86400 in
           pad 4 y @ ''-'' @ pad 2 m @ ''-'' @ pad 2 d @ ''T'' @
           pad 2 (s div 3600) @ '':'' @ pad 2 (s div 60 mod 60) @ '':'' @ pad 2 (s mod 60) @ ''Z''))"

lemma length_pad [simp]: "length (pad k n) = k"
  by (induction k n rule: pad.induct) auto

lemma length_RFC3339: "length (format_RFC3339 t) = 20"
  by (cases "civil_from_days (t div 86400)") (simp add: format_RFC3339_def Let_def)

section \<open>Errors as text\<close>

fun api_text :: "api_error \<Rightarrow> string" where
  "api_text (NotFound t) = t"
| "api_text (OtherError t) = t"

text \<open>\<^verbatim>\<open>err.Error()\<close>\<close>

fun Error :: "error \<Rightarrow> string" where
  "Error (ErrMsg t) = t"
| "Error (ErrProviderNotReady c) =
     ''no federated identity provider for kubernetes cluster '' @ c @ '' (label '' @
       LabelKubernetesClusterID @ '')''"
| "Error (ErrApi e) = api_text e"
| "Error (ErrWrap t e) = t @ '': '' @ Error e"

section \<open>Objects\<close>

text \<open>\<open>Deleting\<close> is a deletion timestamp that is not zero.\<close>

record KubeServiceAccount =
  ksa_Namespace :: string
  ksa_Name :: string
  ksa_Annotations :: smap
  ksa_Finalizers :: "string list"
  ksa_Deleting :: bool

record Condition =
  cond_Type :: string
  cond_Status :: string
  cond_Reason :: string
  cond_Message :: string
  cond_ObservedGeneration :: int
  cond_LastTransitionTime :: int

record WorkloadIdentityBindingStatus =
  st_Phase :: string
  st_ServiceAccountID :: string
  st_FederatedIdentityID :: string
  st_ProviderID :: string
  st_PolicyID :: string
  st_OrganisationID :: string
  st_ProjectID :: string
  st_ObservedGeneration :: int
  st_LastReconcileTime :: "int option"
  st_Conditions :: "Condition list"

record WorkloadIdentityBinding =
  wib_Namespace :: string
  wib_Name :: string
  wib_Generation :: int
  wib_Finalizers :: "string list"
  wib_Deleting :: bool
  wib_ServiceAccountName :: string
  wib_PolicyRef :: string
  wib_RoleRef :: string
  wib_Scopes :: "string list"
  wib_NameOverride :: string
  wib_DeleteResources :: bool
  wib_IdentityConfigMap :: bool
  wib_Status :: WorkloadIdentityBindingStatus

text \<open>\<open>Owner\<close> stands for the controller reference that \<^verbatim>\<open>SetControllerReference\<close> sets.\<close>

record ConfigMap =
  cm_Namespace :: string
  cm_Name :: string
  cm_Labels :: smap
  cm_Data :: smap
  cm_Owner :: "(string \<times> string) option"

section \<open>The client\<close>

text \<open>
  Objects are addressed by namespace and name. \<^verbatim>\<open>CreateOrUpdate\<close> takes the object with its
  key set and the function that mutates it (which may fail); \<open>kc_SetOwner\<close> is
  \<^verbatim>\<open>SetControllerReference\<close> with the reconciler's scheme, and \<open>None\<close> when there is no scheme.
\<close>

record 'w kube_client =
  GetServiceAccount :: "string \<Rightarrow> string \<Rightarrow> (KubeServiceAccount, 'w) api"
  UpdateServiceAccount :: "KubeServiceAccount \<Rightarrow> (unit, 'w) api"
  GetBinding :: "string \<Rightarrow> string \<Rightarrow> (WorkloadIdentityBinding, 'w) api"
  UpdateBinding :: "WorkloadIdentityBinding \<Rightarrow> (unit, 'w) api"
  UpdateBindingStatus :: "WorkloadIdentityBinding \<Rightarrow> (unit, 'w) api"
  CreateOrUpdateConfigMap ::
    "ConfigMap \<Rightarrow> (ConfigMap \<Rightarrow> error + ConfigMap) \<Rightarrow> 'w \<Rightarrow> (error + unit) \<times> 'w"
  kc_SetOwner :: "(WorkloadIdentityBinding \<Rightarrow> ConfigMap \<Rightarrow> error + ConfigMap) option"
  kc_ContainsFinalizer :: "string list \<Rightarrow> string \<Rightarrow> bool"
  kc_AddFinalizer :: "string list \<Rightarrow> string \<Rightarrow> string list"
  kc_RemoveFinalizer :: "string list \<Rightarrow> string \<Rightarrow> string list"
  kc_now :: "'w \<Rightarrow> int \<times> 'w"

text \<open>The documented behaviour of the finalizer helpers.\<close>

definition finalizer_laws :: "'w kube_client \<Rightarrow> bool" where
  "finalizer_laws k \<longleftrightarrow>
     (\<forall>fs f. kc_ContainsFinalizer k fs f \<longleftrightarrow> f \<in> set fs) \<and>
     (\<forall>fs f. set (kc_AddFinalizer k fs f) = insert f (set fs)) \<and>
     (\<forall>fs f. set (kc_RemoveFinalizer k fs f) = set fs - {f})"

text \<open>
  The documented behaviour of reads and updates of accounts: a read returns the account of the
  key that was asked for and changes nothing, and an update that keeps the key and the
  finalizers of an account just read is what the next read of that key returns. The manager's
  client reads through a cache that follows the server with a delay: the law is about reads
  after the cache has caught up.
\<close>

definition accounts_kept :: "'w kube_client \<Rightarrow> bool" where
  "accounts_kept k \<longleftrightarrow>
     (\<forall>ns n w s v. GetServiceAccount k ns n w = (Inr s, v) \<longrightarrow> ksa_Namespace s = ns \<and> ksa_Name s = n) \<and>
     (\<forall>ns n w r v. GetServiceAccount k ns n w = (r, v) \<longrightarrow> fst (GetServiceAccount k ns n v) = r) \<and>
     (\<forall>ns n w s v a w'. GetServiceAccount k ns n w = (Inr s, v) \<longrightarrow>
        UpdateServiceAccount k (s\<lparr>ksa_Annotations := a\<rparr>) v = (Inr (), w') \<longrightarrow>
        (\<exists>s' v'. GetServiceAccount k ns n w' = (Inr s', v') \<and> ksa_Annotations s' = a))"

text \<open>Reading the clock, and \<^verbatim>\<open>CreateOrUpdate\<close>, as program steps.\<close>

definition nowE :: "'w kube_client \<Rightarrow> (int, 'w) prog" where
  "nowE k w = (case kc_now k w of (t, w') \<Rightarrow> (Ok t, w'))"

definition syncE ::
    "'w kube_client \<Rightarrow> ConfigMap \<Rightarrow> (ConfigMap \<Rightarrow> error + ConfigMap) \<Rightarrow> (unit, 'w) prog" where
  "syncE k cm f w =
     (case CreateOrUpdateConfigMap k cm f w of
        (Inl e, w') \<Rightarrow> (Err e, w') | (Inr u, w') \<Rightarrow> (Ok u, w'))"

lemma total_nowE [total_intros]: "total_prog (nowE k)"
  by (simp add: total_prog_def nowE_def case_prod_unfold)

lemma total_syncE [total_intros]: "total_prog (syncE k cm f)"
  unfolding total_prog_def
proof
  fix w
  obtain r w' where "CreateOrUpdateConfigMap k cm f w = (r, w')" by fastforce
  then show "fst (syncE k cm f w) \<noteq> Panic" by (cases r) (simp_all add: syncE_def)
qed

section \<open>The instrumented client\<close>

datatype kube_event =
    EvGetSA string string "api_error + KubeServiceAccount"
  | EvUpdateSA KubeServiceAccount "api_error + unit"
  | EvGetWIB string string "api_error + WorkloadIdentityBinding"
  | EvUpdateWIB WorkloadIdentityBinding "api_error + unit"
  | EvUpdateStatus WorkloadIdentityBinding "api_error + unit"
  | EvSyncConfigMap ConfigMap "ConfigMap \<Rightarrow> error + ConfigMap" "error + unit"

text \<open>One trace for both clients.\<close>

datatype event = Iam iam_event | Kube kube_event

definition klogged :: "'w kube_client \<Rightarrow> ('w \<times> event list) kube_client" where
  "klogged k = \<lparr>
     GetServiceAccount = (\<lambda>ns n. logcall (\<lambda>r. Kube (EvGetSA ns n r)) (GetServiceAccount k ns n)),
     UpdateServiceAccount = (\<lambda>s. logcall (\<lambda>r. Kube (EvUpdateSA s r)) (UpdateServiceAccount k s)),
     GetBinding = (\<lambda>ns n. logcall (\<lambda>r. Kube (EvGetWIB ns n r)) (GetBinding k ns n)),
     UpdateBinding = (\<lambda>b. logcall (\<lambda>r. Kube (EvUpdateWIB b r)) (UpdateBinding k b)),
     UpdateBindingStatus = (\<lambda>b. logcall (\<lambda>r. Kube (EvUpdateStatus b r)) (UpdateBindingStatus k b)),
     CreateOrUpdateConfigMap = (\<lambda>cm f (w, l). case CreateOrUpdateConfigMap k cm f w of
        (r, w') \<Rightarrow> (r, (w', l @ [Kube (EvSyncConfigMap cm f r)]))),
     kc_SetOwner = kc_SetOwner k,
     kc_ContainsFinalizer = kc_ContainsFinalizer k,
     kc_AddFinalizer = kc_AddFinalizer k,
     kc_RemoveFinalizer = kc_RemoveFinalizer k,
     kc_now = (\<lambda>(w, l). case kc_now k w of (t, w') \<Rightarrow> (t, (w', l)))\<rparr>"

lemma klogged_sel [simp]:
  "GetServiceAccount (klogged k) ns n = logcall (\<lambda>r. Kube (EvGetSA ns n r)) (GetServiceAccount k ns n)"
  "UpdateServiceAccount (klogged k) s = logcall (\<lambda>r. Kube (EvUpdateSA s r)) (UpdateServiceAccount k s)"
  "GetBinding (klogged k) ns n = logcall (\<lambda>r. Kube (EvGetWIB ns n r)) (GetBinding k ns n)"
  "UpdateBinding (klogged k) b = logcall (\<lambda>r. Kube (EvUpdateWIB b r)) (UpdateBinding k b)"
  "UpdateBindingStatus (klogged k) b =
     logcall (\<lambda>r. Kube (EvUpdateStatus b r)) (UpdateBindingStatus k b)"
  "kc_SetOwner (klogged k) = kc_SetOwner k"
  "kc_ContainsFinalizer (klogged k) = kc_ContainsFinalizer k"
  "kc_AddFinalizer (klogged k) = kc_AddFinalizer k"
  "kc_RemoveFinalizer (klogged k) = kc_RemoveFinalizer k"
  by (simp_all add: klogged_def)

lemma emits_nowE [emits_intros]: "emits P (nowE (klogged k))"
  by (simp add: emits_def traced_def nowE_def klogged_def case_prod_unfold)

lemma emits_syncE [emits_intros]:
  assumes "\<And>r. P (Kube (EvSyncConfigMap cm f r))"
  shows "emits P (syncE (klogged k) cm f)"
  unfolding emits_def
proof (rule tracedI)
  fix w l r w' l'
  assume run: "syncE (klogged k) cm f (w, l) = (r, w', l')"
  obtain x v where "CreateOrUpdateConfigMap k cm f w = (x, v)" by fastforce
  with run have "l' = l @ [Kube (EvSyncConfigMap cm f x)]"
    by (cases x) (simp_all add: syncE_def klogged_def)
  with assms show "\<exists>es. l' = l @ es \<and> list_all P es" by simp
qed

lemma inj_event: "inj Iam" "inj Kube"
  by (simp_all add: inj_def)

end
