(* ===== verification/Config.thy ===== *)
theory Config
  imports Allowlist
begin

text \<open>
  \<^verbatim>\<open>internal/config/config.go\<close>: the process configuration and its validation. The URL
  check \<^verbatim>\<open>url.ParseRequestURI\<close> is a parameter \<open>parse_uri\<close>: \<open>None\<close> for a URL it accepts,
  the text of its error otherwise (which URLs it accepts changes between Go releases, and
  the code only asks whether it failed).
\<close>

definition DefaultThalassaURL :: string where
  "DefaultThalassaURL = ''https://api.thalassa.cloud''"
definition DefaultProbeAddr :: string where
  "DefaultProbeAddr = '':8081''"
definition DefaultMetricsAddr :: string where
  "DefaultMetricsAddr = '':8443''"

text \<open>Durations are \<^verbatim>\<open>time.Duration\<close>: nanoseconds.\<close>

definition DefaultRequeueMissingIDP :: int where
  "DefaultRequeueMissingIDP = 30 * 1000000000"

definition DefaultWebhookAudience :: string where
  "DefaultWebhookAudience = DefaultThalassaURL"

record Config =
  cfg_ThalassaURL :: string
  cfg_OrganisationID :: string
  cfg_ProjectIdentity :: string
  cfg_ClusterIdentity :: string
  cfg_ControllerServiceAccount :: string
  cfg_SubjectTokenFile :: string
  cfg_TrustedAudiences :: "string list"
  cfg_WatchNamespaces :: "string list"
  cfg_AllowedPolicies :: "string list"
  cfg_AllowedRoles :: "string list"
  cfg_ProbeAddr :: string
  cfg_MetricsAddr :: string
  cfg_EnableLeaderElection :: bool
  cfg_RequeueMissingIDP :: int
  cfg_EnableServiceAccountAnnotations :: bool
  cfg_EnableIdentityConfigMap :: bool
  cfg_EnableControllers :: bool
  cfg_EnablePodMutator :: bool
  cfg_WebhookCertDir :: string
  cfg_WebhookPort :: int
  cfg_WebhookAudience :: string

type_synonym uri_parser = "string \<Rightarrow> string option"

definition ValidateController :: "uri_parser \<Rightarrow> Config \<Rightarrow> error option" where
  "ValidateController parse_uri c =
     (if TrimSpace (cfg_ThalassaURL c) = [] then Some (ErrMsg ''thalassa-url is required'')
      else (case parse_uri (cfg_ThalassaURL c) of
        Some t \<Rightarrow> Some (ErrWrap ''thalassa-url is invalid'' (ErrMsg t))
      | None \<Rightarrow>
          if TrimSpace (cfg_OrganisationID c) = [] then Some (ErrMsg ''organisation is required'')
          else if TrimSpace (cfg_ClusterIdentity c) = []
            then Some (ErrMsg ''cluster-identity is required'')
          else if TrimSpace (cfg_ControllerServiceAccount c) = []
            then Some (ErrMsg ''thalassa-service-account-id is required'')
          else if TrimSpace (cfg_SubjectTokenFile c) = []
            then Some (ErrMsg ''thalassa-subject-token-file is required'')
          else if length (cfg_TrustedAudiences c) = 0
            then Some (ErrMsg ''at least one trusted audience is required'')
          else if cfg_RequeueMissingIDP c \<le> 0
            then Some (ErrMsg ''requeue-missing-idp must be positive'')
          else None))"

definition ValidateWebhook :: "uri_parser \<Rightarrow> Config \<Rightarrow> error option" where
  "ValidateWebhook parse_uri c =
     (if TrimSpace (cfg_WebhookCertDir c) = [] then Some (ErrMsg ''webhook-cert-dir is required'')
      else if cfg_WebhookPort c \<le> 0 then Some (ErrMsg ''webhook-port must be positive'')
      else if TrimSpace (cfg_WebhookAudience c) = []
        then Some (ErrMsg ''webhook-audience is required'')
      else (case parse_uri (cfg_WebhookAudience c) of
        Some t \<Rightarrow> Some (ErrWrap ''webhook-audience is invalid'' (ErrMsg t))
      | None \<Rightarrow> None))"

definition Validate :: "uri_parser \<Rightarrow> Config \<Rightarrow> error option" where
  "Validate parse_uri c =
     (if \<not> cfg_EnableControllers c \<and> \<not> cfg_EnablePodMutator c
      then Some (ErrMsg ''at least one of enable-controllers or enable-pod-mutator is required'')
      else
        (case (if cfg_EnableControllers c then ValidateController parse_uri c else None) of
           Some e \<Rightarrow> Some e
         | None \<Rightarrow>
             (case (if cfg_EnablePodMutator c then ValidateWebhook parse_uri c else None) of
                Some e \<Rightarrow> Some e
              | None \<Rightarrow> None)))"

definition NormalizeURL :: "string \<Rightarrow> string" where
  "NormalizeURL u = TrimSuffix (TrimSpace u) ''/''"

definition ResolveWebhookAudience :: "Config \<Rightarrow> string" where
  "ResolveWebhookAudience c =
     (let a = TrimSpace (cfg_WebhookAudience c) in
      if a \<noteq> [] then a
      else (case cfg_TrustedAudiences c of
        aud # _ \<Rightarrow> TrimSpace aud
      | [] \<Rightarrow>
          (let u = TrimSpace (cfg_ThalassaURL c) in
           if u \<noteq> [] then u else DefaultWebhookAudience)))"

section \<open>What a validated configuration guarantees\<close>

definition controller_ready :: "uri_parser \<Rightarrow> Config \<Rightarrow> bool" where
  "controller_ready parse_uri c \<longleftrightarrow>
     TrimSpace (cfg_ThalassaURL c) \<noteq> [] \<and> parse_uri (cfg_ThalassaURL c) = None \<and>
     TrimSpace (cfg_OrganisationID c) \<noteq> [] \<and> TrimSpace (cfg_ClusterIdentity c) \<noteq> [] \<and>
     TrimSpace (cfg_ControllerServiceAccount c) \<noteq> [] \<and> TrimSpace (cfg_SubjectTokenFile c) \<noteq> [] \<and>
     cfg_TrustedAudiences c \<noteq> [] \<and> 0 < cfg_RequeueMissingIDP c"

definition webhook_ready :: "uri_parser \<Rightarrow> Config \<Rightarrow> bool" where
  "webhook_ready parse_uri c \<longleftrightarrow>
     TrimSpace (cfg_WebhookCertDir c) \<noteq> [] \<and> 0 < cfg_WebhookPort c \<and>
     TrimSpace (cfg_WebhookAudience c) \<noteq> [] \<and> parse_uri (cfg_WebhookAudience c) = None"

lemma ValidateController_None: "ValidateController p c = None \<longleftrightarrow> controller_ready p c"
  by (auto simp: ValidateController_def controller_ready_def split: option.splits)

lemma ValidateWebhook_None: "ValidateWebhook p c = None \<longleftrightarrow> webhook_ready p c"
  by (auto simp: ValidateWebhook_def webhook_ready_def split: option.splits)

lemma Validate_None:
  "Validate p c = None \<longleftrightarrow>
     (cfg_EnableControllers c \<or> cfg_EnablePodMutator c) \<and>
     (cfg_EnableControllers c \<longrightarrow> controller_ready p c) \<and>
     (cfg_EnablePodMutator c \<longrightarrow> webhook_ready p c)"
  by (auto simp: Validate_def ValidateController_None [symmetric] ValidateWebhook_None [symmetric]
      split: option.splits)

lemma DefaultWebhookAudience_plain [simp]:
  "TrimSpace DefaultWebhookAudience = DefaultWebhookAudience" "DefaultWebhookAudience \<noteq> []"
proof -
  show "TrimSpace DefaultWebhookAudience = DefaultWebhookAudience"
    by (rule TrimSpace_plain)
      (simp_all add: DefaultWebhookAudience_def DefaultThalassaURL_def plain_char_def space_runes_def)
  show "DefaultWebhookAudience \<noteq> []"
    by (simp add: DefaultWebhookAudience_def DefaultThalassaURL_def)
qed

text \<open>
  The audience is always trimmed, and it is blank only when the first trusted audience is:
  \<^verbatim>\<open>ResolveWebhookAudience\<close> does not look further once the list is not empty.
\<close>

lemma ResolveWebhookAudience_trimmed:
  "TrimSpace (ResolveWebhookAudience c) = ResolveWebhookAudience c"
  by (auto simp: ResolveWebhookAudience_def Let_def split: list.splits)

lemma ResolveWebhookAudience_blank:
  "ResolveWebhookAudience c = [] \<longleftrightarrow>
     TrimSpace (cfg_WebhookAudience c) = [] \<and>
     (\<exists>a as. cfg_TrustedAudiences c = a # as \<and> TrimSpace a = [])"
  by (auto simp: ResolveWebhookAudience_def Let_def split: list.splits)

lemma webhook_ready_audience:
  "webhook_ready p c \<Longrightarrow> ResolveWebhookAudience c = TrimSpace (cfg_WebhookAudience c)"
  by (simp add: webhook_ready_def ResolveWebhookAudience_def)

end
