(* ===== verification/IdentityConfigMap.thy ===== *)
theory IdentityConfigMap
  imports Subject
begin

text \<open>
  \<^verbatim>\<open>internal/controller/identity_configmap.go\<close>: the name and content of the ConfigMap that
  hands the exchange identifiers to a workload.
\<close>

definition IdentityConfigMapName :: "string \<Rightarrow> string" where
  "IdentityConfigMapName serviceAccountName = ''wif-'' @ TrimSpace serviceAccountName"

definition IdentityConfigMapData :: "string \<Rightarrow> string \<Rightarrow> string \<Rightarrow> smap" where
  "IdentityConfigMapData organisationID serviceAccountID projectID =
     (let data = fmap_of_list [
            (ConfigMapKeyOrganisationID, TrimSpace organisationID),
            (ConfigMapKeyServiceAccountID, TrimSpace serviceAccountID)];
          p = TrimSpace projectID
      in if p \<noteq> [] then fmupd ConfigMapKeyProjectID p data else data)"

definition ValidateIdentityConfigMapData :: "smap \<Rightarrow> error option" where
  "ValidateIdentityConfigMapData data =
     (if TrimSpace (get data ConfigMapKeyOrganisationID) = []
        then Some (ErrMsg ''organisation-id is required'')
      else if TrimSpace (get data ConfigMapKeyServiceAccountID) = []
        then Some (ErrMsg ''service-account-id is required'')
      else None)"

lemma IdentityConfigMapData_get [simp]:
  "get (IdentityConfigMapData o' s p) ConfigMapKeyOrganisationID = TrimSpace o'"
  "get (IdentityConfigMapData o' s p) ConfigMapKeyServiceAccountID = TrimSpace s"
  "get (IdentityConfigMapData o' s p) ConfigMapKeyProjectID = TrimSpace p"
  by (simp_all add: IdentityConfigMapData_def Let_def configmap_keys)

lemma IdentityConfigMapData_keys:
  "hasKey (IdentityConfigMapData o' s p) k \<longleftrightarrow>
     k \<in> {ConfigMapKeyOrganisationID, ConfigMapKeyServiceAccountID} \<or>
     (k = ConfigMapKeyProjectID \<and> TrimSpace p \<noteq> [])"
  by (auto simp: IdentityConfigMapData_def Let_def)

lemma ValidateIdentityConfigMapData_None:
  "ValidateIdentityConfigMapData (IdentityConfigMapData o' s p) = None \<longleftrightarrow>
     TrimSpace o' \<noteq> [] \<and> TrimSpace s \<noteq> []"
  by (simp add: ValidateIdentityConfigMapData_def)

end
