(* ===== verification/BindingReconcile.thy ===== *)
theory BindingReconcile
  imports EnsureTrace KubeApi Config IdentityConfigMap
begin

text \<open>
  \<^verbatim>\<open>internal/controller/binding_reconcile.go\<close>: one reconciliation of a WorkloadIdentityBinding
  against the cluster and the IAM API, and the Ready condition. The two clients share one
  world. Go's \<^verbatim>\<open>(ctrl.Result, *bindingObserved, error)\<close> is a triple: a reconciliation may
  return a status to write together with an error.
\<close>

section \<open>Data\<close>

record bindingDesired =
  des_Namespace :: string
  des_ServiceAccount :: string
  des_PolicyRef :: string
  des_PolicyID :: string
  des_RoleRef :: string
  des_Scopes :: "string list"
  des_NameOverride :: string
  des_DeleteResources :: bool
  des_IdentityConfigMap :: bool

record bindingObserved =
  obs_Phase :: string
  obs_ServiceAccountID :: string
  obs_FederatedIdentityID :: string
  obs_ProviderID :: string
  obs_PolicyID :: string
  obs_OrganisationID :: string
  obs_ProjectID :: string
  obs_Ready :: bool
  obs_Message :: string
  obs_Reason :: string

definition observed :: "string \<Rightarrow> string \<Rightarrow> string \<Rightarrow> bindingObserved" where
  "observed phase reason msg = \<lparr>
     obs_Phase = phase, obs_ServiceAccountID = [], obs_FederatedIdentityID = [],
     obs_ProviderID = [], obs_PolicyID = [], obs_OrganisationID = [], obs_ProjectID = [],
     obs_Ready = False, obs_Message = msg, obs_Reason = reason\<rparr>"

record reconcile_result =
  rr_Requeue :: bool
  rr_RequeueAfter :: int

definition no_requeue :: reconcile_result where
  "no_requeue = \<lparr>rr_Requeue = False, rr_RequeueAfter = 0\<rparr>"

type_synonym outcome = "reconcile_result \<times> bindingObserved option \<times> error option"

definition finish :: "bindingObserved option \<Rightarrow> error option \<Rightarrow> (outcome, 'w) prog" where
  "finish obs err = okE (no_requeue, obs, err)"

definition contains :: "string list \<Rightarrow> string \<Rightarrow> bool" where
  "contains list v \<longleftrightarrow> list_ex (\<lambda>x. x = v) list"

section \<open>Service account annotations\<close>

definition identity_annotations :: "string \<Rightarrow> string \<Rightarrow> string \<Rightarrow> smap \<Rightarrow> smap" where
  "identity_annotations serviceAccountID organisationID projectID a =
     (let a = fmupd AnnotationServiceAccountID serviceAccountID a;
          a = fmupd AnnotationOrganisationID organisationID a
      in if projectID \<noteq> [] then fmupd AnnotationProjectID projectID a
         else fmdrop AnnotationProjectID a)"

definition annotateServiceAccountIdentity ::
    "'w kube_client \<Rightarrow> KubeServiceAccount \<Rightarrow> string \<Rightarrow> string \<Rightarrow> string \<Rightarrow> (unit, 'w) prog" where
  "annotateServiceAccountIdentity k sa serviceAccountID organisationID projectID =
     bindE (call (GetServiceAccount k (ksa_Namespace sa) (ksa_Name sa))) (\<lambda>latest.
       call (UpdateServiceAccount k (latest\<lparr>ksa_Annotations :=
         identity_annotations serviceAccountID organisationID projectID (ksa_Annotations latest)\<rparr>)))"

definition identity_keys :: "string list" where
  "identity_keys = [
     AnnotationServiceAccountID,
     AnnotationOrganisationID,
     AnnotationProjectID,
     AnnotationFederatedIdentityID,
     AnnotationProviderID,
     AnnotationPolicyID]"

fun clear_loop :: "string list \<Rightarrow> smap \<Rightarrow> bool \<Rightarrow> bool \<times> smap" where
  "clear_loop [] a changed = (changed, a)"
| "clear_loop (k # ks) a changed =
     (if hasKey a k then clear_loop ks (fmdrop k a) True else clear_loop ks a changed)"

definition clearServiceAccountIdentityAnnotations ::
    "'w kube_client \<Rightarrow> string \<Rightarrow> string \<Rightarrow> (unit, 'w) prog" where
  "clearServiceAccountIdentityAnnotations k namespace name =
     tryE (call (GetServiceAccount k namespace name)) (\<lambda>got.
       case got of
         Inl e \<Rightarrow> if isNotFound e then okE () else failE e
       | Inr sa \<Rightarrow>
           if ksa_Annotations sa = fmempty then okE ()
           else
             (case clear_loop identity_keys (ksa_Annotations sa) False of
                (changed, a) \<Rightarrow>
                  if \<not> changed then okE ()
                  else call (UpdateServiceAccount k (sa\<lparr>ksa_Annotations := a\<rparr>))))"

section \<open>The identity ConfigMap\<close>

text \<open>The function handed to \<^verbatim>\<open>CreateOrUpdate\<close>.\<close>

definition mutate_config_map ::
    "(WorkloadIdentityBinding \<Rightarrow> ConfigMap \<Rightarrow> error + ConfigMap) option \<Rightarrow>
     WorkloadIdentityBinding \<Rightarrow> bindingDesired \<Rightarrow> smap \<Rightarrow> ConfigMap \<Rightarrow> error + ConfigMap" where
  "mutate_config_map scheme owner desired data cm =
     (case (case scheme of None \<Rightarrow> Inr cm | Some set_owner \<Rightarrow> set_owner owner cm) of
        Inl e \<Rightarrow> Inl e
      | Inr cm \<Rightarrow>
          Inr (cm\<lparr>
            cm_Labels := fmupd LabelK8sServiceAccount (des_ServiceAccount desired)
              (fmupd LabelK8sNamespace (des_Namespace desired)
                (fmupd LabelManagedBy ValueManagedBy (cm_Labels cm))),
            cm_Data := data\<rparr>))"

definition syncIdentityConfigMap ::
    "'w kube_client \<Rightarrow> WorkloadIdentityBinding \<Rightarrow> bindingDesired \<Rightarrow> string \<Rightarrow> string \<Rightarrow> string \<Rightarrow>
     (unit, 'w) prog" where
  "syncIdentityConfigMap k owner desired serviceAccountID organisationID projectID =
     (let data = IdentityConfigMapData organisationID serviceAccountID projectID in
      bindE (checkE (ValidateIdentityConfigMapData data)) (\<lambda>_.
      syncE k
        \<lparr>cm_Namespace = des_Namespace desired,
         cm_Name = IdentityConfigMapName (des_ServiceAccount desired),
         cm_Labels = fmempty, cm_Data = fmempty, cm_Owner = None\<rparr>
        (mutate_config_map (kc_SetOwner k) owner desired data)))"

section \<open>Validation and deletion\<close>

definition validateDesired :: "bindingDesired \<Rightarrow> error option" where
  "validateDesired d =
     (if TrimSpace (des_Namespace d) = [] \<or> TrimSpace (des_ServiceAccount d) = []
        then Some (ErrMsg ''service account namespace and name are required'')
      else
        (let role = TrimSpace (des_RoleRef d); policy = TrimSpace (des_PolicyRef d) in
         if role = [] \<and> policy = []
           then Some (ErrMsg ''at least one of policyRef or roleRef is required'')
         else if role = ''*'' \<or> policy = ''*''
           then Some (ErrMsg ''wildcard policy/role is not allowed'')
         else None))"

text \<open>
  \<^verbatim>\<open>FindProviderByClusterID\<close> returns no nil provider without an error, so the source's check
  for nil has no branch here.
\<close>

definition deleteCloudResources ::
    "'w iam_client \<Rightarrow> Config \<Rightarrow> bindingDesired \<Rightarrow> (unit, 'w) prog" where
  "deleteCloudResources c cfg desired =
     tryE (FindProviderByClusterID c (cfg_ClusterIdentity cfg)) (\<lambda>got.
       case got of
         Inl err \<Rightarrow>
           (case asProviderNotReady err of
              Some _ \<Rightarrow> okE ()
            | None \<Rightarrow> failE (ErrWrap ''resolve cluster identity provider for delete'' err))
       | Inr provider \<Rightarrow>
           (let issuer = NormalizeIssuer (idp_ProviderIssuer provider) in
            if issuer = [] then okE ()
            else
              (let policyRef = TrimSpace (des_PolicyID desired);
                   policyRef = (if policyRef = [] then des_PolicyRef desired else policyRef)
               in DeleteWorkloadIdentity c (des_Namespace desired) (des_ServiceAccount desired)
                    issuer (des_RoleRef desired) policyRef)))"

section \<open>Reconciliation\<close>

definition desired_input :: "Config \<Rightarrow> bindingDesired \<Rightarrow> string list \<Rightarrow> EnsureInput" where
  "desired_input cfg desired scopes = \<lparr>
     in_Namespace = des_Namespace desired,
     in_ServiceAccount = des_ServiceAccount desired,
     in_RoleRef = des_RoleRef desired,
     in_PolicyRef = des_PolicyRef desired,
     in_NameOverride = des_NameOverride desired,
     in_Scopes = scopes,
     in_TrustedAudiences = cfg_TrustedAudiences cfg,
     in_ClusterIdentity = cfg_ClusterIdentity cfg,
     in_AllowedPolicies = cfg_AllowedPolicies cfg,
     in_AllowedRoles = cfg_AllowedRoles cfg\<rparr>"

text \<open>The branch of an object that is being deleted.\<close>

definition reconcileDeletion ::
    "'w iam_client \<Rightarrow> 'w kube_client \<Rightarrow> Config \<Rightarrow> WorkloadIdentityBinding \<Rightarrow> bindingDesired \<Rightarrow>
     (outcome, 'w) prog" where
  "reconcileDeletion c k cfg obj desired =
     tryE (clearServiceAccountIdentityAnnotations k (des_Namespace desired) (des_ServiceAccount desired))
       (\<lambda>r. case r of
          Inl err \<Rightarrow> finish (Some (observed StatusError ''CleanupFailed'' (Error err))) (Some err)
        | Inr _ \<Rightarrow>
            tryE (if des_DeleteResources desired then deleteCloudResources c cfg desired else okE ())
              (\<lambda>r. case r of
                 Inl err \<Rightarrow> finish (Some (observed StatusError ''DeleteFailed'' (Error err))) (Some err)
               | Inr _ \<Rightarrow>
                   tryE (call (UpdateBinding k (obj\<lparr>wib_Finalizers :=
                       kc_RemoveFinalizer k (wib_Finalizers obj) BindingFinalizerName\<rparr>)))
                     (\<lambda>r. case r of
                        Inl err \<Rightarrow> finish None (Some err)
                      | Inr _ \<Rightarrow> finish None None)))"

text \<open>The steps after the resources are ensured.\<close>

definition publishIdentity ::
    "'w kube_client \<Rightarrow> Config \<Rightarrow> WorkloadIdentityBinding \<Rightarrow> bindingDesired \<Rightarrow> KubeServiceAccount \<Rightarrow>
     EnsureResult \<Rightarrow> (outcome, 'w) prog" where
  "publishIdentity k cfg obj desired sa result =
     (let orgID = TrimSpace (cfg_OrganisationID cfg);
          projectID = TrimSpace (cfg_ProjectIdentity cfg)
      in
      tryE (if des_IdentityConfigMap desired \<or> cfg_EnableIdentityConfigMap cfg
            then syncIdentityConfigMap k obj desired (res_ServiceAccountID result) orgID projectID
            else okE ())
        (\<lambda>r. case r of
           Inl err \<Rightarrow> finish (Some (observed StatusError ''IdentityConfigMapFailed'' (Error err))) (Some err)
         | Inr _ \<Rightarrow>
             tryE (annotateServiceAccountIdentity k sa (res_ServiceAccountID result) orgID projectID)
               (\<lambda>r. case r of
                  Inl err \<Rightarrow>
                    finish (Some (observed StatusError ''ServiceAccountAnnotateFailed'' (Error err))) (Some err)
                | Inr _ \<Rightarrow>
                    finish (Some \<lparr>
                      obs_Phase = StatusReady,
                      obs_ServiceAccountID = res_ServiceAccountID result,
                      obs_FederatedIdentityID = res_FederatedIdentityID result,
                      obs_ProviderID = res_ProviderID result,
                      obs_PolicyID = res_PolicyID result,
                      obs_OrganisationID = orgID,
                      obs_ProjectID = projectID,
                      obs_Ready = True,
                      obs_Message = ''Thalassa workload identity resources are ready'',
                      obs_Reason = ''Ready''\<rparr>) None)))"

definition reconcileBinding ::
    "'w iam_client \<Rightarrow> 'w kube_client \<Rightarrow> Config \<Rightarrow> WorkloadIdentityBinding \<Rightarrow> bindingDesired \<Rightarrow> bool \<Rightarrow>
     (outcome, 'w) prog" where
  "reconcileBinding c k cfg obj desired hasFinalizer =
     (if wib_Deleting obj then
        (if \<not> hasFinalizer then finish None None else reconcileDeletion c k cfg obj desired)
      else if \<not> hasFinalizer then
        tryE (call (UpdateBinding k (obj\<lparr>wib_Finalizers :=
            kc_AddFinalizer k (wib_Finalizers obj) BindingFinalizerName\<rparr>)))
          (\<lambda>r. case r of
             Inl err \<Rightarrow> finish None (Some err)
           | Inr _ \<Rightarrow>
               okE (\<lparr>rr_Requeue = True, rr_RequeueAfter = 0\<rparr>,
                    Some (observed StatusPending ''FinalizerAdded'' []), None))
      else
        (case validateDesired desired of
           Some err \<Rightarrow> finish (Some (observed StatusError ''InvalidSpec'' (Error err))) None
         | None \<Rightarrow>
      if cfg_WatchNamespaces cfg \<noteq> [] \<and> \<not> contains (cfg_WatchNamespaces cfg) (des_Namespace desired)
      then finish (Some (observed StatusError ''NamespaceNotWatched''
          (''service account namespace '' @ Quote (des_Namespace desired) @
           '' is outside controller watch namespaces''))) None
      else
        tryE (call (GetServiceAccount k (des_Namespace desired) (des_ServiceAccount desired))) (\<lambda>r.
          case r of
            Inl err \<Rightarrow>
              if isNotFound err
              then finish (Some (observed StatusError ''ServiceAccountNotFound'' (Error err))) None
              else finish None (Some err)
          | Inr sa \<Rightarrow>
              (case ParseScopeList (ic_consts c) (des_Scopes desired) of
                 Inl err \<Rightarrow> finish (Some (observed StatusError ''InvalidScopes'' (Error err))) None
               | Inr scopes \<Rightarrow>
                   tryE (EnsureWorkloadIdentity c (desired_input cfg desired scopes)) (\<lambda>r.
                     case r of
                       Inl err \<Rightarrow>
                         (case asProviderNotReady err of
                            Some _ \<Rightarrow>
                              okE (\<lparr>rr_Requeue = False, rr_RequeueAfter = cfg_RequeueMissingIDP cfg\<rparr>,
                                   Some (observed StatusPending ''ProviderNotReady'' (Error err)), None)
                          | None \<Rightarrow>
                              finish (Some (observed StatusError ''EnsureFailed'' (Error err))) (Some err))
                     | Inr result \<Rightarrow> publishIdentity k cfg obj desired sa result)))))"

section \<open>The Ready condition\<close>

fun setCondition :: "Condition list \<Rightarrow> Condition \<Rightarrow> Condition list" where
  "setCondition [] neu = [neu]"
| "setCondition (c # cs) neu =
     (if cond_Type c \<noteq> cond_Type neu then c # setCondition cs neu
      else if cond_Status c = cond_Status neu \<and> cond_Reason c = cond_Reason neu \<and>
              cond_Message c = cond_Message neu \<and>
              cond_ObservedGeneration c = cond_ObservedGeneration neu
        then c # cs
      else (if cond_Status c = cond_Status neu
            then neu\<lparr>cond_LastTransitionTime := cond_LastTransitionTime c\<rparr> else neu) # cs)"

definition setReadyCondition ::
    "Condition list \<Rightarrow> bindingObserved option \<Rightarrow> int \<Rightarrow> int \<Rightarrow> Condition list" where
  "setReadyCondition conditions obs generation now =
     (case obs of
        None \<Rightarrow> conditions
      | Some obs \<Rightarrow>
          setCondition conditions \<lparr>
            cond_Type = ''Ready'',
            cond_Status = (if obs_Ready obs then ''True'' else ''False''),
            cond_Reason = obs_Reason obs,
            cond_Message = truncate_to 1024 (obs_Message obs),
            cond_ObservedGeneration = generation,
            cond_LastTransitionTime = now\<rparr>)"

end
