(* ===== verification/BindingController.thy ===== *)
theory BindingController
  imports BindingReconcile
begin

text \<open>
  \<^verbatim>\<open>internal/controller/workloadidentitybinding_controller.go\<close>: the reconciler of bindings, its
  status update and the event filter.
\<close>

definition status_after ::
    "WorkloadIdentityBinding \<Rightarrow> bindingObserved \<Rightarrow> int \<Rightarrow> WorkloadIdentityBindingStatus" where
  "status_after latest obs now =
     (let st = wib_Status latest;
          st = st\<lparr>st_Phase := obs_Phase obs, st_ObservedGeneration := wib_Generation latest,
                  st_LastReconcileTime := Some now\<rparr>;
          st = (if obs_ServiceAccountID obs \<noteq> [] then
                  st\<lparr>st_ServiceAccountID := obs_ServiceAccountID obs,
                     st_FederatedIdentityID := obs_FederatedIdentityID obs,
                     st_ProviderID := obs_ProviderID obs,
                     st_PolicyID := obs_PolicyID obs,
                     st_OrganisationID := obs_OrganisationID obs,
                     st_ProjectID := obs_ProjectID obs\<rparr>
                else st)
      in st\<lparr>st_Conditions :=
           setReadyCondition (st_Conditions st) (Some obs) (wib_Generation latest) now\<rparr>)"

definition patchBindingStatus ::
    "'w kube_client \<Rightarrow> WorkloadIdentityBinding \<Rightarrow> bindingObserved \<Rightarrow> (unit, 'w) prog" where
  "patchBindingStatus k binding obs =
     bindE (call (GetBinding k (wib_Namespace binding) (wib_Name binding))) (\<lambda>latest.
     bindE (nowE k) (\<lambda>now.
     call (UpdateBindingStatus k (latest\<lparr>wib_Status := status_after latest obs now\<rparr>))))"

definition desired_of :: "WorkloadIdentityBinding \<Rightarrow> bindingDesired" where
  "desired_of b = \<lparr>
     des_Namespace = wib_Namespace b,
     des_ServiceAccount = wib_ServiceAccountName b,
     des_PolicyRef = wib_PolicyRef b,
     des_PolicyID = st_PolicyID (wib_Status b),
     des_RoleRef = wib_RoleRef b,
     des_Scopes = wib_Scopes b,
     des_NameOverride = wib_NameOverride b,
     des_DeleteResources = wib_DeleteResources b,
     des_IdentityConfigMap = wib_IdentityConfigMap b\<rparr>"

text \<open>A namespace is watched when no list is configured or the list has it.\<close>

definition watched :: "Config \<Rightarrow> string \<Rightarrow> bool" where
  "watched cfg ns \<longleftrightarrow> \<not> (cfg_WatchNamespaces cfg \<noteq> [] \<and> \<not> contains (cfg_WatchNamespaces cfg) ns)"

definition ReconcileBinding ::
    "'w iam_client \<Rightarrow> 'w kube_client \<Rightarrow> Config \<Rightarrow> string \<Rightarrow> string \<Rightarrow>
     (reconcile_result \<times> error option, 'w) prog" where
  "ReconcileBinding c k cfg ns name =
     tryE (call (GetBinding k ns name)) (\<lambda>got.
       case got of
         Inl err \<Rightarrow> if isNotFound err then okE (no_requeue, None) else okE (no_requeue, Some err)
       | Inr binding \<Rightarrow>
           if \<not> watched cfg (wib_Namespace binding) then okE (no_requeue, None)
           else
             (let hasFinalizer = kc_ContainsFinalizer k (wib_Finalizers binding) BindingFinalizerName in
              bindE (reconcileBinding c k cfg binding (desired_of binding) hasFinalizer)
                (\<lambda>(result, obs, err).
                  case obs of
                    None \<Rightarrow> okE (result, err)
                  | Some obs \<Rightarrow>
                      tryE (patchBindingStatus k binding obs) (\<lambda>r.
                        case r of
                          Inl statusErr \<Rightarrow>
                            if err = None then okE (no_requeue, Some statusErr) else okE (result, err)
                        | Inr _ \<Rightarrow> okE (result, err)))))"

text \<open>The event filter of \<^verbatim>\<open>SetupWithManager\<close>; \<open>None\<close> is an object of another type.\<close>

definition binding_event_filter :: "Config \<Rightarrow> WorkloadIdentityBinding option \<Rightarrow> bool" where
  "binding_event_filter cfg obj =
     (case obj of
        None \<Rightarrow> False
      | Some b \<Rightarrow>
          if cfg_WatchNamespaces cfg \<noteq> [] \<and> \<not> contains (cfg_WatchNamespaces cfg) (wib_Namespace b)
          then False else True)"

end
