(* ===== verification/ApiTypes.thy ===== *)
theory ApiTypes
  imports BindingController
begin

text \<open>
  \<^verbatim>\<open>api/v1beta1\<close> as the API server sees it: the constants and markers of
  \<^verbatim>\<open>workloadidentitybinding_types.go\<close> (what a submitted binding must satisfy, its default, and its JSON
  fields) and the registration of the types in \<^verbatim>\<open>groupversion_info.go\<close> and in \<^verbatim>\<open>init\<close> of
  \<^verbatim>\<open>cmd/main.go\<close>.
\<close>

section \<open>Constants\<close>

definition ConditionReady :: string where
  "ConditionReady = ''Ready''"
definition PhasePending :: string where
  "PhasePending = ''Pending''"
definition PhaseReady :: string where
  "PhaseReady = ''Ready''"
definition PhaseError :: string where
  "PhaseError = ''Error''"

definition APIGroup :: string where
  "APIGroup = ''iam.thalassa.cloud''"
definition APIVersion :: string where
  "APIVersion = ''v1beta1''"

type_synonym group_version = "string \<times> string"

definition GroupVersion :: group_version where
  "GroupVersion = (APIGroup, APIVersion)"

section \<open>Registration\<close>

datatype object_type = WorkloadIdentityBindingType | WorkloadIdentityBindingListType

text \<open>The package variable \<^verbatim>\<open>objectTypes\<close> after the \<^verbatim>\<open>init\<close> of the types' file.\<close>

definition init_types :: "object_type list \<Rightarrow> object_type list" where
  "init_types objs = objs @ [WorkloadIdentityBindingType, WorkloadIdentityBindingListType]"

definition objectTypes :: "object_type list" where
  "objectTypes = init_types []"

text \<open>
  The operations of \<^verbatim>\<open>k8s.io/apimachinery\<close> and \<^verbatim>\<open>client-go\<close> on a scheme \<open>'s\<close>, which may panic:
  \<open>so_builder\<close> is \<^verbatim>\<open>SchemeBuilder.AddToScheme\<close> of a builder made of some functions.
\<close>

record 's scheme_ops =
  so_AddKnownTypes :: "group_version \<Rightarrow> object_type list \<Rightarrow> (unit, 's) prog"
  so_AddToGroupVersion :: "group_version \<Rightarrow> (unit, 's) prog"
  so_builder :: "(unit, 's) prog list \<Rightarrow> (unit, 's) prog"
  so_clientgo :: "(unit, 's) prog"
  so_corev1 :: "(unit, 's) prog"
  so_Must :: "error option \<Rightarrow> (unit, 's) prog"

definition addKnownTypes :: "'s scheme_ops \<Rightarrow> (unit, 's) prog" where
  "addKnownTypes ops =
     bindE (so_AddKnownTypes ops GroupVersion objectTypes) (\<lambda>_.
     bindE (so_AddToGroupVersion ops GroupVersion) (\<lambda>_.
     okE ()))"

definition AddToScheme :: "'s scheme_ops \<Rightarrow> (unit, 's) prog" where
  "AddToScheme ops = so_builder ops [addKnownTypes ops]"

text \<open>\<^verbatim>\<open>utilruntime.Must(f(scheme))\<close>\<close>

definition mustE :: "'s scheme_ops \<Rightarrow> (unit, 's) prog \<Rightarrow> (unit, 's) prog" where
  "mustE ops f = tryE f (\<lambda>r. so_Must ops (case r of Inl e \<Rightarrow> Some e | Inr _ \<Rightarrow> None))"

definition scheme_init :: "'s scheme_ops \<Rightarrow> (unit, 's) prog" where
  "scheme_init ops =
     bindE (mustE ops (so_clientgo ops)) (\<lambda>_.
     bindE (mustE ops (so_corev1 ops)) (\<lambda>_.
     mustE ops (AddToScheme ops)))"

text \<open>The functions of a builder run in order, and the first error ends the registration.\<close>

primrec run_all :: "(unit, 's) prog list \<Rightarrow> (unit, 's) prog" where
  "run_all [] = okE ()"
| "run_all (f # fs) = bindE f (\<lambda>_. run_all fs)"

text \<open>
  When \<^verbatim>\<open>init\<close> returns, the scheme knows both types under the group and version of the API;
  otherwise the process has panicked, and \<^verbatim>\<open>main\<close> does not run.
\<close>

lemma scheme_init_registers:
  assumes builder: "\<And>fs. so_builder ops fs = run_all fs"
    and added: "\<And>gv ts s s'. so_AddKnownTypes ops gv ts s = (Ok (), s') \<Longrightarrow> \<forall>t \<in> set ts. known s' gv t"
    and kept: "\<And>gv gv' t s s'. so_AddToGroupVersion ops gv s = (Ok (), s') \<Longrightarrow> known s gv' t \<Longrightarrow> known s' gv' t"
    and must: "\<And>s. so_Must ops None s = (Ok (), s)" "\<And>e s. so_Must ops (Some e) s = (Panic, s)"
  shows "case scheme_init ops s of
      (Ok _, s') \<Rightarrow> known s' GroupVersion WorkloadIdentityBindingType \<and>
        known s' GroupVersion WorkloadIdentityBindingListType
    | (Err _, _) \<Rightarrow> False
    | (Panic, _) \<Rightarrow> True"
proof -
  have must_cases: "mustE ops f s =
      (case f s of (Ok _, s') \<Rightarrow> (Ok (), s') | (_, s') \<Rightarrow> (Panic, s'))" for f s
    by (simp add: mustE_def tryE_def must split: prod.splits result.splits)
  have "known s' GroupVersion t" if "addKnownTypes ops s1 = (Ok u, s')" "t \<in> set objectTypes" for s1 s' t u
    using that added kept
    by (auto simp: addKnownTypes_def bindE_def okE_def split: prod.splits result.splits)
  then show ?thesis
    by (auto simp: scheme_init_def bindE_def must_cases AddToScheme_def builder okE_def objectTypes_def init_types_def
        split: prod.splits result.splits)
qed

section \<open>A submitted binding\<close>

text \<open>
  The fields of a binding as JSON carries them: a field may be absent. \<open>default_fields\<close> is the
  marker \<^verbatim>\<open>+kubebuilder:default\<close>, \<open>crd_admits\<close> are the markers \<^verbatim>\<open>MinLength\<close> and \<^verbatim>\<open>XValidation\<close>
  (a string is its UTF-8 bytes, which are empty when its \<^verbatim>\<open>size\<close> is zero).
\<close>

record submitted =
  js_serviceAccountName :: "string option"
  js_policyRef :: "string option"
  js_roleRef :: "string option"
  js_scopes :: "string list option"
  js_nameOverride :: "string option"
  js_deleteResources :: "bool option"
  js_identityConfigMap :: "bool option"

definition default_fields :: "submitted \<Rightarrow> submitted" where
  "default_fields s =
     (case js_scopes s of None \<Rightarrow> s\<lparr>js_scopes := Some [''openid'']\<rparr> | Some _ \<Rightarrow> s)"

definition crd_admits :: "submitted \<Rightarrow> bool" where
  "crd_admits s \<longleftrightarrow>
     (case js_serviceAccountName s of None \<Rightarrow> False | Some n \<Rightarrow> length n \<ge> 1) \<and>
     ((case js_policyRef s of None \<Rightarrow> False | Some p \<Rightarrow> length p > 0) \<or>
      (case js_roleRef s of None \<Rightarrow> False | Some r \<Rightarrow> length r > 0)) \<and>
     (case js_policyRef s of None \<Rightarrow> True | Some p \<Rightarrow> p \<noteq> ''*'') \<and>
     (case js_roleRef s of None \<Rightarrow> True | Some r \<Rightarrow> r \<noteq> ''*'') \<and>
     (case js_scopes s of None \<Rightarrow> True | Some xs \<Rightarrow> list_all (\<lambda>x. x \<noteq> ''*'') xs)"

text \<open>An absent field decodes to the zero value.\<close>

definition or_zero :: "'a \<Rightarrow> 'a option \<Rightarrow> 'a" where
  "or_zero z x = (case x of None \<Rightarrow> z | Some y \<Rightarrow> y)"

definition decode_fields :: "WorkloadIdentityBinding \<Rightarrow> submitted \<Rightarrow> WorkloadIdentityBinding" where
  "decode_fields b s = b\<lparr>
     wib_ServiceAccountName := or_zero [] (js_serviceAccountName s),
     wib_PolicyRef := or_zero [] (js_policyRef s),
     wib_RoleRef := or_zero [] (js_roleRef s),
     wib_Scopes := or_zero [] (js_scopes s),
     wib_NameOverride := or_zero [] (js_nameOverride s),
     wib_DeleteResources := or_zero False (js_deleteResources s),
     wib_IdentityConfigMap := or_zero False (js_identityConfigMap s)\<rparr>"

text \<open>With \<^verbatim>\<open>omitempty\<close> (every field but the name) the zero value is left out.\<close>

definition omitempty :: "'a \<Rightarrow> 'a \<Rightarrow> 'a option" where
  "omitempty z x = (if x = z then None else Some x)"

definition encode_fields :: "WorkloadIdentityBinding \<Rightarrow> submitted" where
  "encode_fields b = \<lparr>
     js_serviceAccountName = Some (wib_ServiceAccountName b),
     js_policyRef = omitempty [] (wib_PolicyRef b),
     js_roleRef = omitempty [] (wib_RoleRef b),
     js_scopes = omitempty [] (wib_Scopes b),
     js_nameOverride = omitempty [] (wib_NameOverride b),
     js_deleteResources = omitempty False (wib_DeleteResources b),
     js_identityConfigMap = omitempty False (wib_IdentityConfigMap b)\<rparr>"

text \<open>What the API server stores of a request, when it does.\<close>

definition admit :: "submitted \<Rightarrow> submitted option" where
  "admit s = (let s = default_fields s in if crd_admits s then Some s else None)"

section \<open>Facts\<close>

lemma or_zero_omitempty [simp]: "or_zero z (omitempty z x) = x"
  by (simp add: or_zero_def omitempty_def)

lemma or_zero_Some [simp]: "or_zero z (Some x) = x"
  by (simp add: or_zero_def)

lemma decode_encode: "decode_fields b (encode_fields b) = b"
  by (simp add: decode_fields_def encode_fields_def)

lemma decode_decode: "decode_fields (decode_fields b t) s = decode_fields b s"
  by (simp add: decode_fields_def)

text \<open>A binding written back: its empty list of scopes becomes the default.\<close>

lemma default_encode:
  "default_fields (encode_fields c) =
     (encode_fields c)\<lparr>js_scopes := Some (if wib_Scopes c = [] then [''openid''] else wib_Scopes c)\<rparr>"
  by (simp add: default_fields_def encode_fields_def omitempty_def)

lemma decode_default_encode:
  "decode_fields c (default_fields (encode_fields c)) =
     c\<lparr>wib_Scopes := if wib_Scopes c = [] then [''openid''] else wib_Scopes c\<rparr>"
  unfolding default_encode by (simp add: decode_fields_def encode_fields_def)

lemma decode_rewritten:
  "decode_fields b (default_fields (encode_fields (decode_fields b t))) =
     (let c = decode_fields b t in c\<lparr>wib_Scopes := if wib_Scopes c = [] then [''openid''] else wib_Scopes c\<rparr>)"
  using decode_default_encode [of "decode_fields b t"] by (simp only: decode_decode Let_def)

lemma ParseScopeList_default: "ParseScopeList k [''openid''] = ParseScopeList k []"
proof -
  have "TrimSpace ''openid'' = ''openid''" by code_simp
  then show ?thesis
    by (simp add: ParseScopeList_def knownScope_def AccessCredentialsScopeOpenID_def Let_def)
qed

text \<open>A scope that parses is not the wildcard.\<close>

lemma no_wildcard_scope:
  assumes "ParseScopeList k parts = Inr r"
  shows "list_all (\<lambda>x. x \<noteq> ''*'') parts"
proof -
  have star: "TrimSpace ''*'' = ''*''" by code_simp
  have "list_all (\<lambda>x. x \<noteq> ''*'') ps" if "scope_loop k ps seen out = Inr r" for ps seen out r
    using that
  proof (induction k ps seen out rule: scope_loop.induct)
    case (2 k p ps seen out)
    then have "p \<noteq> ''*''" using star by auto
    with 2 show ?case by (auto simp: Let_def split: if_splits option.splits)
  qed simp
  with assms show ?thesis by (auto simp: ParseScopeList_def split: sum.splits)
qed

lemma trim_star: "TrimSpace ''*'' = ''*''"
  by code_simp

definition trimmed :: "string \<Rightarrow> bool" where
  "trimmed s \<longleftrightarrow> TrimSpace s = s"

lemma scope_names_trimmed: "list_all trimmed xs \<Longrightarrow> scope_names xs = filter (\<lambda>x. x \<noteq> []) xs"
  by (induction xs) (auto simp: scope_names_def trimmed_def)

section \<open>Properties\<close>

text \<open>
  C27: admission and reconciliation agree on what a good binding is: a binding whose
  specification and scopes the reconciler accepts is one the API server admits; and an admitted one whose
  fields carry no surrounding space and whose scopes are known is accepted. (With space around
  them, a blank reference or a wildcard passes admission and is refused by the reconciler.)
\<close>

theorem admission_matches_validation:
  assumes "TrimSpace (wib_Namespace b) \<noteq> []"
    and "d = desired_of (decode_fields b (default_fields s))"
  shows "(validateDesired d = None \<and> ParseScopeList k (des_Scopes d) = Inr scopes \<longrightarrow> admit s \<noteq> None) \<and>
    (admit s \<noteq> None \<and> list_all trimmed (des_ServiceAccount d # des_PolicyRef d # des_RoleRef d # des_Scopes d) \<and>
       list_all (\<lambda>x. x = [] \<or> knownScope k x \<noteq> None) (des_Scopes d) \<longrightarrow>
     validateDesired d = None \<and> (\<exists>xs. ParseScopeList k (des_Scopes d) = Inr xs))"
proof (intro conjI impI)
  assume ok: "validateDesired d = None \<and> ParseScopeList k (des_Scopes d) = Inr scopes"
  have "list_all (\<lambda>x. x \<noteq> ''*'') (des_Scopes d)" using no_wildcard_scope ok by blast
  with ok show "admit s \<noteq> None"
    by (auto simp: assms(2) admit_def crd_admits_def default_fields_def desired_of_def decode_fields_def or_zero_def
        validateDesired_def trim_star Suc_le_eq Let_def split: option.splits if_splits)
next
  assume a: "admit s \<noteq> None \<and> list_all trimmed (des_ServiceAccount d # des_PolicyRef d # des_RoleRef d # des_Scopes d) \<and>
    list_all (\<lambda>x. x = [] \<or> knownScope k x \<noteq> None) (des_Scopes d)"
  then show "validateDesired d = None"
    using assms(1)
    by (auto simp: assms(2) admit_def crd_admits_def default_fields_def desired_of_def decode_fields_def or_zero_def
        validateDesired_def trimmed_def Let_def split: option.splits if_splits)
  have "list_all (\<lambda>x. x \<noteq> ''*'') (des_Scopes d)"
    using a by (auto simp: assms(2) admit_def crd_admits_def default_fields_def desired_of_def decode_fields_def or_zero_def
        Let_def split: option.splits if_splits)
  with a show "\<exists>xs. ParseScopeList k (des_Scopes d) = Inr xs"
    by (auto simp: ParseScopeList_returns scope_names_trimmed scope_ok_def list_all_iff)
qed

definition demo_meta_binding :: WorkloadIdentityBinding where
  "demo_meta_binding = \<lparr>wib_Namespace = ''ns'', wib_Name = ''b'', wib_Generation = 1, wib_Finalizers = [],
     wib_Deleting = False, wib_ServiceAccountName = [], wib_PolicyRef = [], wib_RoleRef = [], wib_Scopes = [],
     wib_NameOverride = [], wib_DeleteResources = False, wib_IdentityConfigMap = False,
     wib_Status = \<lparr>st_Phase = [], st_ServiceAccountID = [], st_FederatedIdentityID = [], st_ProviderID = [],
       st_PolicyID = [], st_OrganisationID = [], st_ProjectID = [], st_ObservedGeneration = 0,
       st_LastReconcileTime = None, st_Conditions = []\<rparr>\<rparr>"

definition demo_submission :: submitted where
  "demo_submission = \<lparr>js_serviceAccountName = Some ''app'', js_policyRef = Some ''obs-write'', js_roleRef = None,
     js_scopes = None, js_nameOverride = None, js_deleteResources = Some True, js_identityConfigMap = None\<rparr>"

lemma demo_submission_facts:
  "TrimSpace (wib_Namespace demo_meta_binding) \<noteq> []"
  "validateDesired (desired_of (decode_fields demo_meta_binding (default_fields demo_submission))) = None"
  "ParseScopeList k (des_Scopes (desired_of (decode_fields demo_meta_binding (default_fields demo_submission)))) =
     Inr [''openid'']"
  "admit demo_submission = Some (default_fields demo_submission)"
proof -
  show "TrimSpace (wib_Namespace demo_meta_binding) \<noteq> []"
    "validateDesired (desired_of (decode_fields demo_meta_binding (default_fields demo_submission))) = None"
    "admit demo_submission = Some (default_fields demo_submission)"
    by code_simp+
  have "des_Scopes (desired_of (decode_fields demo_meta_binding (default_fields demo_submission))) = [''openid'']"
    by code_simp
  then show "ParseScopeList k (des_Scopes (desired_of (decode_fields demo_meta_binding (default_fields demo_submission)))) =
     Inr [''openid'']"
    by (simp add: ParseScopeList_default) (simp add: ParseScopeList_def AccessCredentialsScopeOpenID_def)
qed

theorem admission_matches_validation_witness:
  "admit demo_submission \<noteq> None \<and>
   admit (demo_submission\<lparr>js_policyRef := Some '' * ''\<rparr>) \<noteq> None \<and>
   validateDesired (desired_of (decode_fields demo_meta_binding
     (default_fields (demo_submission\<lparr>js_policyRef := Some '' * ''\<rparr>)))) =
     Some (ErrMsg ''wildcard policy/role is not allowed'')"
proof (intro conjI)
  show "admit demo_submission \<noteq> None"
    using admission_matches_validation [OF demo_submission_facts(1) refl, of demo_submission] demo_submission_facts(2,3)
    by blast
qed (code_simp+)

text \<open>
  C28: the controller's own writes pass admission: a binding that was admitted, decoded and
  written back by the controller (which leaves out zero values) is admitted again, asks for the
  same, with the same scopes once parsed (an empty list of scopes comes back as the default),
  and a further write changes nothing.
\<close>

theorem rewrites_admitted:
  assumes "admit s = Some t"
  shows "\<exists>t'. admit (encode_fields (decode_fields b t)) = Some t' \<and>
    (let d = desired_of (decode_fields b t); d' = desired_of (decode_fields b t') in
       d' = d\<lparr>des_Scopes := des_Scopes d'\<rparr> \<and>
       des_Scopes d' = (if des_Scopes d = [] then [''openid''] else des_Scopes d) \<and>
       ParseScopeList k (des_Scopes d') = ParseScopeList k (des_Scopes d)) \<and>
    admit (encode_fields (decode_fields b t')) = Some t'"
proof -
  from assms have t: "t = default_fields s" "crd_admits t"
    by (auto simp: admit_def Let_def split: if_splits)
  have stored: "admit (encode_fields (decode_fields b t)) = Some (default_fields (encode_fields (decode_fields b t)))"
    using t(2)
    by (auto simp: admit_def crd_admits_def default_fields_def encode_fields_def decode_fields_def omitempty_def
        or_zero_def Let_def split: option.splits)
  let ?t = "default_fields (encode_fields (decode_fields b t))"
  have "default_fields (encode_fields (decode_fields b ?t)) = ?t"
    unfolding decode_rewritten Let_def
    by (simp add: default_encode [of "decode_fields b t"] default_encode [of "(decode_fields b t)\<lparr>wib_Scopes := xs\<rparr>" for xs])
      (simp add: encode_fields_def)
  with stored have "admit (encode_fields (decode_fields b ?t)) = Some ?t"
    by (simp add: admit_def Let_def split: if_splits)
  with stored show ?thesis
    by (intro exI [of _ ?t]) (simp add: decode_rewritten desired_of_def ParseScopeList_default Let_def)
qed

theorem rewrites_admitted_witness:
  "admit (encode_fields (decode_fields demo_meta_binding (default_fields demo_submission))) \<noteq> None"
  using rewrites_admitted [OF demo_submission_facts(4), of demo_meta_binding] by auto

end
