(* ===== verification/ThalassaClient.thy ===== *)
theory ThalassaClient
  imports Config
begin

text \<open>
  \<^verbatim>\<open>internal/thalassa/client.go\<close>: the options with which the controller builds its API client.
  The client library is outside the repository: its options are constructors and its
  constructor is the parameter \<open>new_client\<close>.
\<close>

record OIDCTokenExchangeConfig =
  tx_TokenURL :: string
  tx_SubjectTokenFile :: string
  tx_OrganisationID :: string
  tx_ServiceAccountID :: string

datatype client_option =
    WithBaseURL string
  | WithOrganisation string
  | WithUserAgent string
  | WithAuthOIDCTokenExchange OIDCTokenExchangeConfig
  | WithProject string

definition fallbackSubjectTokenFile :: string where
  "fallbackSubjectTokenFile = ''/var/run/secrets/thalassa/token''"

definition client_options :: "Config \<Rightarrow> client_option list" where
  "client_options cfg =
     (let baseURL = NormalizeURL (cfg_ThalassaURL cfg);
          tokenURL = baseURL @ ''/oidc/token'';
          subjectFile = TrimSpace (cfg_SubjectTokenFile cfg);
          subjectFile = (if subjectFile = [] then fallbackSubjectTokenFile else subjectFile);
          opts = [
            WithBaseURL baseURL,
            WithOrganisation (cfg_OrganisationID cfg),
            WithUserAgent ''thalassa-workload-identity-controller/0.1.0'',
            WithAuthOIDCTokenExchange \<lparr>
              tx_TokenURL = tokenURL,
              tx_SubjectTokenFile = subjectFile,
              tx_OrganisationID = cfg_OrganisationID cfg,
              tx_ServiceAccountID = cfg_ControllerServiceAccount cfg\<rparr>];
          project = TrimSpace (cfg_ProjectIdentity cfg)
      in if project \<noteq> [] then opts @ [WithProject project] else opts)"

definition NewClient :: "(client_option list \<Rightarrow> error + 'c) \<Rightarrow> Config \<Rightarrow> error + 'c" where
  "NewClient new_client cfg =
     (case new_client (client_options cfg) of
        Inl err \<Rightarrow> Inl (ErrWrap ''create thalassa client'' err)
      | Inr tc \<Rightarrow> Inr tc)"

end
