(* ===== verification/Startup.thy ===== *)
theory Startup
  imports ThalassaClient
begin

text \<open>
  \<^verbatim>\<open>cmd/main.go\<close>: from the parsed command line to the configuration, the manager and what is
  registered with it, and the readiness check of the webhook's certificate. The API client
  library, the manager and its registrations are outside the repository: they are the
  parameters in \<open>startup_env\<close>, each with the error it may return.
\<close>

fun csv_loop :: "string list \<Rightarrow> string list" where
  "csv_loop [] = []"
| "csv_loop (p # ps) = (let p = TrimSpace p in if p \<noteq> [] then p # csv_loop ps else csv_loop ps)"

definition splitCSV :: "string \<Rightarrow> string list" where
  "splitCSV raw =
     (let raw = TrimSpace raw in
      if raw = [] then [] else csv_loop (Split raw CHR '',''))"

text \<open>The values of the flags after \<^verbatim>\<open>flag.Parse\<close>.\<close>

record flags =
  f_metricsAddr :: string
  f_probeAddr :: string
  f_secureMetrics :: bool
  f_enableLeaderElection :: bool
  f_thalassaURL :: string
  f_organisation :: string
  f_projectIdentity :: string
  f_clusterIdentity :: string
  f_serviceAccountID :: string
  f_subjectTokenFile :: string
  f_trustedAudiencesRaw :: string
  f_watchNamespacesRaw :: string
  f_requeueMissingIDP :: int
  f_enableServiceAccountAnnotations :: bool
  f_enableIdentityConfigMap :: bool
  f_enableControllers :: bool
  f_enablePodMutator :: bool
  f_webhookCertDir :: string
  f_webhookPort :: int
  f_webhookAudience :: string
  f_allowedPoliciesRaw :: string
  f_allowedRolesRaw :: string

definition defaultWebhookCertDir :: string where
  "defaultWebhookCertDir = ''/tmp/k8s-webhook-server/serving-certs''"
definition defaultWebhookPort :: int where "defaultWebhookPort = 9443"
definition podMutatorPath :: string where
  "podMutatorPath = ''/mutate-v1-pod''"

text \<open>The flags' declared defaults.\<close>

definition default_flags :: flags where
  "default_flags = \<lparr>
     f_metricsAddr = DefaultMetricsAddr,
     f_probeAddr = DefaultProbeAddr,
     f_secureMetrics = True,
     f_enableLeaderElection = True,
     f_thalassaURL = DefaultThalassaURL,
     f_organisation = [],
     f_projectIdentity = [],
     f_clusterIdentity = [],
     f_serviceAccountID = [],
     f_subjectTokenFile = ''/var/run/secrets/thalassa/token'',
     f_trustedAudiencesRaw = [],
     f_watchNamespacesRaw = [],
     f_requeueMissingIDP = DefaultRequeueMissingIDP,
     f_enableServiceAccountAnnotations = False,
     f_enableIdentityConfigMap = False,
     f_enableControllers = True,
     f_enablePodMutator = False,
     f_webhookCertDir = defaultWebhookCertDir,
     f_webhookPort = defaultWebhookPort,
     f_webhookAudience = DefaultWebhookAudience,
     f_allowedPoliciesRaw = [],
     f_allowedRolesRaw = []\<rparr>"

definition flags_config :: "flags \<Rightarrow> Config" where
  "flags_config f = \<lparr>
     cfg_ThalassaURL = NormalizeURL (f_thalassaURL f),
     cfg_OrganisationID = TrimSpace (f_organisation f),
     cfg_ProjectIdentity = TrimSpace (f_projectIdentity f),
     cfg_ClusterIdentity = TrimSpace (f_clusterIdentity f),
     cfg_ControllerServiceAccount = TrimSpace (f_serviceAccountID f),
     cfg_SubjectTokenFile = TrimSpace (f_subjectTokenFile f),
     cfg_TrustedAudiences = splitCSV (f_trustedAudiencesRaw f),
     cfg_WatchNamespaces = splitCSV (f_watchNamespacesRaw f),
     cfg_AllowedPolicies = splitCSV (f_allowedPoliciesRaw f),
     cfg_AllowedRoles = splitCSV (f_allowedRolesRaw f),
     cfg_ProbeAddr = f_probeAddr f,
     cfg_MetricsAddr = f_metricsAddr f,
     cfg_EnableLeaderElection = f_enableLeaderElection f,
     cfg_RequeueMissingIDP = f_requeueMissingIDP f,
     cfg_EnableServiceAccountAnnotations = f_enableServiceAccountAnnotations f,
     cfg_EnableIdentityConfigMap = f_enableIdentityConfigMap f,
     cfg_EnableControllers = f_enableControllers f,
     cfg_EnablePodMutator = f_enablePodMutator f,
     cfg_WebhookCertDir = TrimSpace (f_webhookCertDir f),
     cfg_WebhookPort = f_webhookPort f,
     cfg_WebhookAudience = TrimSpace (f_webhookAudience f)\<rparr>"

text \<open>The three adjustments between building the configuration and validating it.\<close>

definition adjust_config :: "Config \<Rightarrow> Config" where
  "adjust_config cfg =
     (let cfg = (if cfg_EnableControllers cfg \<and> length (cfg_TrustedAudiences cfg) = 0
                 then cfg\<lparr>cfg_TrustedAudiences := [cfg_ThalassaURL cfg]\<rparr> else cfg);
          cfg = (if cfg_WebhookAudience cfg = []
                 then cfg\<lparr>cfg_WebhookAudience := ResolveWebhookAudience cfg\<rparr> else cfg);
          cfg = (if cfg_EnablePodMutator cfg \<and> \<not> cfg_EnableControllers cfg
                 then cfg\<lparr>cfg_EnableLeaderElection := False\<rparr> else cfg)
      in cfg)"

text \<open>The options of the manager; the cache of all namespaces is the empty list.\<close>

record manager_options =
  mo_MetricsBindAddress :: string
  mo_MetricsSecureServing :: bool
  mo_MetricsAuthFilter :: bool
  mo_HealthProbeBindAddress :: string
  mo_LeaderElection :: bool
  mo_LeaderElectionID :: string
  mo_WebhookServer :: "(int \<times> string) option"
  mo_CacheNamespaces :: "string list"

definition manager_options_of :: "flags \<Rightarrow> Config \<Rightarrow> manager_options" where
  "manager_options_of f cfg = \<lparr>
     mo_MetricsBindAddress = f_metricsAddr f,
     mo_MetricsSecureServing = f_secureMetrics f,
     mo_MetricsAuthFilter = f_secureMetrics f,
     mo_HealthProbeBindAddress = f_probeAddr f,
     mo_LeaderElection = cfg_EnableLeaderElection cfg,
     mo_LeaderElectionID = ''thalassa-workload-identity-controller'',
     mo_WebhookServer =
       (if cfg_EnablePodMutator cfg then Some (cfg_WebhookPort cfg, cfg_WebhookCertDir cfg) else None),
     mo_CacheNamespaces =
       (if cfg_EnableControllers cfg \<and> length (cfg_WatchNamespaces cfg) > 0
        then cfg_WatchNamespaces cfg else [])\<rparr>"

text \<open>What \<^verbatim>\<open>main\<close> registers with the manager, in its order.\<close>

datatype component =
    BindingReconciler
  | AccountReconciler
  | PodMutatorWebhook string string
  | HealthzPing
  | ReadyzPing
  | WebhookCertCheck string

definition registrations :: "Config \<Rightarrow> component list" where
  "registrations cfg =
     (if cfg_EnableControllers cfg
      then BindingReconciler # (if cfg_EnableServiceAccountAnnotations cfg then [AccountReconciler] else [])
      else []) @
     (if cfg_EnablePodMutator cfg then [PodMutatorWebhook podMutatorPath (ResolveWebhookAudience cfg)] else []) @
     [HealthzPing, ReadyzPing] @
     (if cfg_EnablePodMutator cfg then [WebhookCertCheck (cfg_WebhookCertDir cfg)] else [])"

fun setup_error :: "component \<Rightarrow> string" where
  "setup_error BindingReconciler = ''unable to create controller''"
| "setup_error AccountReconciler = ''unable to create controller''"
| "setup_error (PodMutatorWebhook _ _) = []"
| "setup_error HealthzPing = ''unable to set up health check''"
| "setup_error ReadyzPing = ''unable to set up ready check''"
| "setup_error (WebhookCertCheck _) = ''unable to set up webhook cert ready check''"

text \<open>Registering the webhook's handler cannot fail.\<close>

fun register_all :: "(component \<Rightarrow> error option) \<Rightarrow> component list \<Rightarrow> (string \<times> error) option" where
  "register_all reg [] = None"
| "register_all reg (PodMutatorWebhook path aud # cs) = register_all reg cs"
| "register_all reg (x # cs) =
     (case reg x of Some e \<Rightarrow> Some (setup_error x, e) | None \<Rightarrow> register_all reg cs)"

text \<open>
  \<^verbatim>\<open>main\<close> up to the point where it runs the manager: exit status 1 with the logged message and
  error, or the configuration, the API client, the manager's options and the registrations.
\<close>

record 'c startup_env =
  env_parse_uri :: uri_parser
  env_new_client :: "client_option list \<Rightarrow> error + 'c"
  env_new_manager :: "manager_options \<Rightarrow> error option"
  env_register :: "component \<Rightarrow> error option"

definition start ::
    "'c startup_env \<Rightarrow> flags \<Rightarrow>
     (string \<times> error) + Config \<times> 'c option \<times> manager_options \<times> component list" where
  "start env f =
     (let cfg = adjust_config (flags_config f) in
      case Validate (env_parse_uri env) cfg of
        Some err \<Rightarrow> Inl (''invalid configuration'', err)
      | None \<Rightarrow>
          (case (if cfg_EnableControllers cfg then map_sum id Some (NewClient (env_new_client env) cfg)
                 else Inr None) of
             Inl err \<Rightarrow> Inl (''unable to create Thalassa client'', err)
           | Inr tc \<Rightarrow>
               (let opts = manager_options_of f cfg in
                case env_new_manager env opts of
                  Some err \<Rightarrow> Inl (''unable to start manager'', err)
                | None \<Rightarrow>
                    (case register_all (env_register env) (registrations cfg) of
                       Some err \<Rightarrow> Inl err
                     | None \<Rightarrow> Inr (cfg, tc, opts, registrations cfg)))))"

text \<open>
  The readiness check: \<open>stat\<close> is \<^verbatim>\<open>os.Stat\<close>, \<open>Some\<close> its error.
\<close>

definition webhookCertReady :: "(string \<Rightarrow> string option) \<Rightarrow> string \<Rightarrow> error option" where
  "webhookCertReady stat certDir =
     (case stat (JoinPath certDir ''tls.crt'') of
        Some t \<Rightarrow> Some (ErrWrap ''webhook tls.crt not ready'' (ErrMsg t))
      | None \<Rightarrow>
          (case stat (JoinPath certDir ''tls.key'') of
             Some t \<Rightarrow> Some (ErrWrap ''webhook tls.key not ready'' (ErrMsg t))
           | None \<Rightarrow> None))"

section \<open>Facts\<close>

lemma csv_loop_eq: "csv_loop ps = filter (\<lambda>p. p \<noteq> []) (map TrimSpace ps)"
  by (induction ps) (simp_all add: Let_def)

lemma splitCSV_entries: "p \<in> set (splitCSV raw) \<Longrightarrow> p \<noteq> [] \<and> TrimSpace p = p"
  by (auto simp: splitCSV_def csv_loop_eq Let_def split: if_splits)

lemma splitCSV_no_comma: "p \<in> set (splitCSV raw) \<Longrightarrow> CHR '','' \<notin> set p"
proof -
  have split: "q \<in> set (Split s c) \<Longrightarrow> c \<notin> set q" for q s c
    by (induction s c arbitrary: q rule: Split.induct) (auto split: if_splits list.splits)
  assume "p \<in> set (splitCSV raw)"
  then obtain q where "q \<in> set (Split (TrimSpace raw) CHR '','')" "p = TrimSpace q"
    by (auto simp: splitCSV_def csv_loop_eq Let_def split: if_splits)
  with split [of q] set_TrimSpace [of q] show ?thesis by blast
qed

text \<open>Entries that are trimmed, not blank and free of commas survive the round trip.\<close>

lemma splitCSV_Join:
  assumes "ps \<noteq> []"
    and "list_all (\<lambda>p. p \<noteq> [] \<and> list_all (\<lambda>c. plain_char c \<and> c \<noteq> CHR '','') p) ps"
  shows "splitCSV (Join ps CHR '','') = ps"
proof -
  have ends: "ps \<noteq> [] \<Longrightarrow>
      list_all (\<lambda>p. p \<noteq> [] \<and> list_all (\<lambda>c. plain_char c \<and> c \<noteq> CHR '','') p) ps \<Longrightarrow>
      Join ps c \<noteq> [] \<and> plain_char (hd (Join ps c)) \<and> plain_char (last (Join ps c))" for c
    by (induction ps c rule: Join.induct) (auto simp: list_all_iff)
  from ends [OF assms] have "Join ps CHR '','' \<noteq> []"
    and "TrimSpace (Join ps CHR '','') = Join ps CHR '',''"
    by (auto intro: TrimSpace_plain)
  moreover have "Split (Join ps CHR '','') CHR '','' = ps"
    using assms by (intro Split_Join) (auto simp: list_all_iff)
  moreover have "csv_loop ps = ps"
    using assms(2) by (induction ps) (auto simp: Let_def list_all_iff TrimSpace_plain)
  ultimately show ?thesis by (simp add: splitCSV_def)
qed

lemma adjust_config_fields [simp]:
  "cfg_ThalassaURL (adjust_config c) = cfg_ThalassaURL c"
  "cfg_OrganisationID (adjust_config c) = cfg_OrganisationID c"
  "cfg_ProjectIdentity (adjust_config c) = cfg_ProjectIdentity c"
  "cfg_ClusterIdentity (adjust_config c) = cfg_ClusterIdentity c"
  "cfg_WatchNamespaces (adjust_config c) = cfg_WatchNamespaces c"
  "cfg_AllowedPolicies (adjust_config c) = cfg_AllowedPolicies c"
  "cfg_AllowedRoles (adjust_config c) = cfg_AllowedRoles c"
  "cfg_EnableControllers (adjust_config c) = cfg_EnableControllers c"
  "cfg_EnablePodMutator (adjust_config c) = cfg_EnablePodMutator c"
  "cfg_TrustedAudiences (adjust_config c) =
     (if cfg_EnableControllers c \<and> cfg_TrustedAudiences c = [] then [cfg_ThalassaURL c]
      else cfg_TrustedAudiences c)"
  "cfg_EnableLeaderElection (adjust_config c) \<longleftrightarrow>
     cfg_EnableLeaderElection c \<and> \<not> (cfg_EnablePodMutator c \<and> \<not> cfg_EnableControllers c)"
  by (auto simp: adjust_config_def Let_def)

lemma start_ok:
  assumes "start env f = Inr (cfg, tc, opts, comps)"
  shows "cfg = adjust_config (flags_config f)" and "Validate (env_parse_uri env) cfg = None"
    and "opts = manager_options_of f cfg" and "comps = registrations cfg"
    and "env_new_manager env opts = None" and "register_all (env_register env) comps = None"
    and "(case tc of None \<Rightarrow> \<not> cfg_EnableControllers cfg
          | Some c \<Rightarrow> cfg_EnableControllers cfg \<and> env_new_client env (client_options cfg) = Inr c)"
  using assms by (auto simp: start_def NewClient_def Let_def split: option.splits sum.splits if_splits)

end
