(* ===== verification/GoFlags.thy ===== *)
theory GoFlags
  imports Startup
begin

text \<open>
  The parts of Go's library that read a command line: \<^verbatim>\<open>strconv.ParseBool\<close> and \<^verbatim>\<open>ParseInt\<close>,
  \<^verbatim>\<open>time.ParseDuration\<close> with its fractions in double precision, and the parser of the package
  \<^verbatim>\<open>flag\<close>. Its state \<open>'s\<close> is the variables the flags are bound to.
\<close>

section \<open>Booleans and integers\<close>

definition parse_bool :: "string \<Rightarrow> bool option" where
  "parse_bool s =
     (if s \<in> {''1'', ''t'', ''T'', ''TRUE'', ''true'', ''True''} then Some True
      else if s \<in> {''0'', ''f'', ''F'', ''FALSE'', ''false'', ''False''} then Some False
      else None)"

definition lower_byte :: "char \<Rightarrow> nat" where
  "lower_byte c = (let n = of_char c in if n div 32 mod 2 = 0 then n + 32 else n)"

definition is_digit :: "char \<Rightarrow> bool" where
  "is_digit c \<longleftrightarrow> 48 \<le> (of_char c :: nat) \<and> (of_char c :: nat) \<le> 57"

definition digit_of :: "char \<Rightarrow> nat" where
  "digit_of c = of_char c - 48"

definition digit_value :: "char \<Rightarrow> nat option" where
  "digit_value c =
     (if is_digit c then Some (digit_of c)
      else if 97 \<le> lower_byte c \<and> lower_byte c \<le> 122 then Some (lower_byte c - 97 + 10)
      else None)"

datatype num_error = ErrSyntax | ErrRange

text \<open>The loop of \<^verbatim>\<open>ParseUint\<close>; the result says whether an underscore was seen.\<close>

fun uint_loop :: "nat \<Rightarrow> string \<Rightarrow> nat \<Rightarrow> bool \<Rightarrow> num_error + nat \<times> bool" where
  "uint_loop base [] n us = Inr (n, us)"
| "uint_loop base (c # cs) n us =
     (if c = CHR ''_'' then uint_loop base cs n True
      else (case digit_value c of
              None \<Rightarrow> Inl ErrSyntax
            | Some d \<Rightarrow>
                if d \<ge> base then Inl ErrSyntax
                else if n * base + d \<ge> 2 ^ 64 then Inl ErrRange
                else uint_loop base cs (n * base + d) us))"

text \<open>The loop of \<^verbatim>\<open>underscoreOK\<close>: \<open>saw\<close> is its last class of character.\<close>

fun underscore_loop :: "bool \<Rightarrow> char \<Rightarrow> string \<Rightarrow> bool" where
  "underscore_loop hex saw [] \<longleftrightarrow> saw \<noteq> CHR ''_''"
| "underscore_loop hex saw (c # cs) \<longleftrightarrow>
     (if is_digit c \<or> (hex \<and> 97 \<le> lower_byte c \<and> lower_byte c \<le> 102) then underscore_loop hex CHR ''0'' cs
      else if c = CHR ''_'' then saw = CHR ''0'' \<and> underscore_loop hex CHR ''_'' cs
      else saw \<noteq> CHR ''_'' \<and> underscore_loop hex CHR ''!'' cs)"

text \<open>The base that a prefix selects, and the text after it, when there is one.\<close>

definition base_prefix :: "string \<Rightarrow> (nat \<times> string) option" where
  "base_prefix s =
     (case s of
        z # b # rest \<Rightarrow>
          if z \<noteq> CHR ''0'' then None
          else if lower_byte b = 98 then Some (2, rest)
          else if lower_byte b = 111 then Some (8, rest)
          else if lower_byte b = 120 then Some (16, rest)
          else None
      | _ \<Rightarrow> None)"

definition underscoreOK :: "string \<Rightarrow> bool" where
  "underscoreOK s =
     (case base_prefix s of
        Some (base, rest) \<Rightarrow> underscore_loop (base = 16) CHR ''0'' rest
      | None \<Rightarrow> underscore_loop False CHR ''^'' s)"

text \<open>\<^verbatim>\<open>ParseUint(s, 0, 64)\<close>, where \<^verbatim>\<open>s\<close> has no sign.\<close>

definition parse_uint :: "string \<Rightarrow> num_error + nat" where
  "parse_uint s =
     (if s = [] then Inl ErrSyntax
      else
        let (base, digits) =
          (if hd s \<noteq> CHR ''0'' then (10, s)
           else (case base_prefix s of
                   Some (b, rest) \<Rightarrow> if length s \<ge> 3 then (b, rest) else (8, tl s)
                 | None \<Rightarrow> (8, tl s)))
        in (case uint_loop base digits 0 False of
              Inl e \<Rightarrow> Inl e
            | Inr (n, us) \<Rightarrow> if us \<and> \<not> underscoreOK s then Inl ErrSyntax else Inr n))"

text \<open>\<^verbatim>\<open>ParseInt(s, 0, 64)\<close>\<close>

definition parse_int :: "string \<Rightarrow> num_error + int" where
  "parse_int s =
     (if s = [] then Inl ErrSyntax
      else
        let neg = (hd s = CHR ''-'');
            u = (if hd s = CHR ''+'' \<or> neg then tl s else s)
        in (case parse_uint u of
              Inl e \<Rightarrow> Inl e
            | Inr n \<Rightarrow>
                if \<not> neg \<and> n \<ge> 2 ^ 63 then Inl ErrRange
                else if neg \<and> n > 2 ^ 63 then Inl ErrRange
                else Inr (if neg then - int n else int n)))"

section \<open>Durations\<close>

text \<open>
  \<^verbatim>\<open>leadingInt\<close>: the number at the front and the text after it, \<^term>\<open>None\<close> when it exceeds \<open>2 ^ 63\<close>.
\<close>

fun leading_int :: "nat \<Rightarrow> string \<Rightarrow> (nat \<times> string) option" where
  "leading_int x [] = Some (x, [])"
| "leading_int x (c # cs) =
     (if \<not> is_digit c then Some (x, c # cs)
      else if x > 2 ^ 63 div 10 then None
      else
        let x = x * 10 + digit_of c in
        if x > 2 ^ 63 then None else leading_int x cs)"

text \<open>\<^verbatim>\<open>leadingFraction\<close>: digits beyond the range are skipped.\<close>

fun leading_fraction :: "nat \<Rightarrow> nat \<Rightarrow> bool \<Rightarrow> string \<Rightarrow> nat \<times> nat \<times> string" where
  "leading_fraction x scale over [] = (x, scale, [])"
| "leading_fraction x scale over (c # cs) =
     (if \<not> is_digit c then (x, scale, c # cs)
      else if over then leading_fraction x scale over cs
      else if x > (2 ^ 63 - 1) div 10 then leading_fraction x scale True cs
      else
        let y = x * 10 + digit_of c in
        if y > 2 ^ 63 then leading_fraction x scale True cs
        else leading_fraction y (scale * 10) over cs)"

text \<open>
  The double nearest to the positive ratio \<open>p / q\<close>, ties to even, as a ratio. All doubles here
  lie between \<open>10\<^sup>-\<^sup>1\<^sup>9\<close> and \<open>2\<^sup>6\<^sup>4\<close>, so their exponents are in range.
\<close>

fun bit_count :: "nat \<Rightarrow> nat" where
  "bit_count n = (if n = 0 then 0 else Suc (bit_count (n div 2)))"

declare bit_count.simps [simp del]

definition round_even :: "nat \<Rightarrow> nat \<Rightarrow> nat" where
  "round_even p q =
     (let m = p div q; r = p mod q in
      if 2 * r > q \<or> (2 * r = q \<and> odd m) then m + 1 else m)"

definition scaled :: "nat \<Rightarrow> nat \<Rightarrow> int \<Rightarrow> nat \<times> nat" where
  "scaled p q e = (if e \<ge> 0 then (p, q * 2 ^ nat e) else (p * 2 ^ nat (- e), q))"

definition float64 :: "nat \<Rightarrow> nat \<Rightarrow> nat \<times> nat" where
  "float64 p q =
     (let e = int (bit_count p) - int (bit_count q) - 53;
          (a, b) = scaled p q e;
          e = (if a \<ge> 2 ^ 53 * b then e + 1 else if a < 2 ^ 52 * b then e - 1 else e);
          (a, b) = scaled p q e;
          m = round_even a b
      in if e \<ge> 0 then (m * 2 ^ nat e, 1) else (m, 2 ^ nat (- e)))"

text \<open>\<^verbatim>\<open>uint64(float64(f) * (float64(unit) / scale))\<close>\<close>

definition fraction_units :: "nat \<Rightarrow> nat \<Rightarrow> nat \<Rightarrow> nat" where
  "fraction_units f unit scale =
     (let (a, b) = float64 f 1;
          (c, d) = float64 unit scale;
          (n, m) = float64 (a * c) (b * d)
      in n div m)"

definition unit_map :: "(string \<times> nat) list" where
  "unit_map = [
     (''ns'', 1),
     (''us'', 1000),
     ([CHR 0xC2, CHR 0xB5, CHR ''s''], 1000),
     ([CHR 0xCE, CHR 0xBC, CHR ''s''], 1000),
     (''ms'', 1000000),
     (''s'', 1000000000),
     (''m'', 60000000000),
     (''h'', 3600000000000)]"

text \<open>
  One round of the loop of \<^verbatim>\<open>ParseDuration\<close>: the value of a number with its unit, and the rest of
  the text; \<^term>\<open>None\<close> is an error.
\<close>

definition duration_item :: "string \<Rightarrow> (nat \<times> string) option" where
  "duration_item s =
     (if \<not> (hd s = CHR ''.'' \<or> is_digit (hd s)) then None
      else
        Option.bind (leading_int 0 s) (\<lambda>(v, s1).
        let pre = (length s \<noteq> length s1);
            dot = (s1 \<noteq> [] \<and> hd s1 = CHR ''.'');
            (f, scale, s2) = (if dot then leading_fraction 0 1 False (tl s1) else (0, 1, s1));
            post = (dot \<and> length (tl s1) \<noteq> length s2);
            u = takeWhile (\<lambda>c. \<not> (c = CHR ''.'' \<or> is_digit c)) s2;
            s3 = dropWhile (\<lambda>c. \<not> (c = CHR ''.'' \<or> is_digit c)) s2
        in if \<not> pre \<and> \<not> post then None
           else if u = [] then None
           else
             Option.bind (map_of unit_map u) (\<lambda>unit.
             if v > 2 ^ 63 div unit then None
             else
               let v = v * unit in
               let v = (if f > 0 then v + fraction_units f unit scale else v) in
               if f > 0 \<and> v > 2 ^ 63 then None else Some (v, s3))))"

text \<open>The sum is a \<^verbatim>\<open>uint64\<close>, whose addition wraps around.\<close>

lemma leading_int_length: "leading_int x s = Some (v, r) \<Longrightarrow> length r \<le> length s"
  by (induction x s rule: leading_int.induct) (auto simp: Let_def split: if_splits)

lemma leading_fraction_length: "leading_fraction x sc ov s = (f, sc', r) \<Longrightarrow> length r \<le> length s"
  by (induction x sc ov s rule: leading_fraction.induct) (auto simp: Let_def split: if_splits)

lemma length_dropWhile_lt: "takeWhile P s \<noteq> [] \<Longrightarrow> length (dropWhile P s) < length s"
  by (cases s) (auto simp: le_imp_less_Suc length_dropWhile_le split: if_splits)

lemma duration_item_shorter:
  assumes "duration_item s = Some (v, r)"
  shows "length r < length s"
proof -
  let ?P = "\<lambda>c. \<not> (c = CHR ''.'' \<or> is_digit c)"
  from assms obtain v1 s1 where s1: "leading_int 0 s = Some (v1, s1)"
    by (auto simp: duration_item_def bind_eq_Some_conv split: if_splits)
  define fr where "fr = (if s1 \<noteq> [] \<and> hd s1 = CHR ''.'' then leading_fraction 0 1 False (tl s1) else (0, 1, s1))"
  obtain f sc s2 where fr_eq: "fr = (f, sc, s2)" by (cases fr)
  have "length s2 \<le> length s1"
    using fr_eq leading_fraction_length [of 0 1 False "tl s1" f sc s2]
    by (auto simp: fr_def split: if_splits)
  moreover have "takeWhile ?P s2 \<noteq> [] \<and> r = dropWhile ?P s2"
    using assms fr_eq
    by (auto simp: duration_item_def s1 fr_def [symmetric] Let_def bind_eq_Some_conv split: if_splits)
  ultimately show ?thesis
    using leading_int_length [OF s1] length_dropWhile_lt [of ?P s2] by auto
qed

function duration_loop :: "string \<Rightarrow> nat \<Rightarrow> nat option" where
  "duration_loop s d =
     (if s = [] then Some d
      else (case duration_item s of
              None \<Rightarrow> None
            | Some (v, r) \<Rightarrow>
                let d = (d + v) mod 2 ^ 64 in
                if d > 2 ^ 63 then None else duration_loop r d))"
  by pat_completeness auto
termination
proof (relation "measure (\<lambda>(s, d). length s)")
  fix s d item v r d'
  assume "duration_item s = Some item" and "(v, r) = item"
  then show "((r, d'), s, d) \<in> measure (\<lambda>(s, d). length s)"
    using duration_item_shorter [of s v r] by simp
qed simp

declare duration_loop.simps [simp del]

definition parse_duration :: "string \<Rightarrow> int option" where
  "parse_duration s =
     (let neg = (s \<noteq> [] \<and> hd s = CHR ''-'');
          u = (if s \<noteq> [] \<and> (hd s = CHR ''-'' \<or> hd s = CHR ''+'') then tl s else s)
      in if u = ''0'' then Some 0
         else if u = [] then None
         else
           Option.bind (duration_loop u 0) (\<lambda>d.
           if neg then Some (- int d)
           else if d > 2 ^ 63 - 1 then None
           else Some (int d)))"

section \<open>Flags\<close>

text \<open>
  A declared flag says how a value is set. A flag of another package (\<open>ExternFlag\<close>) says whether
  it is boolean, and sets its value or gives the text of an error.
\<close>

datatype 's flag_value =
    StringFlag "string \<Rightarrow> 's \<Rightarrow> 's"
  | BoolFlag "bool \<Rightarrow> 's \<Rightarrow> 's"
  | IntFlag "int \<Rightarrow> 's \<Rightarrow> 's"
  | DurationFlag "int \<Rightarrow> 's \<Rightarrow> 's"
  | ExternFlag bool "string \<Rightarrow> 's \<Rightarrow> string + 's"

fun IsBoolFlag :: "'s flag_value \<Rightarrow> bool" where
  "IsBoolFlag (BoolFlag _) = True"
| "IsBoolFlag (ExternFlag b _) = b"
| "IsBoolFlag _ = False"

definition numError :: "num_error \<Rightarrow> string" where
  "numError e = (case e of ErrSyntax \<Rightarrow> ''parse error'' | ErrRange \<Rightarrow> ''value out of range'')"

fun set_flag :: "'s flag_value \<Rightarrow> string \<Rightarrow> 's \<Rightarrow> string + 's" where
  "set_flag (StringFlag f) v s = Inr (f v s)"
| "set_flag (BoolFlag f) v s =
     (case parse_bool v of None \<Rightarrow> Inl ''parse error'' | Some b \<Rightarrow> Inr (f b s))"
| "set_flag (IntFlag f) v s =
     (case parse_int v of Inl e \<Rightarrow> Inl (numError e) | Inr i \<Rightarrow> Inr (f i s))"
| "set_flag (DurationFlag f) v s =
     (case parse_duration v of None \<Rightarrow> Inl ''parse error'' | Some d \<Rightarrow> Inr (f d s))"
| "set_flag (ExternFlag _ f) v s = f v s"

text \<open>A name up to the first equals sign after its first character, and the value after it.\<close>

definition split_value :: "string \<Rightarrow> string \<times> string option" where
  "split_value arg =
     (let name = take 1 arg @ takeWhile (\<lambda>c. c \<noteq> CHR ''='') (tl arg) in
      case dropWhile (\<lambda>c. c \<noteq> CHR ''='') (tl arg) of
        [] \<Rightarrow> (name, None)
      | _ # v \<Rightarrow> (name, Some v))"

text \<open>
  \<^verbatim>\<open>parseOne\<close>: a flag was seen and set, the flags end here (with the remaining arguments), help
  was asked for, or an error.
\<close>

datatype 's parsed_one = Seen 's "string list" | EndOfFlags "string list" | ErrHelp | FlagError string

definition parseOne :: "(string \<Rightarrow> 's flag_value option) \<Rightarrow> string list \<Rightarrow> 's \<Rightarrow> 's parsed_one" where
  "parseOne formal args st =
     (case args of
        [] \<Rightarrow> EndOfFlags []
      | s # rest \<Rightarrow>
          if length s < 2 \<or> hd s \<noteq> CHR ''-'' then EndOfFlags args
          else
            let minuses = (if s ! 1 = CHR ''-'' then 2 else 1) in
            if minuses = 2 \<and> length s = 2 then EndOfFlags rest
            else
              let name = drop minuses s in
              if name = [] \<or> hd name = CHR ''-'' \<or> hd name = CHR ''=''
              then FlagError (''bad flag syntax: '' @ s)
              else
                (case split_value name of (name, value) \<Rightarrow>
                 (case formal name of
                    None \<Rightarrow>
                      if name = ''help'' \<or> name = ''h'' then ErrHelp
                      else FlagError (''flag provided but not defined: -'' @ name)
                  | Some fl \<Rightarrow>
                      if IsBoolFlag fl then
                        (case value of
                           Some v \<Rightarrow>
                             (case set_flag fl v st of
                                Inl e \<Rightarrow> FlagError (''invalid boolean value '' @ Quote v @ '' for -'' @ name @ '': '' @ e)
                              | Inr st \<Rightarrow> Seen st rest)
                         | None \<Rightarrow>
                             (case set_flag fl ''true'' st of
                                Inl e \<Rightarrow> FlagError (''invalid boolean flag '' @ name @ '': '' @ e)
                              | Inr st \<Rightarrow> Seen st rest))
                      else
                        (case (case value of
                                 Some v \<Rightarrow> Some (v, rest)
                               | None \<Rightarrow> (case rest of [] \<Rightarrow> None | v # rest \<Rightarrow> Some (v, rest))) of
                           None \<Rightarrow> FlagError (''flag needs an argument: -'' @ name)
                         | Some (v, rest) \<Rightarrow>
                             (case set_flag fl v st of
                                Inl e \<Rightarrow> FlagError (''invalid value '' @ Quote v @ '' for flag -'' @ name @ '': '' @ e)
                              | Inr st \<Rightarrow> Seen st rest)))))"

lemma parseOne_shorter: "parseOne formal args st = Seen st' args' \<Longrightarrow> length args' < length args"
  by (auto simp: parseOne_def Let_def split: list.splits if_splits option.splits sum.splits prod.splits)

text \<open>
  \<^verbatim>\<open>Parse\<close> of a set with \<^verbatim>\<open>ExitOnError\<close>: the state with the arguments that are left, or the exit
  status (0 for help).
\<close>

function parse_flags ::
    "(string \<Rightarrow> 's flag_value option) \<Rightarrow> string list \<Rightarrow> 's \<Rightarrow> nat \<times> string + 's \<times> string list" where
  "parse_flags formal args st =
     (case parseOne formal args st of
        Seen st args' \<Rightarrow> parse_flags formal args' st
      | EndOfFlags rest \<Rightarrow> Inr (st, rest)
      | ErrHelp \<Rightarrow> Inl (0, ''flag: help requested'')
      | FlagError e \<Rightarrow> Inl (2, e))"
  by pat_completeness auto
termination
  by (relation "measure (\<lambda>(formal, args, st). length args)") (simp_all add: parseOne_shorter)

declare parse_flags.simps [simp del]

section \<open>Facts\<close>

text \<open>A flag name: not empty, no leading dash, no equals sign.\<close>

definition flag_name :: "string \<Rightarrow> bool" where
  "flag_name n \<longleftrightarrow> n \<noteq> [] \<and> hd n \<noteq> CHR ''-'' \<and> CHR ''='' \<notin> set n"

lemma split_value_name: "flag_name n \<Longrightarrow> split_value n = (n, None)"
proof (cases n)
  case (Cons c cs)
  assume "flag_name n"
  with Cons have rest: "dropWhile (\<lambda>c. c \<noteq> CHR ''='') cs = []" "takeWhile (\<lambda>c. c \<noteq> CHR ''='') cs = cs"
    by (auto simp: flag_name_def dropWhile_eq_Nil_conv takeWhile_eq_all_conv)
  show ?thesis by (simp add: split_value_def Cons rest)
qed (simp add: flag_name_def)

lemma split_value_equals: "flag_name n \<Longrightarrow> split_value (n @ CHR ''='' # v) = (n, Some v)"
  by (cases n) (auto simp: flag_name_def split_value_def takeWhile_append dropWhile_append)

text \<open>An argument \<^verbatim>\<open>--name=value\<close> of a declared flag.\<close>

lemma parse_equals:
  assumes "flag_name n" and "formal n = Some fl" and "set_flag fl v st = Inr st'"
  shows "parse_flags formal ((''--'' @ n @ ''='' @ v) # args) st = parse_flags formal args st'"
proof -
  have "parseOne formal ((''--'' @ n @ ''='' @ v) # args) st = Seen st' args"
    using assms split_value_equals [OF assms(1), of v]
    by (cases n) (auto simp: parseOne_def flag_name_def)
  then show ?thesis by (subst parse_flags.simps) simp
qed

lemma parse_nil: "parse_flags formal [] st = Inr (st, [])"
  by (subst parse_flags.simps) (simp add: parseOne_def)

text \<open>A boolean flag takes no separate value: what follows it is the end of the flags.\<close>

lemma parse_bool_alone:
  assumes "flag_name n" and "formal n = Some fl" and "IsBoolFlag fl" and "set_flag fl ''true'' st = Inr st'"
  shows "parse_flags formal ((''--'' @ n) # args) st = parse_flags formal args st'"
proof -
  have "parseOne formal ((''--'' @ n) # args) st = Seen st' args"
    using assms split_value_name [OF assms(1)]
    by (cases n) (auto simp: parseOne_def flag_name_def)
  then show ?thesis by (subst parse_flags.simps) simp
qed

lemma parse_stop:
  assumes "length v < 2 \<or> hd v \<noteq> CHR ''-''"
  shows "parse_flags formal (v # args) st = Inr (st, v # args)"
  using assms by (subst parse_flags.simps) (auto simp: parseOne_def)

text \<open>Numbers written in decimal are read back.\<close>

definition digit_char :: "nat \<Rightarrow> char" where
  "digit_char d = ''0123456789'' ! d"

fun decimal :: "nat \<Rightarrow> string" where
  "decimal n = (if n < 10 then [digit_char n] else decimal (n div 10) @ [digit_char (n mod 10)])"

declare decimal.simps [simp del]

lemma digits_lookup:
  assumes "d < 10"
  shows "is_digit (digit_char d)" "digit_of (digit_char d) = d"
    "digit_value (digit_char d) = Some d" "digit_char d \<noteq> CHR ''_''"
    "digit_char d = CHR ''0'' \<longleftrightarrow> d = 0" "digit_char d \<noteq> CHR ''-''" "digit_char d \<noteq> CHR ''+''"
    "digit_char d \<noteq> CHR ''.''"
proof -
  from assms have "d \<in> {0, 1, 2, 3, 4, 5, 6, 7, 8, 9}" by auto
  then show "is_digit (digit_char d)" "digit_of (digit_char d) = d"
    "digit_value (digit_char d) = Some d" "digit_char d \<noteq> CHR ''_''"
    "digit_char d = CHR ''0'' \<longleftrightarrow> d = 0" "digit_char d \<noteq> CHR ''-''" "digit_char d \<noteq> CHR ''+''"
    "digit_char d \<noteq> CHR ''.''"
    by (auto simp: is_digit_def digit_of_def digit_value_def digit_char_def)
qed

lemma letters_no_digits: "\<not> is_digit CHR ''n''" "\<not> is_digit CHR ''s''"
  by (simp_all add: is_digit_def)

lemma decimal_hd: "\<exists>d cs. decimal n = digit_char d # cs \<and> d < 10 \<and> (d = 0 \<longrightarrow> n = 0 \<and> cs = [])"
proof (induction n rule: decimal.induct)
  case (1 n)
  show ?case
  proof (cases "n < 10")
    case True
    then show ?thesis by (subst decimal.simps) auto
  next
    case False
    then have "n div 10 \<noteq> 0" by auto
    with 1 [OF False] show ?thesis by (subst decimal.simps) (use False in auto)
  qed
qed

lemma uint_loop_decimal:
  "n < 2 ^ 64 \<Longrightarrow> uint_loop 10 (decimal n @ cs) 0 False = uint_loop 10 cs n False"
proof (induction n arbitrary: cs rule: decimal.induct)
  case (1 n)
  show ?case
  proof (cases "n < 10")
    case True
    then show ?thesis by (subst decimal.simps) (simp add: digits_lookup)
  next
    case False
    have n: "n div 10 * 10 + n mod 10 = n" "n mod 10 < 10" "\<not> 10 \<le> n mod 10" "n div 10 < 2 ^ 64"
      using 1(2) by (simp_all add: not_le)
    show ?thesis
      using 1(1) [OF False n(4)] 1(2) False n(1-3)
      by (subst decimal.simps) (simp add: digits_lookup)
  qed
qed

lemma leading_int_decimal:
  "n \<le> 2 ^ 63 \<Longrightarrow> leading_int 0 (decimal n @ cs) = leading_int n cs"
proof (induction n arbitrary: cs rule: decimal.induct)
  case (1 n)
  show ?case
  proof (cases "n < 10")
    case True
    then show ?thesis by (subst decimal.simps) (simp add: digits_lookup)
  next
    case False
    have n: "n div 10 * 10 + n mod 10 = n" "n mod 10 < 10" by simp_all
    moreover have "\<not> n div 10 > 2 ^ 63 div 10" using "1.prems" div_le_mono by (metis not_less)
    ultimately show ?thesis
      using 1 False by (subst decimal.simps) (simp add: digits_lookup Let_def)
  qed
qed

lemma parse_uint_decimal: "n < 2 ^ 64 \<Longrightarrow> parse_uint (decimal n) = Inr n"
proof -
  assume n: "n < 2 ^ 64"
  from decimal_hd [of n] obtain d cs where d: "decimal n = digit_char d # cs" "d < 10" "d = 0 \<longrightarrow> n = 0 \<and> cs = []"
    by blast
  show ?thesis
  proof (cases "d = 0")
    case True
    with d show ?thesis by (simp add: parse_uint_def base_prefix_def digits_lookup)
  next
    case False
    with d uint_loop_decimal [OF n, of "[]"] show ?thesis by (simp add: parse_uint_def digits_lookup)
  qed
qed

definition show_int :: "int \<Rightarrow> string" where
  "show_int i = (if i < 0 then ''-'' @ decimal (nat (- i)) else decimal (nat i))"

lemma parse_int_show: "- (2 ^ 63) \<le> i \<Longrightarrow> i < 2 ^ 63 \<Longrightarrow> parse_int (show_int i) = Inr i"
proof -
  assume i: "- (2 ^ 63) \<le> i" "i < 2 ^ 63"
  from decimal_hd [of "nat i"] obtain d cs where d: "decimal (nat i) = digit_char d # cs" "d < 10" by blast
  with i parse_uint_decimal [of "nat (- i)"] parse_uint_decimal [of "nat i"] show ?thesis
    by (auto simp: parse_int_def show_int_def digits_lookup nat_less_iff Let_def)
qed

text \<open>A duration in nanoseconds.\<close>

definition show_ns :: "int \<Rightarrow> string" where
  "show_ns i = show_int i @ ''ns''"

lemma duration_item_ns: "n \<le> 2 ^ 63 \<Longrightarrow> duration_item (decimal n @ ''ns'') = Some (n, [])"
proof -
  assume n: "n \<le> 2 ^ 63"
  from decimal_hd [of n] obtain d cs where d: "decimal n = digit_char d # cs" "d < 10" by blast
  have "leading_int 0 (decimal n @ ''ns'') = Some (n, ''ns'')"
    using leading_int_decimal [OF n] by (simp add: letters_no_digits)
  with d n show ?thesis
    by (simp add: duration_item_def digits_lookup letters_no_digits unit_map_def Let_def)
qed

lemma parse_duration_show: "- (2 ^ 63) \<le> i \<Longrightarrow> i < 2 ^ 63 \<Longrightarrow> parse_duration (show_ns i) = Some i"
proof -
  assume i: "- (2 ^ 63) \<le> i" "i < 2 ^ 63"
  have loop: "duration_loop (decimal n @ ''ns'') 0 = Some n" if "n \<le> 2 ^ 63" for n
    using duration_item_ns [OF that] that
    by (simp add: duration_loop.simps [of "decimal n @ ''ns''"] duration_loop.simps [of "[]"] Let_def)
  from decimal_hd [of "nat i"] obtain d cs where d: "decimal (nat i) = digit_char d # cs" "d < 10" by blast
  have "decimal n @ ''ns'' \<noteq> ''0''" for n by (cases "decimal n") auto
  with i d loop [of "nat (- i)"] loop [of "nat i"] show ?thesis
    by (auto simp: parse_duration_def show_ns_def show_int_def digits_lookup Let_def)
qed

end
