(* ===== verification/CommandLine.thy ===== *)
theory CommandLine
  imports GoFlags
begin

text \<open>
  The command line of \<^verbatim>\<open>cmd/main.go\<close>: the flags it declares, their parsing, and the process from
  its arguments to its exit status. The flags that other packages declare (\<^verbatim>\<open>zap.Options\<close>,
  \<^verbatim>\<open>kubeconfig\<close>) are a parameter, and their variables the second part \<open>'x\<close> of the state.
\<close>

section \<open>The declared flags\<close>

definition string_flag :: "(string \<Rightarrow> flags \<Rightarrow> flags) \<Rightarrow> (flags \<times> 'x) flag_value" where
  "string_flag f = StringFlag (\<lambda>v. apfst (f v))"
definition bool_flag :: "(bool \<Rightarrow> flags \<Rightarrow> flags) \<Rightarrow> (flags \<times> 'x) flag_value" where
  "bool_flag f = BoolFlag (\<lambda>v. apfst (f v))"
definition int_flag :: "(int \<Rightarrow> flags \<Rightarrow> flags) \<Rightarrow> (flags \<times> 'x) flag_value" where
  "int_flag f = IntFlag (\<lambda>v. apfst (f v))"
definition duration_flag :: "(int \<Rightarrow> flags \<Rightarrow> flags) \<Rightarrow> (flags \<times> 'x) flag_value" where
  "duration_flag f = DurationFlag (\<lambda>v. apfst (f v))"

definition declared_flags :: "(string \<times> (flags \<times> 'x) flag_value) list" where
  "declared_flags = [
     (''metrics-bind-address'', string_flag (\<lambda>v f. f\<lparr>f_metricsAddr := v\<rparr>)),
     (''metrics-secure'', bool_flag (\<lambda>v f. f\<lparr>f_secureMetrics := v\<rparr>)),
     (''health-probe-bind-address'', string_flag (\<lambda>v f. f\<lparr>f_probeAddr := v\<rparr>)),
     (''leader-elect'', bool_flag (\<lambda>v f. f\<lparr>f_enableLeaderElection := v\<rparr>)),
     (''thalassa-url'', string_flag (\<lambda>v f. f\<lparr>f_thalassaURL := v\<rparr>)),
     (''organisation'', string_flag (\<lambda>v f. f\<lparr>f_organisation := v\<rparr>)),
     (''project'', string_flag (\<lambda>v f. f\<lparr>f_projectIdentity := v\<rparr>)),
     (''cluster-identity'', string_flag (\<lambda>v f. f\<lparr>f_clusterIdentity := v\<rparr>)),
     (''thalassa-service-account-id'', string_flag (\<lambda>v f. f\<lparr>f_serviceAccountID := v\<rparr>)),
     (''thalassa-subject-token-file'', string_flag (\<lambda>v f. f\<lparr>f_subjectTokenFile := v\<rparr>)),
     (''trusted-audiences'', string_flag (\<lambda>v f. f\<lparr>f_trustedAudiencesRaw := v\<rparr>)),
     (''watch-namespaces'', string_flag (\<lambda>v f. f\<lparr>f_watchNamespacesRaw := v\<rparr>)),
     (''requeue-missing-idp'', duration_flag (\<lambda>v f. f\<lparr>f_requeueMissingIDP := v\<rparr>)),
     (''enable-serviceaccount-annotations'', bool_flag (\<lambda>v f. f\<lparr>f_enableServiceAccountAnnotations := v\<rparr>)),
     (''enable-identity-configmap'', bool_flag (\<lambda>v f. f\<lparr>f_enableIdentityConfigMap := v\<rparr>)),
     (''enable-controllers'', bool_flag (\<lambda>v f. f\<lparr>f_enableControllers := v\<rparr>)),
     (''enable-pod-mutator'', bool_flag (\<lambda>v f. f\<lparr>f_enablePodMutator := v\<rparr>)),
     (''webhook-cert-dir'', string_flag (\<lambda>v f. f\<lparr>f_webhookCertDir := v\<rparr>)),
     (''webhook-port'', int_flag (\<lambda>v f. f\<lparr>f_webhookPort := v\<rparr>)),
     (''webhook-audience'', string_flag (\<lambda>v f. f\<lparr>f_webhookAudience := v\<rparr>)),
     (''allowed-policies'', string_flag (\<lambda>v f. f\<lparr>f_allowedPoliciesRaw := v\<rparr>)),
     (''allowed-roles'', string_flag (\<lambda>v f. f\<lparr>f_allowedRolesRaw := v\<rparr>))]"

text \<open>\<^verbatim>\<open>flag.CommandLine\<close>: declaring a name twice panics, so the other packages' names are different.\<close>

definition command_line ::
    "(string \<Rightarrow> (flags \<times> 'x) flag_value option) \<Rightarrow> string \<Rightarrow> (flags \<times> 'x) flag_value option" where
  "command_line others name =
     (case map_of declared_flags name of Some fl \<Rightarrow> Some fl | None \<Rightarrow> others name)"

section \<open>The process\<close>

text \<open>
  \<^verbatim>\<open>main\<close> with the arguments after the program's name: its exit status and what it logs or prints.
  \<open>run\<close> is \<^verbatim>\<open>mgr.Start\<close>, which returns when the process is told to stop.
\<close>

record ('c, 'x) process_env =
  pe_startup :: "'x \<Rightarrow> 'c startup_env"
  pe_others :: "string \<Rightarrow> (flags \<times> 'x) flag_value option"
  pe_others0 :: 'x
  pe_run :: "Config \<Rightarrow> 'c option \<Rightarrow> manager_options \<Rightarrow> component list \<Rightarrow> error option"

definition run_process :: "('c, 'x) process_env \<Rightarrow> flags \<Rightarrow> 'x \<Rightarrow> nat \<times> (string \<times> error option) option" where
  "run_process env f x =
     (case start (pe_startup env x) f of
        Inl (msg, err) \<Rightarrow> (1, Some (msg, Some err))
      | Inr (cfg, tc, opts, comps) \<Rightarrow>
          (case pe_run env cfg tc opts comps of
             Some err \<Rightarrow> (1, Some (''problem running manager'', Some err))
           | None \<Rightarrow> (0, None)))"

definition main_process :: "('c, 'x) process_env \<Rightarrow> string list \<Rightarrow> nat \<times> (string \<times> error option) option" where
  "main_process env args =
     (case parse_flags (command_line (pe_others env)) args (default_flags, pe_others0 env) of
        Inl (status, msg) \<Rightarrow> (status, Some (msg, None))
      | Inr ((f, x), _) \<Rightarrow> run_process env f x)"

text \<open>The arguments \<^verbatim>\<open>--name=value\<close> for given values, in the form the charts use.\<close>

definition flag_arg :: "string \<times> string \<Rightarrow> string" where
  "flag_arg p = ''--'' @ fst p @ ''='' @ snd p"

definition show_bool :: "bool \<Rightarrow> string" where
  "show_bool b = (if b then ''true'' else ''false'')"

definition flag_values :: "flags \<Rightarrow> (string \<times> string) list" where
  "flag_values f = [
     (''metrics-bind-address'', f_metricsAddr f),
     (''metrics-secure'', show_bool (f_secureMetrics f)),
     (''health-probe-bind-address'', f_probeAddr f),
     (''leader-elect'', show_bool (f_enableLeaderElection f)),
     (''thalassa-url'', f_thalassaURL f),
     (''organisation'', f_organisation f),
     (''project'', f_projectIdentity f),
     (''cluster-identity'', f_clusterIdentity f),
     (''thalassa-service-account-id'', f_serviceAccountID f),
     (''thalassa-subject-token-file'', f_subjectTokenFile f),
     (''trusted-audiences'', f_trustedAudiencesRaw f),
     (''watch-namespaces'', f_watchNamespacesRaw f),
     (''requeue-missing-idp'', show_ns (f_requeueMissingIDP f)),
     (''enable-serviceaccount-annotations'', show_bool (f_enableServiceAccountAnnotations f)),
     (''enable-identity-configmap'', show_bool (f_enableIdentityConfigMap f)),
     (''enable-controllers'', show_bool (f_enableControllers f)),
     (''enable-pod-mutator'', show_bool (f_enablePodMutator f)),
     (''webhook-cert-dir'', f_webhookCertDir f),
     (''webhook-port'', show_int (f_webhookPort f)),
     (''webhook-audience'', f_webhookAudience f),
     (''allowed-policies'', f_allowedPoliciesRaw f),
     (''allowed-roles'', f_allowedRolesRaw f)]"

section \<open>Facts\<close>

lemma parse_show_bool [simp]: "parse_bool (show_bool b) = Some b"
  by (simp add: show_bool_def parse_bool_def)

lemma declared_names: "(n, fl) \<in> set declared_flags \<Longrightarrow> flag_name n"
  by (auto simp: declared_flags_def flag_name_def)

lemma declared_distinct: "distinct (map fst declared_flags)"
  by (simp add: declared_flags_def)

lemma command_line_declared: "(n, fl) \<in> set declared_flags \<Longrightarrow> command_line others n = Some fl"
  using map_of_is_SomeI [OF declared_distinct, of n fl] by (simp add: command_line_def)

text \<open>A command line of \<^verbatim>\<open>--name=value\<close> arguments sets the values in order.\<close>

fun set_values :: "(string \<Rightarrow> 's flag_value option) \<Rightarrow> (string \<times> string) list \<Rightarrow> 's \<Rightarrow> 's option" where
  "set_values formal [] st = Some st"
| "set_values formal ((n, v) # ps) st =
     Option.bind (formal n) (\<lambda>fl.
     case set_flag fl v st of Inl _ \<Rightarrow> None | Inr st \<Rightarrow> set_values formal ps st)"

lemma parse_set_values:
  assumes "set_values formal ps st = Some st'" and "list_all (\<lambda>p. flag_name (fst p)) ps"
  shows "parse_flags formal (map flag_arg ps @ args) st = parse_flags formal args st'"
  using assms
proof (induction formal ps st rule: set_values.induct)
  case (2 formal n v ps st)
  then obtain fl st1 where fl: "formal n = Some fl" "set_flag fl v st = Inr st1" "set_values formal ps st1 = Some st'"
    by (cases "formal n") (auto split: sum.splits)
  have "parse_flags formal (flag_arg (n, v) # map flag_arg ps @ args) st = parse_flags formal (map flag_arg ps @ args) st1"
    using parse_equals [of n formal fl v st st1 "map flag_arg ps @ args"] fl 2(3) by (simp add: flag_arg_def)
  with 2 fl show ?case by simp
qed simp

lemma set_all_values:
  assumes "- (2 ^ 63) \<le> f_requeueMissingIDP f" "f_requeueMissingIDP f < 2 ^ 63"
    and "- (2 ^ 63) \<le> f_webhookPort f" "f_webhookPort f < 2 ^ 63"
  shows "set_values (command_line others) (flag_values f) (f0, x) = Some (f, x)"
  using parse_int_show [OF assms(3,4)] parse_duration_show [OF assms(1,2)]
  by (simp add: flag_values_def command_line_def declared_flags_def string_flag_def bool_flag_def int_flag_def
      duration_flag_def)

section \<open>Properties\<close>

text \<open>
  C24: the command line says what the process runs with: from arguments \<^verbatim>\<open>--name=value\<close> for all
  flags (strings may hold any characters; the port and the requeue time are 64-bit integers, the
  latter in nanoseconds), the process runs with exactly these values, whatever the defaults and
  the flags of other packages are.
\<close>

theorem command_line_roundtrip:
  assumes "- (2 ^ 63) \<le> f_requeueMissingIDP f" "f_requeueMissingIDP f < 2 ^ 63"
    and "- (2 ^ 63) \<le> f_webhookPort f" "f_webhookPort f < 2 ^ 63"
  shows "main_process env (map flag_arg (flag_values f)) = run_process env f (pe_others0 env)"
proof -
  have "list_all (\<lambda>p. flag_name (fst p)) (flag_values f)"
    by (simp add: flag_values_def flag_name_def)
  from parse_set_values [OF set_all_values [OF assms] this, of "pe_others env" "[]" default_flags "pe_others0 env"]
  show ?thesis by (simp add: main_process_def parse_nil)
qed

definition quiet_env :: "(unit, unit) process_env" where
  "quiet_env = \<lparr>pe_startup = (\<lambda>_. \<lparr>env_parse_uri = (\<lambda>_. None), env_new_client = (\<lambda>_. Inr ()),
       env_new_manager = (\<lambda>_. None), env_register = (\<lambda>_. None)\<rparr>),
     pe_others = (\<lambda>_. None), pe_others0 = (), pe_run = (\<lambda>_ _ _ _. None)\<rparr>"

definition cluster_flags :: flags where
  "cluster_flags = default_flags\<lparr>f_organisation := ''org-1'', f_clusterIdentity := ''k8s-1'',
     f_serviceAccountID := ''sa-ctl'', f_allowedPoliciesRaw := ''a=b,c''\<rparr>"

theorem command_line_roundtrip_witness:
  "main_process quiet_env (map flag_arg (flag_values cluster_flags)) = (0, None)"
proof -
  have "run_process quiet_env cluster_flags () = (0, None)" by code_simp
  then show ?thesis
    by (subst command_line_roundtrip)
      (simp_all add: cluster_flags_def default_flags_def defaultWebhookPort_def DefaultRequeueMissingIDP_def
        quiet_env_def)
qed

text \<open>
  C29: a boolean flag followed by a value of its own, as in \<^verbatim>\<open>--leader-elect false\<close>, is set to true, and
  everything from that value on is dropped without an error: the process runs with the flags set
  before, whatever the dropped arguments say (an allow list among them is not in force).
\<close>

theorem stray_argument_drops_rest:
  assumes "set_values (command_line (pe_others env)) ps (default_flags, pe_others0 env) = Some (f, x)"
    and "list_all (\<lambda>p. flag_name (fst p)) ps"
    and "(n, BoolFlag g) \<in> set declared_flags"
    and "v = [] \<or> hd v \<noteq> CHR ''-''"
  shows "main_process env (map flag_arg ps @ (''--'' @ n) # v # rest) =
    run_process env (fst (g True (f, x))) (snd (g True (f, x)))"
proof -
  have fl: "command_line (pe_others env) n = Some (BoolFlag g)" by (rule command_line_declared [OF assms(3)])
  have "parse_flags (command_line (pe_others env)) ((''--'' @ n) # v # rest) (f, x) = Inr (g True (f, x), v # rest)"
    using parse_bool_alone [where formal = "command_line (pe_others env)", OF declared_names [OF assms(3)] fl,
        of "(f, x)" "g True (f, x)" "v # rest"]
      parse_stop [of v _ rest "g True (f, x)"] assms(4)
    by (auto simp: parse_bool_def)
  with parse_set_values [OF assms(1,2)] show ?thesis
    by (simp add: main_process_def split: prod.splits)
qed

theorem stray_argument_drops_rest_witness:
  "main_process quiet_env [''--organisation=org-1'', ''--leader-elect'', ''false'', ''--allowed-policies=p''] =
     run_process quiet_env (default_flags\<lparr>f_organisation := ''org-1''\<rparr>) ()"
proof -
  let ?ps = "[(''organisation'', ''org-1'')]"
  have "set_values (command_line (pe_others quiet_env)) ?ps (default_flags, pe_others0 quiet_env) =
      Some (default_flags\<lparr>f_organisation := ''org-1''\<rparr>, ())"
    by (simp add: command_line_def declared_flags_def string_flag_def bool_flag_def quiet_env_def)
  from stray_argument_drops_rest [OF this, of "''leader-elect''"
      "\<lambda>v. apfst (\<lambda>f. f\<lparr>f_enableLeaderElection := v\<rparr>)" "''false''" "[''--allowed-policies=p'']"]
  show ?thesis
    by (simp add: flag_name_def declared_flags_def string_flag_def bool_flag_def int_flag_def duration_flag_def
        flag_arg_def default_flags_def)
qed

end
