(* ===== verification/AnnotationController.thy ===== *)
theory AnnotationController
  imports BindingController
begin

text \<open>
  \<^verbatim>\<open>internal/controller/serviceaccount_controller.go\<close>: the reconciler of annotated service
  accounts. Status is kept in annotations of the account itself; the errors of most status
  updates are dropped (\<^verbatim>\<open>_ = r.patchStatus(...)\<close>).
\<close>

definition status_annotations ::
    "smap \<Rightarrow> string \<Rightarrow> string \<Rightarrow> EnsureResult option \<Rightarrow> string \<Rightarrow> smap" where
  "status_annotations a status lastErr result now =
     (let a = fmupd AnnotationStatus status a;
          a = fmupd AnnotationLastReconcile now a;
          a = (if lastErr = [] then fmdrop AnnotationLastError a
               else fmupd AnnotationLastError (truncate_to 1024 lastErr) a)
      in case result of
           None \<Rightarrow> a
         | Some r \<Rightarrow>
             (let a = fmupd AnnotationServiceAccountID (res_ServiceAccountID r) a;
                  a = fmupd AnnotationFederatedIdentityID (res_FederatedIdentityID r) a;
                  a = fmupd AnnotationProviderID (res_ProviderID r) a
              in if res_PolicyID r \<noteq> [] then fmupd AnnotationPolicyID (res_PolicyID r) a
                 else fmdrop AnnotationPolicyID a))"

definition patchStatus ::
    "'w kube_client \<Rightarrow> KubeServiceAccount \<Rightarrow> string \<Rightarrow> string \<Rightarrow> EnsureResult option \<Rightarrow> (unit, 'w) prog" where
  "patchStatus k sa status lastErr result =
     bindE (call (GetServiceAccount k (ksa_Namespace sa) (ksa_Name sa))) (\<lambda>latest.
     bindE (nowE k) (\<lambda>now.
     call (UpdateServiceAccount k (latest\<lparr>ksa_Annotations :=
       status_annotations (ksa_Annotations latest) status lastErr result (format_RFC3339 now)\<rparr>))))"

text \<open>\<^verbatim>\<open>_ = m\<close>: run and drop the error.\<close>

definition ignoreE :: "('a, 'w) prog \<Rightarrow> ('b, 'w) prog \<Rightarrow> ('b, 'w) prog" where
  "ignoreE m k = tryE m (\<lambda>_. k)"

definition deleteCloudResourcesSA ::
    "'w iam_client \<Rightarrow> Config \<Rightarrow> KubeServiceAccount \<Rightarrow> (unit, 'w) prog" where
  "deleteCloudResourcesSA c cfg sa =
     bindE (wrapE ''resolve cluster identity provider for delete''
        (FindProviderByClusterID c (cfg_ClusterIdentity cfg))) (\<lambda>provider.
       let issuer = NormalizeIssuer (idp_ProviderIssuer provider) in
       if issuer = [] then
         failE (ErrMsg (''cluster identity provider '' @ idp_Identity provider @ '' has empty issuer''))
       else
         (let role = get (ksa_Annotations sa) AnnotationRole;
              policy = get (ksa_Annotations sa) AnnotationPolicyID;
              policy = (if policy = [] then get (ksa_Annotations sa) AnnotationPolicy else policy)
          in DeleteWorkloadIdentity c (ksa_Namespace sa) (ksa_Name sa) issuer role policy))"

text \<open>Dropping the finalizer, at the end of a deletion and of an opt-out.\<close>

definition dropFinalizer :: "'w kube_client \<Rightarrow> KubeServiceAccount \<Rightarrow> (reconcile_result \<times> error option, 'w) prog" where
  "dropFinalizer k sa =
     tryE (call (UpdateServiceAccount k (sa\<lparr>ksa_Finalizers :=
         kc_RemoveFinalizer k (ksa_Finalizers sa) FinalizerName\<rparr>)))
       (\<lambda>r. case r of Inl err \<Rightarrow> okE (no_requeue, Some err) | Inr _ \<Rightarrow> okE (no_requeue, None))"

text \<open>The body of the deletion branch and of the opt-out branch.\<close>

definition releaseServiceAccount ::
    "'w iam_client \<Rightarrow> 'w kube_client \<Rightarrow> Config \<Rightarrow> KubeServiceAccount \<Rightarrow>
     (reconcile_result \<times> error option, 'w) prog" where
  "releaseServiceAccount c k cfg sa =
     tryE (if DeleteResources (ksa_Annotations sa) then deleteCloudResourcesSA c cfg sa else okE ())
       (\<lambda>r. case r of
          Inl err \<Rightarrow>
            ignoreE (patchStatus k sa StatusError (Error err) None) (okE (no_requeue, Some err))
        | Inr _ \<Rightarrow> dropFinalizer k sa)"

definition annotation_input :: "Config \<Rightarrow> KubeServiceAccount \<Rightarrow> string list \<Rightarrow> EnsureInput" where
  "annotation_input cfg sa scopes = \<lparr>
     in_Namespace = ksa_Namespace sa,
     in_ServiceAccount = ksa_Name sa,
     in_RoleRef = TrimSpace (get (ksa_Annotations sa) AnnotationRole),
     in_PolicyRef = TrimSpace (get (ksa_Annotations sa) AnnotationPolicy),
     in_NameOverride = get (ksa_Annotations sa) AnnotationName,
     in_Scopes = scopes,
     in_TrustedAudiences = cfg_TrustedAudiences cfg,
     in_ClusterIdentity = cfg_ClusterIdentity cfg,
     in_AllowedPolicies = cfg_AllowedPolicies cfg,
     in_AllowedRoles = cfg_AllowedRoles cfg\<rparr>"

text \<open>An account that is enabled and has the finalizer.\<close>

definition ensureAnnotated ::
    "'w iam_client \<Rightarrow> 'w kube_client \<Rightarrow> Config \<Rightarrow> KubeServiceAccount \<Rightarrow>
     (reconcile_result \<times> error option, 'w) prog" where
  "ensureAnnotated c k cfg sa =
     (let role = TrimSpace (get (ksa_Annotations sa) AnnotationRole);
          policy = TrimSpace (get (ksa_Annotations sa) AnnotationPolicy)
      in
      if role = [] \<and> policy = [] then
        ignoreE (patchStatus k sa StatusError
          ''at least one of thalassa.cloud/wif.policy or thalassa.cloud/wif.role is required'' None)
          (okE (no_requeue, None))
      else if role = ''*'' \<or> policy = ''*'' then
        ignoreE (patchStatus k sa StatusError ''wildcard policy/role is not allowed'' None)
          (okE (no_requeue, None))
      else
        (case ParseScopes (ic_consts c) (get (ksa_Annotations sa) AnnotationScopes) of
           Inl err \<Rightarrow>
             ignoreE (patchStatus k sa StatusError (Error err) None) (okE (no_requeue, None))
         | Inr scopes \<Rightarrow>
             ignoreE (patchStatus k sa StatusPending [] None)
               (tryE (EnsureWorkloadIdentity c (annotation_input cfg sa scopes)) (\<lambda>r.
                  case r of
                    Inl err \<Rightarrow>
                      (case asProviderNotReady err of
                         Some _ \<Rightarrow>
                           ignoreE (patchStatus k sa StatusPending (Error err) None)
                             (okE (\<lparr>rr_Requeue = False,
                                    rr_RequeueAfter = cfg_RequeueMissingIDP cfg\<rparr>, None))
                       | None \<Rightarrow>
                           ignoreE (patchStatus k sa StatusError (Error err) None)
                             (okE (no_requeue, Some err)))
                  | Inr result \<Rightarrow>
                      tryE (patchStatus k sa StatusReady [] (Some result)) (\<lambda>r.
                        case r of
                          Inl err \<Rightarrow> okE (no_requeue, Some err)
                        | Inr _ \<Rightarrow> okE (no_requeue, None))))))"

definition ReconcileServiceAccount ::
    "'w iam_client \<Rightarrow> 'w kube_client \<Rightarrow> Config \<Rightarrow> string \<Rightarrow> string \<Rightarrow>
     (reconcile_result \<times> error option, 'w) prog" where
  "ReconcileServiceAccount c k cfg ns name =
     tryE (call (GetServiceAccount k ns name)) (\<lambda>got.
       case got of
         Inl err \<Rightarrow> if isNotFound err then okE (no_requeue, None) else okE (no_requeue, Some err)
       | Inr sa \<Rightarrow>
           if cfg_WatchNamespaces cfg \<noteq> [] \<and> \<not> contains (cfg_WatchNamespaces cfg) (ksa_Namespace sa)
           then okE (no_requeue, None)
           else
             (let enabled = IsEnabled (ksa_Annotations sa);
                  hasFinalizer = kc_ContainsFinalizer k (ksa_Finalizers sa) FinalizerName
              in
              if ksa_Deleting sa then
                (if \<not> hasFinalizer then okE (no_requeue, None)
                 else releaseServiceAccount c k cfg sa)
              else if \<not> enabled then
                (if hasFinalizer then releaseServiceAccount c k cfg sa else okE (no_requeue, None))
              else if \<not> hasFinalizer then
                tryE (call (UpdateServiceAccount k (sa\<lparr>ksa_Finalizers :=
                    kc_AddFinalizer k (ksa_Finalizers sa) FinalizerName\<rparr>)))
                  (\<lambda>r. case r of
                     Inl err \<Rightarrow> okE (no_requeue, Some err)
                   | Inr _ \<Rightarrow> okE (\<lparr>rr_Requeue = True, rr_RequeueAfter = 0\<rparr>, None))
              else ensureAnnotated c k cfg sa))"

text \<open>The event filter; \<open>None\<close> is an object of another type.\<close>

definition account_event_filter ::
    "'w kube_client \<Rightarrow> Config \<Rightarrow> KubeServiceAccount option \<Rightarrow> bool" where
  "account_event_filter k cfg obj =
     (case obj of
        None \<Rightarrow> False
      | Some sa \<Rightarrow>
          if cfg_WatchNamespaces cfg \<noteq> [] \<and> \<not> contains (cfg_WatchNamespaces cfg) (ksa_Namespace sa)
            then False
          else if IsEnabled (ksa_Annotations sa) then True
          else if kc_ContainsFinalizer k (ksa_Finalizers sa) FinalizerName then True
          else if get (ksa_Annotations sa) AnnotationStatus \<noteq> [] then True
          else False)"

end
