(* ===== verification/ControllerTrace.thy ===== *)
theory ControllerTrace
  imports AnnotationController
begin

text \<open>
  What the two reconcilers may do, whatever the cluster and the IAM API answer: the events of
  each step, that resources are deleted only on request, and that the finalizer of a binding
  is dropped only after a clean-up without failures. The facts are about the trace shared by
  the two instrumented clients.
\<close>

section \<open>The events of the steps\<close>

lemma emits_ignoreE [emits_intros]: "emits P m \<Longrightarrow> emits P k \<Longrightarrow> emits P (ignoreE m k)"
  unfolding ignoreE_def by (rule emits_tryE)

lemma emits_finish [emits_intros]: "emits P (finish obs err)"
  unfolding finish_def by (rule emits_okE)

lemma emits_clear [emits_intros]:
  "(\<And>x y r. P (Kube (EvGetSA x y r))) \<Longrightarrow> (\<And>s r. P (Kube (EvUpdateSA s r))) \<Longrightarrow>
   emits P (clearServiceAccountIdentityAnnotations (klogged k) ns n)"
  unfolding clearServiceAccountIdentityAnnotations_def
  by (auto intro!: emits_intros emits_call split: sum.splits prod.splits)

lemma emits_annotate [emits_intros]:
  "(\<And>x y r. P (Kube (EvGetSA x y r))) \<Longrightarrow> (\<And>s r. P (Kube (EvUpdateSA s r))) \<Longrightarrow>
   emits P (annotateServiceAccountIdentity (klogged k) sa i o' p)"
  unfolding annotateServiceAccountIdentity_def
  by (auto simp: Let_def intro!: emits_intros emits_call)

lemma emits_syncIdentityConfigMap [emits_intros]:
  "(\<And>cm f r. P (Kube (EvSyncConfigMap cm f r))) \<Longrightarrow>
   emits P (syncIdentityConfigMap (klogged k) obj d i o' p)"
  unfolding syncIdentityConfigMap_def by (auto simp: Let_def intro!: emits_intros)

lemma emits_publish [emits_intros]:
  "(\<And>x y r. P (Kube (EvGetSA x y r))) \<Longrightarrow> (\<And>s r. P (Kube (EvUpdateSA s r))) \<Longrightarrow>
   (\<And>cm f r. P (Kube (EvSyncConfigMap cm f r))) \<Longrightarrow>
   emits P (publishIdentity (klogged k) cfg obj d sa res)"
  unfolding publishIdentity_def
  by (auto simp: Let_def intro!: emits_intros split: sum.splits)

lemma emits_patchBindingStatus [emits_intros]:
  "(\<And>x y r. P (Kube (EvGetWIB x y r))) \<Longrightarrow> (\<And>s r. P (Kube (EvUpdateStatus s r))) \<Longrightarrow>
   emits P (patchBindingStatus (klogged k) b obs)"
  unfolding patchBindingStatus_def by (auto intro!: emits_intros emits_call)

lemma emits_patchStatus [emits_intros]:
  "(\<And>x y r. P (Kube (EvGetSA x y r))) \<Longrightarrow> (\<And>s r. P (Kube (EvUpdateSA s r))) \<Longrightarrow>
   emits P (patchStatus (klogged k) sa st e res)"
  unfolding patchStatus_def by (auto intro!: emits_intros emits_call)

lemma emits_deleteBinding [emits_intros]:
  assumes "\<And>i r. P (emb (EvListRBs i r))" "\<And>i j r. P (emb (EvDeleteRB i j r))"
    "\<And>i r. P (emb (EvListPBs i r))" "\<And>i j r. P (emb (EvDeletePB i j r))"
  shows "emits P (deleteRoleBindingForSA (logged emb c) p s)"
    "emits P (deletePolicyBindingForSA (logged emb c) p s)"
proof -
  have loop: "emits P (delete_loop del s bs)" if "\<And>i. emits P (del i)"
    for del :: "string \<Rightarrow> (unit, _) prog" and bs
    using that by (induction bs) (auto intro: emits_intros)
  show "emits P (deleteRoleBindingForSA (logged emb c) p s)"
    "emits P (deletePolicyBindingForSA (logged emb c) p s)"
    unfolding deleteRoleBindingForSA_def deletePolicyBindingForSA_def
    by (auto intro!: loop emits_intros emits_call assms)
qed

lemma emits_DeleteWorkloadIdentity [emits_intros]:
  assumes "\<And>x. P (Iam x)"
  shows "emits P (DeleteWorkloadIdentity (logged Iam c) ns sa iss r p)"
  unfolding DeleteWorkloadIdentity_def deletePolicyStep_def deleteRoleStep_def Let_def
  by (auto intro!: emits_intros emits_call assms split: sum.splits option.splits)

lemma emits_deleteCloudResources [emits_intros]:
  assumes "\<And>x. P (Iam x)"
  shows "emits P (deleteCloudResources (logged Iam c) cfg d)"
    "emits P (deleteCloudResourcesSA (logged Iam c) cfg sa)"
  unfolding deleteCloudResources_def deleteCloudResourcesSA_def Let_def
  by (auto intro!: emits_intros assms split: sum.splits option.splits)

lemma emits_Ensure [emits_intros]:
  assumes "\<And>x. \<not> deletes x \<Longrightarrow> P (Iam x)"
  shows "emits P (EnsureWorkloadIdentity (logged Iam c) inp)"
  using emits_EnsureWorkloadIdentity [of Iam inp c] unfolding emits_def
  by (rule traced_weaken) (auto simp: list_all_iff ensure_event_def intro: assms)

section \<open>Deletion only on request\<close>

fun ev_deletes :: "event \<Rightarrow> bool" where
  "ev_deletes (Iam x) = deletes x"
| "ev_deletes (Kube _) = False"

lemma emits_reconcileBinding_deletes:
  "emits (\<lambda>e. ev_deletes e \<longrightarrow> wib_Deleting obj \<and> des_DeleteResources d \<and> fin)
     (reconcileBinding (logged Iam c) (klogged k) cfg obj d fin)"
  unfolding reconcileBinding_def reconcileDeletion_def Let_def
  by (auto intro!: emits_intros emits_call split: sum.splits option.splits)

definition binding_deletes_requested :: "'w kube_client \<Rightarrow> event list \<Rightarrow> bool" where
  "binding_deletes_requested k es \<longleftrightarrow>
     (\<forall>e \<in> set es. ev_deletes e \<longrightarrow>
        (\<exists>ns n b. Kube (EvGetWIB ns n (Inr b)) \<in> set es \<and> wib_Deleting b \<and> wib_DeleteResources b \<and>
           kc_ContainsFinalizer k (wib_Finalizers b) BindingFinalizerName))"

text \<open>What follows the read of the binding.\<close>

lemma emits_after_get:
  assumes rec: "emits P (reconcileBinding (logged Iam c) (klogged k) cfg b (desired_of b)
      (kc_ContainsFinalizer k (wib_Finalizers b) BindingFinalizerName))"
    and "\<And>x y r. P (Kube (EvGetWIB x y r))" and "\<And>s r. P (Kube (EvUpdateStatus s r))"
  shows "emits P (bindE (reconcileBinding (logged Iam c) (klogged k) cfg b (desired_of b)
      (kc_ContainsFinalizer k (wib_Finalizers b) BindingFinalizerName))
    (\<lambda>(result, obs, err). case obs of None \<Rightarrow> okE (result, err)
      | Some obs \<Rightarrow> tryE (patchBindingStatus (klogged k) b obs) (\<lambda>r. case r of
          Inl statusErr \<Rightarrow> if err = None then okE (no_requeue, Some statusErr) else okE (result, err)
        | Inr _ \<Rightarrow> okE (result, err))))"
  by (rule emits_bindE [OF rec])
    (auto intro!: emits_intros assms split: option.splits sum.splits)

lemma traced_ReconcileBinding_deletes:
  "traced (ReconcileBinding (logged Iam c) (klogged k) cfg ns n)
     (\<lambda>_ es. binding_deletes_requested k es)"
  unfolding ReconcileBinding_def klogged_sel
proof (rule traced_tryE [OF traced_logcall], goal_cases)
  case (1 b es)
  then have es: "es = [Kube (EvGetWIB ns n (Inr b))]" by auto
  let ?P = "\<lambda>e. ev_deletes e \<longrightarrow> wib_Deleting b \<and> wib_DeleteResources b \<and>
      kc_ContainsFinalizer k (wib_Finalizers b) BindingFinalizerName"
  have "emits ?P (reconcileBinding (logged Iam c) (klogged k) cfg b (desired_of b)
      (kc_ContainsFinalizer k (wib_Finalizers b) BindingFinalizerName))"
    using emits_reconcileBinding_deletes [of b "desired_of b"
        "kc_ContainsFinalizer k (wib_Finalizers b) BindingFinalizerName" c k cfg]
    by (simp add: desired_of_def)
  from emits_after_get [OF this, unfolded emits_def] show ?case
    by (auto simp: Let_def es binding_deletes_requested_def list_all_iff intro!: traced_okE
        elim!: traced_weaken) blast?
next
  case (2 e es)
  then show ?case by (auto intro!: traced_okE simp: binding_deletes_requested_def)
qed auto

section \<open>A run that succeeds had no failures of a kind\<close>

definition fails_fast :: "('e \<Rightarrow> bool) \<Rightarrow> ('a, 'w \<times> 'e list) prog \<Rightarrow> bool" where
  "fails_fast P m \<longleftrightarrow> traced m (\<lambda>r es. (\<exists>x. r = Ok x) \<longrightarrow> list_all (\<lambda>e. \<not> P e) es)"

named_theorems fast_intros \<open>introduction rules for \<open>fails_fast\<close>\<close>

lemma fast_emits: "emits (\<lambda>e. \<not> P e) m \<Longrightarrow> fails_fast P m"
  unfolding fails_fast_def emits_def by (erule traced_weaken) simp

lemma fast_basic [fast_intros]:
  "fails_fast P (okE x)" "fails_fast P (failE e)" "fails_fast P (checkE c)" "fails_fast P (derefE p)"
  by (rule fast_emits, rule emits_intros)+

lemma fast_bindE [fast_intros]:
  assumes "fails_fast P m" and "\<And>x. fails_fast P (k x)"
  shows "fails_fast P (bindE m k)"
  unfolding fails_fast_def
proof (rule traced_bindE [OF assms(1) [unfolded fails_fast_def]], goal_cases)
  case (1 x es)
  then show ?case
    by (intro traced_weaken [OF assms(2) [of x, unfolded fails_fast_def]]) auto
qed auto

lemma fast_wrapE [fast_intros]: "fails_fast P m \<Longrightarrow> fails_fast P (wrapE t m)"
  unfolding fails_fast_def by (erule traced_wrapE) auto

lemma fast_tryE:
  assumes "emits (\<lambda>e. \<not> P e) m" and "\<And>x. fails_fast P (h x)"
  shows "fails_fast P (tryE m h)"
  unfolding fails_fast_def
proof (rule traced_tryE [OF assms(1) [unfolded emits_def]], goal_cases)
  case (1 x es)
  then show ?case
    by (intro traced_weaken [OF assms(2) [of "Inr x", unfolded fails_fast_def]]) auto
next
  case (2 e es)
  then show ?case
    by (intro traced_weaken [OF assms(2) [of "Inl e", unfolded fails_fast_def]]) auto
qed auto

lemma outcome_of_Ok: "outcome_of x = Ok y \<longleftrightarrow> x = Inr y"
  by (cases x) auto

lemma fast_call [fast_intros]: "(\<And>x. \<not> P (ev (Inr x))) \<Longrightarrow> fails_fast P (call (logcall ev f))"
  unfolding fails_fast_def
  by (rule traced_weaken [OF traced_logcall]) (auto simp: outcome_of_Ok)

text \<open>The failures that keep the finalizer: of a deletion or of an update of an account.\<close>

fun cleanup_failed :: "event \<Rightarrow> bool" where
  "cleanup_failed (Iam x) = failed_delete x"
| "cleanup_failed (Kube (EvUpdateSA _ (Inl _))) = True"
| "cleanup_failed (Kube _) = False"

lemma fast_delete_loop [fast_intros]:
  assumes "\<And>i. fails_fast P (del i)"
  shows "fails_fast P (delete_loop del s bs)"
  using assms by (induction bs) (auto intro: fast_intros)

lemma fast_DeleteWorkloadIdentity [fast_intros]:
  "fails_fast cleanup_failed (DeleteWorkloadIdentity (logged Iam c) ns sa iss r p)"
  unfolding DeleteWorkloadIdentity_def deletePolicyStep_def deleteRoleStep_def
    deleteRoleBindingForSA_def deletePolicyBindingForSA_def findByLabelsFI_def findByLabelsSA_def Let_def
  by (auto intro!: fast_intros fast_tryE emits_resolveIamPolicy emits_resolveOrganisationRole
      split: sum.splits option.splits)

lemma fast_deleteCloudResources [fast_intros]:
  "fails_fast cleanup_failed (deleteCloudResources (logged Iam c) cfg d)"
  unfolding deleteCloudResources_def Let_def
  by (auto intro!: fast_intros fast_tryE emits_FindProvider split: sum.splits option.splits)

lemma fast_deleteCloudResourcesSA [fast_intros]:
  "fails_fast cleanup_failed (deleteCloudResourcesSA (logged Iam c) cfg sa)"
  unfolding deleteCloudResourcesSA_def Let_def
  by (auto intro!: fast_intros fast_emits [OF emits_FindProvider])

lemma fast_clear [fast_intros]:
  "fails_fast cleanup_failed (clearServiceAccountIdentityAnnotations (klogged k) ns n)"
  unfolding clearServiceAccountIdentityAnnotations_def klogged_sel
  by (auto intro!: fast_intros fast_tryE emits_call split: sum.splits prod.splits)

section \<open>The finalizer goes last\<close>

text \<open>\<open>obeys J pre es\<close>: every event of \<open>es\<close> satisfies \<open>J\<close> for the events before it.\<close>

fun obeys :: "('e list \<Rightarrow> 'e \<Rightarrow> bool) \<Rightarrow> 'e list \<Rightarrow> 'e list \<Rightarrow> bool" where
  "obeys J pre [] \<longleftrightarrow> True"
| "obeys J pre (e # es) \<longleftrightarrow> J pre e \<and> obeys J (pre @ [e]) es"

lemma obeys_append [simp]:
  "obeys J pre (es @ es') \<longleftrightarrow> obeys J pre es \<and> obeys J (pre @ es) es'"
  by (induction es arbitrary: pre) auto

lemma obeys_all: "list_all (\<lambda>e. \<forall>pre. J pre e) es \<Longrightarrow> obeys J pre es"
  by (induction es arbitrary: pre) auto

text \<open>
  An update of the binding either keeps the controller's finalizer on it, or is made on a
  binding that is being deleted after a clean-up without failures.
\<close>

fun finalizer_rule :: "event list \<Rightarrow> event \<Rightarrow> bool" where
  "finalizer_rule pre (Kube (EvUpdateWIB b r)) \<longleftrightarrow>
     BindingFinalizerName \<in> set (wib_Finalizers b) \<or>
     (wib_Deleting b \<and> list_all (\<lambda>e. \<not> cleanup_failed e) pre)"
| "finalizer_rule pre _ \<longleftrightarrow> True"

lemma finalizer_rule_other: "(\<And>b r. e \<noteq> Kube (EvUpdateWIB b r)) \<Longrightarrow> finalizer_rule pre e"
  by (cases "(pre, e)" rule: finalizer_rule.cases) auto

lemma emits_obeys:
  "emits (\<lambda>e. \<forall>pre. J pre e) m \<Longrightarrow> traced m (\<lambda>_ es. obeys J pre es)"
  unfolding emits_def by (erule traced_weaken) (rule obeys_all)

lemma traced_update_wib:
  assumes "finalizer_rule pre (Kube (EvUpdateWIB b (Inl undefined)))"
  shows "traced (call (UpdateBinding (klogged k) b)) (\<lambda>_ es. obeys finalizer_rule pre es)"
  unfolding klogged_sel by (rule traced_weaken [OF traced_logcall]) (use assms in auto)

text \<open>One step of the deletion branch: what is before it is fine, and so is what follows.\<close>

lemma obeys_tryE:
  assumes "emits (\<lambda>e. \<forall>pre. J pre e) m" and "fails_fast P m"
    and "list_all (\<lambda>e. \<not> P e) pre"
    and "\<And>x es. list_all (\<lambda>e. \<not> P e) (pre @ es) \<Longrightarrow> traced (h (Inr x)) (\<lambda>_ es'. obeys J (pre @ es) es')"
    and "\<And>e pre'. traced (h (Inl e)) (\<lambda>_ es'. obeys J pre' es')"
  shows "traced (tryE m h) (\<lambda>_ es. obeys J pre es)"
proof -
  note m = traced_conj [OF emits_obeys [OF assms(1)] assms(2) [unfolded fails_fast_def]]
  show ?thesis
    by (rule traced_tryE [OF m]) (use assms(3-5) in \<open>auto elim!: traced_weaken\<close>)
qed

lemma traced_finish: "traced (finish obs err) (\<lambda>_ es. obeys J pre es)"
  unfolding finish_def by (rule traced_okE) simp

lemma traced_reconcileDeletion:
  assumes del: "wib_Deleting obj" and pre: "list_all (\<lambda>e. \<not> cleanup_failed e) pre"
  shows "traced (reconcileDeletion (logged Iam c) (klogged k) cfg obj d)
    (\<lambda>_ es. obeys finalizer_rule pre es)"
  unfolding reconcileDeletion_def
proof (rule obeys_tryE [OF _ fast_clear pre], goal_cases)
  case 1
  then show ?case by (auto intro!: emits_intros)
next
  case (2 u es)
  show ?case
  proof (unfold sum.case, rule obeys_tryE [where P = cleanup_failed, OF _ _ 2], goal_cases)
    case 1
    show ?case by (cases "des_DeleteResources d") (auto intro!: emits_intros)
  next
    case 2
    show ?case by (cases "des_DeleteResources d") (auto intro!: fast_intros)
  next
    case (3 u es')
    let ?b = "obj\<lparr>wib_Finalizers := kc_RemoveFinalizer (klogged k) (wib_Finalizers obj) BindingFinalizerName\<rparr>"
    have "traced (call (UpdateBinding (klogged k) ?b))
        (\<lambda>_ es''. obeys finalizer_rule (pre @ es @ es') es'')"
      by (rule traced_update_wib) (use 3 del in simp)
    then show ?case
      by (simp del: klogged_sel) (rule traced_tryE, auto intro!: traced_finish simp: finish_def traced_okE)
  next
    case (4 e pre')
    then show ?case by (simp add: traced_finish)
  qed
next
  case (3 e pre')
  then show ?case by (simp add: traced_finish)
qed

lemma emits_reconcile_live:
  assumes "finalizer_laws k" and "\<not> wib_Deleting obj"
  shows "emits (\<lambda>e. \<forall>pre. finalizer_rule pre e) (reconcileBinding (logged Iam c) (klogged k) cfg obj d fin)"
proof -
  have fin: "BindingFinalizerName \<in> set (kc_AddFinalizer k fs BindingFinalizerName)" for fs
    using assms(1) by (auto simp: finalizer_laws_def)
  show ?thesis
    unfolding reconcileBinding_def Let_def using assms(2)
    by (auto intro!: emits_intros emits_call simp: fin split: sum.splits option.splits)
qed

lemma traced_reconcileBinding_finalizer:
  assumes "finalizer_laws k" and "list_all (\<lambda>e. \<not> cleanup_failed e) pre"
  shows "traced (reconcileBinding (logged Iam c) (klogged k) cfg obj d fin)
    (\<lambda>_ es. obeys finalizer_rule pre es)"
proof (cases "wib_Deleting obj")
  case True
  with traced_reconcileDeletion [OF True assms(2), of c k cfg d] show ?thesis
    by (simp add: reconcileBinding_def traced_finish)
next
  case False
  from emits_obeys [OF emits_reconcile_live [OF assms(1) False]] show ?thesis .
qed

lemma emits_report:
  "emits (\<lambda>e. \<forall>pre. finalizer_rule pre e)
     (case obs of None \<Rightarrow> okE (result, err)
      | Some obs \<Rightarrow> tryE (patchBindingStatus (klogged k) b obs) (\<lambda>r. case r of
          Inl statusErr \<Rightarrow> if err = None then okE (no_requeue, Some statusErr) else okE (result, err)
        | Inr _ \<Rightarrow> okE (result, err)))"
  by (auto intro!: emits_intros split: option.splits sum.splits)

lemma traced_ReconcileBinding_finalizer:
  assumes "finalizer_laws k"
  shows "traced (ReconcileBinding (logged Iam c) (klogged k) cfg ns n)
    (\<lambda>_ es. obeys finalizer_rule [] es)"
  unfolding ReconcileBinding_def klogged_sel
proof (rule traced_tryE [OF traced_logcall], goal_cases)
  case (1 b es)
  let ?rec = "reconcileBinding (logged Iam c) (klogged k) cfg b (desired_of b)
      (kc_ContainsFinalizer k (wib_Finalizers b) BindingFinalizerName)"
  from 1 have es: "es = [Kube (EvGetWIB ns n (Inr b))]" by auto
  then have "list_all (\<lambda>e. \<not> cleanup_failed e) es" by simp
  note rec = traced_reconcileBinding_finalizer [OF assms this, of c cfg b "desired_of b"
      "kc_ContainsFinalizer k (wib_Finalizers b) BindingFinalizerName"]
  have "traced (bindE ?rec (\<lambda>(result, obs, err). case obs of None \<Rightarrow> okE (result, err)
      | Some obs \<Rightarrow> tryE (patchBindingStatus (klogged k) b obs) (\<lambda>r. case r of
          Inl statusErr \<Rightarrow> if err = None then okE (no_requeue, Some statusErr) else okE (result, err)
        | Inr _ \<Rightarrow> okE (result, err)))) (\<lambda>_ es'. obeys finalizer_rule es es')"
    by (rule traced_bindE [OF rec])
      (use emits_obeys [OF emits_report] in \<open>auto split: prod.split elim!: traced_weaken\<close>)
  then show ?case
    by (auto simp: Let_def es intro!: traced_okE)
next
  case (2 e es)
  then show ?case by (auto intro!: traced_okE)
qed auto

section \<open>Annotated accounts\<close>

lemma emits_dropFinalizer [emits_intros]:
  "(\<And>s r. P (Kube (EvUpdateSA s r))) \<Longrightarrow> emits P (dropFinalizer (klogged k) sa)"
  unfolding dropFinalizer_def klogged_sel
  by (auto intro!: emits_intros emits_call split: sum.splits)

lemma emits_release_deletes:
  "emits (\<lambda>e. ev_deletes e \<longrightarrow> DeleteResources (ksa_Annotations sa))
     (releaseServiceAccount (logged Iam c) (klogged k) cfg sa)"
  unfolding releaseServiceAccount_def
  by (auto intro!: emits_intros split: sum.splits)

lemma emits_ensureAnnotated:
  assumes "\<And>x. \<not> deletes x \<Longrightarrow> P (Iam x)"
    and "\<And>x y r. P (Kube (EvGetSA x y r))" and "\<And>s r. P (Kube (EvUpdateSA s r))"
  shows "emits P (ensureAnnotated (logged Iam c) (klogged k) cfg sa)"
  unfolding ensureAnnotated_def Let_def
  by (auto intro!: emits_intros assms split: sum.splits option.splits)

definition account_released :: "'w kube_client \<Rightarrow> KubeServiceAccount \<Rightarrow> bool" where
  "account_released k s \<longleftrightarrow> (ksa_Deleting s \<or> \<not> IsEnabled (ksa_Annotations s)) \<and>
     kc_ContainsFinalizer k (ksa_Finalizers s) FinalizerName"

definition account_deletes_requested :: "'w kube_client \<Rightarrow> event list \<Rightarrow> bool" where
  "account_deletes_requested k es \<longleftrightarrow>
     (\<forall>e \<in> set es. ev_deletes e \<longrightarrow>
        (\<exists>ns n s. Kube (EvGetSA ns n (Inr s)) \<in> set es \<and> account_released k s \<and>
           DeleteResources (ksa_Annotations s)))"

lemma traced_ReconcileServiceAccount_deletes:
  "traced (ReconcileServiceAccount (logged Iam c) (klogged k) cfg ns n)
     (\<lambda>_ es. account_deletes_requested k es)"
  unfolding ReconcileServiceAccount_def klogged_sel
proof (rule traced_tryE [OF traced_logcall], goal_cases)
  case (1 s es)
  then have es: "es = [Kube (EvGetSA ns n (Inr s))]" by auto
  let ?fin = "kc_ContainsFinalizer k (ksa_Finalizers s) FinalizerName"
  let ?P = "\<lambda>e. ev_deletes e \<longrightarrow> account_released k s \<and> DeleteResources (ksa_Annotations s)"
  have "emits ?P (if cfg_WatchNamespaces cfg \<noteq> [] \<and> \<not> contains (cfg_WatchNamespaces cfg) (ksa_Namespace s)
      then okE (no_requeue, None)
      else if ksa_Deleting s then
        (if \<not> ?fin then okE (no_requeue, None) else releaseServiceAccount (logged Iam c) (klogged k) cfg s)
      else if \<not> IsEnabled (ksa_Annotations s) then
        (if ?fin then releaseServiceAccount (logged Iam c) (klogged k) cfg s else okE (no_requeue, None))
      else if \<not> ?fin then
        tryE (call (UpdateServiceAccount (klogged k) (s\<lparr>ksa_Finalizers :=
            kc_AddFinalizer k (ksa_Finalizers s) FinalizerName\<rparr>)))
          (\<lambda>r. case r of
             Inl err \<Rightarrow> okE (no_requeue, Some err)
           | Inr _ \<Rightarrow> okE (\<lparr>rr_Requeue = True, rr_RequeueAfter = 0\<rparr>, None))
      else ensureAnnotated (logged Iam c) (klogged k) cfg s)"
    by (auto intro!: emits_intros emits_release_deletes emits_call emits_ensureAnnotated simp: account_released_def
        split: sum.splits)
  from this [unfolded klogged_sel emits_def] show ?case
    unfolding Let_def sum.case es
    by (rule traced_weaken) (auto simp: account_deletes_requested_def list_all_iff)
next
  case (2 e es)
  then show ?case by (auto intro!: traced_okE simp: account_deletes_requested_def)
qed auto


section \<open>The finalizer of an account\<close>

text \<open>
  An update of an account keeps the finalizer, or keeps the finalizers of an account read
  before, or is of an account that was read as released, with no failed deletion before it.
\<close>

fun account_rule :: "'w kube_client \<Rightarrow> event list \<Rightarrow> event \<Rightarrow> bool" where
  "account_rule k pre (Kube (EvUpdateSA s r)) \<longleftrightarrow>
     FinalizerName \<in> set (ksa_Finalizers s) \<or>
     (\<exists>ns n s0. Kube (EvGetSA ns n (Inr s0)) \<in> set pre \<and>
        (ksa_Finalizers s = ksa_Finalizers s0 \<or>
         account_released k s0 \<and> list_all (\<lambda>e. \<not> cleanup_failed e) pre))"
| "account_rule k pre _ \<longleftrightarrow> True"

lemma obeys_none: "list_all (\<lambda>_. False) es \<Longrightarrow> obeys J pre es"
  by (cases es) auto

lemma traced_patchStatus_rule:
  "traced (patchStatus (klogged k) sa st e res) (\<lambda>_ es. obeys (account_rule k) pre es)"
  unfolding patchStatus_def klogged_sel
proof (rule traced_bindE [OF traced_logcall], goal_cases)
  case (1 s es)
  then have es: "es = [Kube (EvGetSA (ksa_Namespace sa) (ksa_Name sa) (Inr s))]" by auto
  show ?case
  proof (rule traced_bindE [OF emits_nowE [of "\<lambda>_. False", unfolded emits_def]], goal_cases)
    case (1 t es')
    then have "es' = []" by (cases es') auto
    then show ?case
      by (intro traced_weaken [OF traced_logcall]) (force simp: es)
  qed (auto simp: es obeys_none)
qed auto

lemma traced_update_sa:
  assumes "account_rule k pre (Kube (EvUpdateSA s (Inl undefined)))"
  shows "traced (call (UpdateServiceAccount (klogged k) s)) (\<lambda>_ es. obeys (account_rule k) pre es)"
proof -
  have "account_rule k pre (Kube (EvUpdateSA s r))" for r
    using assms by (simp only: account_rule.simps)
  then show ?thesis
    unfolding klogged_sel by (intro traced_weaken [OF traced_logcall]) (auto simp del: account_rule.simps)
qed

lemma obeys_ignoreE:
  assumes "\<And>pre. traced m (\<lambda>_ es. obeys J pre es)" and "\<And>pre. traced k (\<lambda>_ es. obeys J pre es)"
  shows "traced (ignoreE m k) (\<lambda>_ es. obeys J pre es)"
  unfolding ignoreE_def
  by (rule traced_tryE [OF assms(1)]) (auto intro: traced_weaken [OF assms(2)])

lemma obeys_okE: "traced (okE x) (\<lambda>_ es. obeys J pre es)"
  by (rule traced_okE) simp

lemma traced_release_rule:
  assumes s: "Kube (EvGetSA ns n (Inr s)) \<in> set pre" "account_released k s"
    and pre: "list_all (\<lambda>e. \<not> cleanup_failed e) pre"
  shows "traced (releaseServiceAccount (logged Iam c) (klogged k) cfg s)
    (\<lambda>_ es. obeys (account_rule k) pre es)"
  unfolding releaseServiceAccount_def
proof (rule obeys_tryE [where P = cleanup_failed, OF _ _ pre], goal_cases)
  case 1
  show ?case by (cases "DeleteResources (ksa_Annotations s)") (auto intro!: emits_intros)
next
  case 2
  show ?case by (cases "DeleteResources (ksa_Annotations s)") (auto intro!: fast_intros)
next
  case (3 u es)
  then have "traced (call (UpdateServiceAccount (klogged k) (s\<lparr>ksa_Finalizers :=
      kc_RemoveFinalizer (klogged k) (ksa_Finalizers s) FinalizerName\<rparr>)))
    (\<lambda>_ es'. obeys (account_rule k) (pre @ es) es')"
    by (intro traced_update_sa) (use s in auto)
  then show ?case
    unfolding dropFinalizer_def by (simp del: klogged_sel) (rule traced_tryE, auto intro!: traced_okE)
next
  case (4 e pre')
  then show ?case by (auto intro!: obeys_ignoreE traced_patchStatus_rule obeys_okE)
qed

lemma obeys_tryE_any:
  assumes "\<And>pre. traced m (\<lambda>_ es. obeys J pre es)" and "\<And>r pre. traced (h r) (\<lambda>_ es. obeys J pre es)"
  shows "traced (tryE m h) (\<lambda>_ es. obeys J pre es)"
  by (rule traced_tryE [OF assms(1)]) (auto intro: traced_weaken [OF assms(2)])

lemma traced_Ensure_rule:
  "traced (EnsureWorkloadIdentity (logged Iam c) inp) (\<lambda>_ es. obeys (account_rule k) pre es)"
  by (rule emits_obeys) (auto intro!: emits_Ensure)

lemma traced_ensureAnnotated_rule:
  "traced (ensureAnnotated (logged Iam c) (klogged k) cfg s) (\<lambda>_ es. obeys (account_rule k) pre es)"
  unfolding ensureAnnotated_def Let_def
  by (auto intro!: obeys_ignoreE obeys_tryE_any traced_patchStatus_rule traced_Ensure_rule obeys_okE
      split: sum.splits option.splits)

lemma traced_ReconcileServiceAccount_rule:
  assumes "finalizer_laws k"
  shows "traced (ReconcileServiceAccount (logged Iam c) (klogged k) cfg ns n)
    (\<lambda>_ es. obeys (account_rule k) [] es)"
  unfolding ReconcileServiceAccount_def klogged_sel
proof (rule traced_tryE [OF traced_logcall], goal_cases)
  case (1 s es)
  let ?pre = "[Kube (EvGetSA ns n (Inr s))]"
  from 1 have es: "es = ?pre" by auto
  have rel: "account_released k s \<Longrightarrow>
      traced (releaseServiceAccount (logged Iam c) (klogged k) cfg s) (\<lambda>_ es. obeys (account_rule k) ?pre es)"
    by (rule traced_release_rule) auto
  have add: "traced (call (UpdateServiceAccount (klogged k) (s\<lparr>ksa_Finalizers :=
      kc_AddFinalizer k (ksa_Finalizers s) FinalizerName\<rparr>))) (\<lambda>_ es. obeys (account_rule k) pre es)" for pre
    by (rule traced_update_sa) (use assms in \<open>simp add: finalizer_laws_def\<close>)
  show ?case
    unfolding es
    by (auto simp: Let_def account_released_def obeys_okE traced_ensureAnnotated_rule simp del: klogged_sel
        intro!: rel obeys_tryE_any add [unfolded klogged_sel] split: sum.splits)
next
  case (2 e es)
  then show ?case by (auto intro!: traced_okE)
qed auto

end
