(* ===== verification/PodMutator.thy ===== *)
theory PodMutator
  imports KubeApi
begin

text \<open>
  \<^verbatim>\<open>internal/webhook/podmutator\<close>: the mutation of a pod (\<^verbatim>\<open>mutate.go\<close>) and the admission
  handler around it (\<^verbatim>\<open>handler.go\<close>). A function of the source that changes an object through
  a pointer and reports whether it did returns the report and the new object. The interface
  \<open>injector\<close> states what all of these functions share; each of them is an instance of it.
\<close>

section \<open>Pods\<close>

text \<open>The fields the mutator reads or writes; all others are left as they are.\<close>

record EnvVar =
  env_Name :: string
  env_Value :: string

record VolumeMount =
  vm_Name :: string
  vm_MountPath :: string
  vm_ReadOnly :: bool

record Container =
  c_Name :: string
  c_Env :: "EnvVar list"
  c_VolumeMounts :: "VolumeMount list"

record ServiceAccountTokenProjection =
  tok_Path :: string
  tok_Audience :: string
  tok_ExpirationSeconds :: "int option"

record VolumeProjection =
  src_ServiceAccountToken :: "ServiceAccountTokenProjection option"

text \<open>\<open>vol_Projected\<close> is nil for every other kind of volume.\<close>

record Volume =
  vol_Name :: string
  vol_Projected :: "VolumeProjection list option"

record Pod =
  pod_Namespace :: string
  pod_Labels :: smap
  pod_ServiceAccountName :: string
  pod_InitContainers :: "Container list"
  pod_Containers :: "Container list"
  pod_Volumes :: "Volume list"

section \<open>The identity of a service account\<close>

record Identity =
  id_OrganisationID :: string
  id_ServiceAccountID :: string
  id_ProjectID :: string

definition Complete :: "Identity \<Rightarrow> bool" where
  "Complete i \<longleftrightarrow> TrimSpace (id_OrganisationID i) \<noteq> [] \<and> TrimSpace (id_ServiceAccountID i) \<noteq> []"

definition IdentityFromServiceAccount :: "KubeServiceAccount option \<Rightarrow> Identity" where
  "IdentityFromServiceAccount sa =
     (case sa of
        None \<Rightarrow> \<lparr>id_OrganisationID = [], id_ServiceAccountID = [], id_ProjectID = []\<rparr>
      | Some sa \<Rightarrow>
          \<lparr>id_OrganisationID = TrimSpace (get (ksa_Annotations sa) AnnotationOrganisationID),
           id_ServiceAccountID = TrimSpace (get (ksa_Annotations sa) AnnotationServiceAccountID),
           id_ProjectID = TrimSpace (get (ksa_Annotations sa) AnnotationProjectID)\<rparr>)"

definition OptedIn :: "Pod option \<Rightarrow> bool" where
  "OptedIn pod =
     (case pod of None \<Rightarrow> False | Some p \<Rightarrow> get (pod_Labels p) LabelWIFUse = LabelWIFUseValue)"

section \<open>Mutation\<close>

definition ensureEnv :: "string \<Rightarrow> string \<Rightarrow> Container \<Rightarrow> bool \<times> Container" where
  "ensureEnv name value c =
     (if list_ex (\<lambda>e. env_Name e = name) (c_Env c) then (False, c)
      else (True, c\<lparr>c_Env := c_Env c @ [\<lparr>env_Name = name, env_Value = value\<rparr>]\<rparr>))"

definition ensureVolumeMount :: "Container \<Rightarrow> bool \<times> Container" where
  "ensureVolumeMount c =
     (if list_ex (\<lambda>m. vm_Name m = ProjectedVolumeName \<or> vm_MountPath m = ProjectedTokenMountPath)
           (c_VolumeMounts c)
      then (False, c)
      else (True, c\<lparr>c_VolumeMounts := c_VolumeMounts c @
              [\<lparr>vm_Name = ProjectedVolumeName, vm_MountPath = ProjectedTokenMountPath,
                vm_ReadOnly = True\<rparr>]\<rparr>))"

definition injectContainer :: "Identity \<Rightarrow> Container \<Rightarrow> bool \<times> Container" where
  "injectContainer i c =
     (let (changed, c) = ensureEnv EnvOrganisationID (id_OrganisationID i) c;
          (b, c) = ensureEnv EnvServiceAccountID (id_ServiceAccountID i) c;
          changed = (if b then True else changed);
          (changed, c) =
            (if id_ProjectID i \<noteq> [] then
               (let (b, c) = ensureEnv EnvProjectID (id_ProjectID i) c
                in (if b then True else changed, c))
             else (changed, c));
          (b, c) = ensureEnv EnvSubjectTokenFile DefaultSubjectTokenFile c;
          changed = (if b then True else changed);
          (b, c) = ensureVolumeMount c;
          changed = (if b then True else changed)
      in (changed, c))"

definition volumeHasThalassaToken :: "Volume \<Rightarrow> string \<Rightarrow> bool" where
  "volumeHasThalassaToken v audience =
     (case vol_Projected v of
        None \<Rightarrow> False
      | Some sources \<Rightarrow>
          list_ex (\<lambda>src. case src_ServiceAccountToken src of
              None \<Rightarrow> False
            | Some tok \<Rightarrow> tok_Path tok = ProjectedTokenPath \<and> tok_Audience tok = audience) sources)"

definition thalassa_volume :: "string \<Rightarrow> Volume" where
  "thalassa_volume audience = \<lparr>
     vol_Name = ProjectedVolumeName,
     vol_Projected = Some [\<lparr>src_ServiceAccountToken = Some \<lparr>
       tok_Path = ProjectedTokenPath,
       tok_Audience = audience,
       tok_ExpirationSeconds = Some 3600\<rparr>\<rparr>]\<rparr>"

definition ensureProjectedTokenVolume :: "string \<Rightarrow> Pod \<Rightarrow> bool \<times> Pod" where
  "ensureProjectedTokenVolume audience pod =
     (if list_ex (\<lambda>v. vol_Name v = ProjectedVolumeName \<or> volumeHasThalassaToken v audience)
           (pod_Volumes pod)
      then (False, pod)
      else (True, pod\<lparr>pod_Volumes := pod_Volumes pod @ [thalassa_volume audience]\<rparr>))"

text \<open>The loops of \<^verbatim>\<open>MutatePod\<close> over the containers, in place.\<close>

fun inject_loop :: "Identity \<Rightarrow> Container list \<Rightarrow> bool \<Rightarrow> bool \<times> Container list" where
  "inject_loop i [] changed = (changed, [])"
| "inject_loop i (c # cs) changed =
     (let (b, c) = injectContainer i c;
          (changed, cs) = inject_loop i cs (if b then True else changed)
      in (changed, c # cs))"

definition MutatePod :: "Pod option \<Rightarrow> Identity \<Rightarrow> string \<Rightarrow> bool \<times> Pod option" where
  "MutatePod pod i audience =
     (case pod of
        None \<Rightarrow> (False, None)
      | Some p \<Rightarrow>
          if \<not> Complete i then (False, Some p)
          else
            (let audience = TrimSpace audience in
             if audience = [] then (False, Some p)
             else
               (let (changed, p) = ensureProjectedTokenVolume audience p;
                    (changed, inits) = inject_loop i (pod_InitContainers p) changed;
                    p = p\<lparr>pod_InitContainers := inits\<rparr>;
                    (changed, cs) = inject_loop i (pod_Containers p) changed;
                    p = p\<lparr>pod_Containers := cs\<rparr>
                in (changed, Some p))))"

section \<open>The admission handler\<close>

text \<open>
  \<open>Patched raw pod\<close> is \<^verbatim>\<open>PatchResponseFromRaw\<close> on the raw object and the marshalled pod. The
  decoder and \<^verbatim>\<open>json.Marshal\<close> are parameters; a request is its namespace and raw object.
\<close>

datatype 'raw response = Errored int error | Allowed string | Patched 'raw 'raw

record 'raw request =
  req_Namespace :: string
  req_Raw :: 'raw

definition Handle ::
    "'w kube_client \<Rightarrow> ('raw request \<Rightarrow> error + Pod) \<Rightarrow> (Pod \<Rightarrow> error + 'raw) \<Rightarrow> string \<Rightarrow>
     'raw request \<Rightarrow> ('raw response, 'w) prog" where
  "Handle k decode marshal aud req =
     (case decode req of
        Inl e \<Rightarrow> okE (Errored 400 e)
      | Inr pod \<Rightarrow>
          (let pod = (if pod_Namespace pod = [] then pod\<lparr>pod_Namespace := req_Namespace req\<rparr> else pod)
           in
           if \<not> OptedIn (Some pod) then okE (Allowed ''wif.use label not set'')
           else
             (let saName = (if pod_ServiceAccountName pod = [] then ''default''
                            else pod_ServiceAccountName pod)
              in
              tryE (call (GetServiceAccount k (pod_Namespace pod) saName)) (\<lambda>got.
                case got of
                  Inl e \<Rightarrow>
                    if isNotFound e then okE (Allowed ''serviceaccount not found'')
                    else okE (Errored 500 e)
                | Inr sa \<Rightarrow>
                    (let i = IdentityFromServiceAccount (Some sa) in
                     if \<not> Complete i then okE (Allowed ''wif identity annotations incomplete'')
                     else
                       (case MutatePod (Some pod) i aud of
                          (changed, pod') \<Rightarrow>
                            if \<not> changed then okE (Allowed ''already injected or no changes'')
                            else
                              bindE (derefE pod') (\<lambda>p.
                                case marshal p of
                                  Inl e \<Rightarrow> okE (Errored 500 e)
                                | Inr raw \<Rightarrow> okE (Patched (req_Raw req) raw))))))))"

section \<open>Injectors\<close>

text \<open>
  An injector settles what it is run on, reports a change exactly when there was something
  to settle, and leaves a settled object alone.
\<close>

locale injector =
  fixes inject :: "'a \<Rightarrow> bool \<times> 'a"
    and settled :: "'a \<Rightarrow> bool"
  assumes settles: "settled (snd (inject x))"
    and reports: "fst (inject x) \<longleftrightarrow> \<not> settled x"
    and keeps: "settled x \<Longrightarrow> snd (inject x) = x"
begin

lemma settled_run: "settled x \<Longrightarrow> inject x = (False, x)"
  using reports keeps by (metis prod.collapse)

lemma idempotent: "inject (snd (inject x)) = (False, snd (inject x))"
  by (rule settled_run [OF settles])

lemma quiet: "\<not> fst (inject x) \<Longrightarrow> snd (inject x) = x"
  using reports keeps by blast

lemma changed_iff: "fst (inject x) \<longleftrightarrow> snd (inject x) \<noteq> x"
  using reports settles keeps by metis

end

text \<open>Running one injector after another, when the second does not undo the first.\<close>

definition then_inject ::
    "('a \<Rightarrow> bool \<times> 'a) \<Rightarrow> ('a \<Rightarrow> bool \<times> 'a) \<Rightarrow> 'a \<Rightarrow> bool \<times> 'a" where
  "then_inject f g x =
     (let (b, y) = f x; (b', z) = g y in (if b' then True else b, z))"

lemma then_inject_sel:
  "fst (then_inject f g x) \<longleftrightarrow> fst (f x) \<or> fst (g (snd (f x)))"
  "snd (then_inject f g x) = snd (g (snd (f x)))"
  by (simp_all add: then_inject_def case_prod_unfold Let_def)

locale injector_pair = first: injector f sf + second: injector g sg
  for f :: "'a \<Rightarrow> bool \<times> 'a" and sf and g :: "'a \<Rightarrow> bool \<times> 'a" and sg +
  assumes stable: "sf x \<Longrightarrow> sf (snd (g x))"

sublocale injector_pair \<subseteq> both: injector "then_inject f g" "\<lambda>x. sf x \<and> sg x"
proof
  fix x
  show "sf (snd (then_inject f g x)) \<and> sg (snd (then_inject f g x))"
    by (simp add: then_inject_sel second.settles stable first.settles)
  show "fst (then_inject f g x) \<longleftrightarrow> \<not> (sf x \<and> sg x)"
    using first.reports [of x] second.reports first.keeps [of x] by (auto simp: then_inject_sel)
  show "sf x \<and> sg x \<Longrightarrow> snd (then_inject f g x) = x"
    by (simp add: then_inject_sel first.keeps second.keeps)
qed

text \<open>Running an injector on every element of a list.\<close>

definition each :: "('a \<Rightarrow> bool \<times> 'a) \<Rightarrow> 'a list \<Rightarrow> bool \<times> 'a list" where
  "each f xs = (list_ex (\<lambda>x. fst (f x)) xs, map (\<lambda>x. snd (f x)) xs)"

context injector
begin

lemma each_injector: "injector (each inject) (list_all settled)"
proof
  fix xs
  show "list_all settled (snd (each inject xs))"
    by (simp add: each_def list_all_iff settles)
  show "fst (each inject xs) \<longleftrightarrow> \<not> list_all settled xs"
    by (simp add: each_def list_all_iff list_ex_iff reports)
  show "list_all settled xs \<Longrightarrow> snd (each inject xs) = xs"
    by (simp add: each_def list_all_iff keeps map_idI)
qed

end

section \<open>The steps of the mutation are injectors\<close>

definition has_env :: "string \<Rightarrow> Container \<Rightarrow> bool" where
  "has_env n c \<longleftrightarrow> list_ex (\<lambda>e. env_Name e = n) (c_Env c)"

definition has_mount :: "Container \<Rightarrow> bool" where
  "has_mount c \<longleftrightarrow>
     list_ex (\<lambda>m. vm_Name m = ProjectedVolumeName \<or> vm_MountPath m = ProjectedTokenMountPath)
       (c_VolumeMounts c)"

definition has_volume :: "string \<Rightarrow> Pod \<Rightarrow> bool" where
  "has_volume audience p \<longleftrightarrow>
     list_ex (\<lambda>v. vol_Name v = ProjectedVolumeName \<or> volumeHasThalassaToken v audience) (pod_Volumes p)"

definition ensureEnv_if :: "bool \<Rightarrow> string \<Rightarrow> string \<Rightarrow> Container \<Rightarrow> bool \<times> Container" where
  "ensureEnv_if b n v c = (if b then ensureEnv n v c else (False, c))"

lemma has_env_ensureEnv [simp]: "has_env n (snd (ensureEnv m v c)) \<longleftrightarrow> n = m \<or> has_env n c"
  by (auto simp: has_env_def ensureEnv_def list_ex_iff)

lemma has_mount_ensureEnv [simp]: "has_mount (snd (ensureEnv m v c)) = has_mount c"
  by (simp add: has_mount_def ensureEnv_def)

lemma has_env_ensureVolumeMount [simp]: "has_env n (snd (ensureVolumeMount c)) = has_env n c"
  by (simp add: has_env_def ensureVolumeMount_def)

interpretation env: injector "ensureEnv n v" "has_env n" for n v
  by unfold_locales (auto simp: ensureEnv_def has_env_def)

interpretation env_if: injector "ensureEnv_if b n v" "\<lambda>c. b \<longrightarrow> has_env n c" for b n v
  by unfold_locales (auto simp: ensureEnv_if_def env.reports env.keeps)

interpretation mount: injector ensureVolumeMount has_mount
  by unfold_locales (auto simp: ensureVolumeMount_def has_mount_def)

interpretation volume: injector "ensureProjectedTokenVolume a" "has_volume a" for a
  by unfold_locales (auto simp: ensureProjectedTokenVolume_def has_volume_def thalassa_volume_def)

interpretation org_sa: injector_pair
    "ensureEnv EnvOrganisationID o'" "has_env EnvOrganisationID"
    "ensureEnv EnvServiceAccountID s" "has_env EnvServiceAccountID" for o' s
  by unfold_locales simp

interpretation org_sa_project: injector_pair
    "then_inject (ensureEnv EnvOrganisationID o') (ensureEnv EnvServiceAccountID s)"
    "\<lambda>c. has_env EnvOrganisationID c \<and> has_env EnvServiceAccountID c"
    "ensureEnv_if b EnvProjectID p" "\<lambda>c. b \<longrightarrow> has_env EnvProjectID c" for o' s b p
  by unfold_locales (simp add: ensureEnv_if_def)

definition inject_env :: "Identity \<Rightarrow> Container \<Rightarrow> bool \<times> Container" where
  "inject_env i =
     then_inject
       (then_inject
         (then_inject (ensureEnv EnvOrganisationID (id_OrganisationID i))
           (ensureEnv EnvServiceAccountID (id_ServiceAccountID i)))
         (ensureEnv_if (id_ProjectID i \<noteq> []) EnvProjectID (id_ProjectID i)))
       (ensureEnv EnvSubjectTokenFile DefaultSubjectTokenFile)"

definition container_settled :: "Identity \<Rightarrow> Container \<Rightarrow> bool" where
  "container_settled i c \<longleftrightarrow>
     (((has_env EnvOrganisationID c \<and> has_env EnvServiceAccountID c) \<and>
       (id_ProjectID i \<noteq> [] \<longrightarrow> has_env EnvProjectID c)) \<and> has_env EnvSubjectTokenFile c) \<and> has_mount c"

interpretation env_all: injector_pair
    "then_inject
       (then_inject (ensureEnv EnvOrganisationID (id_OrganisationID i))
         (ensureEnv EnvServiceAccountID (id_ServiceAccountID i)))
       (ensureEnv_if (id_ProjectID i \<noteq> []) EnvProjectID (id_ProjectID i))"
    "\<lambda>c. (has_env EnvOrganisationID c \<and> has_env EnvServiceAccountID c) \<and>
         (id_ProjectID i \<noteq> [] \<longrightarrow> has_env EnvProjectID c)"
    "ensureEnv EnvSubjectTokenFile DefaultSubjectTokenFile" "has_env EnvSubjectTokenFile" for i
  by unfold_locales simp

interpretation env_mount: injector_pair "inject_env i"
    "\<lambda>c. ((has_env EnvOrganisationID c \<and> has_env EnvServiceAccountID c) \<and>
         (id_ProjectID i \<noteq> [] \<longrightarrow> has_env EnvProjectID c)) \<and> has_env EnvSubjectTokenFile c"
    ensureVolumeMount has_mount for i
  unfolding inject_env_def by unfold_locales simp

lemma injectContainer_steps: "injectContainer i = then_inject (inject_env i) ensureVolumeMount"
  by (rule ext) (auto simp: injectContainer_def inject_env_def then_inject_def ensureEnv_if_def
      case_prod_unfold Let_def)

interpretation container: injector "injectContainer i" "container_settled i" for i
  unfolding injectContainer_steps container_settled_def by (rule env_mount.both.injector_axioms)

interpretation containers: injector "each (injectContainer i)" "list_all (container_settled i)" for i
  by (rule container.each_injector)

lemma inject_loop_each:
  "inject_loop i cs b = (b \<or> fst (each (injectContainer i) cs), snd (each (injectContainer i) cs))"
  by (induction cs arbitrary: b) (auto simp: each_def case_prod_unfold Let_def)

text \<open>The two container lists of a pod.\<close>

definition on_inits :: "(Container list \<Rightarrow> bool \<times> Container list) \<Rightarrow> Pod \<Rightarrow> bool \<times> Pod" where
  "on_inits f p = (let (b, cs) = f (pod_InitContainers p) in (b, p\<lparr>pod_InitContainers := cs\<rparr>))"

definition on_containers :: "(Container list \<Rightarrow> bool \<times> Container list) \<Rightarrow> Pod \<Rightarrow> bool \<times> Pod" where
  "on_containers f p = (let (b, cs) = f (pod_Containers p) in (b, p\<lparr>pod_Containers := cs\<rparr>))"

lemma on_sel [simp]:
  "fst (on_inits f p) = fst (f (pod_InitContainers p))"
  "snd (on_inits f p) = p\<lparr>pod_InitContainers := snd (f (pod_InitContainers p))\<rparr>"
  "fst (on_containers f p) = fst (f (pod_Containers p))"
  "snd (on_containers f p) = p\<lparr>pod_Containers := snd (f (pod_Containers p))\<rparr>"
  by (simp_all add: on_inits_def on_containers_def case_prod_unfold Let_def)

interpretation inits: injector "on_inits (each (injectContainer i))"
    "\<lambda>p. list_all (container_settled i) (pod_InitContainers p)" for i
  by unfold_locales (auto simp: containers.settles containers.reports containers.keeps)

interpretation mains: injector "on_containers (each (injectContainer i))"
    "\<lambda>p. list_all (container_settled i) (pod_Containers p)" for i
  by unfold_locales (auto simp: containers.settles containers.reports containers.keeps)

definition mutate :: "Identity \<Rightarrow> string \<Rightarrow> Pod \<Rightarrow> bool \<times> Pod" where
  "mutate i a =
     then_inject
       (then_inject (ensureProjectedTokenVolume a) (on_inits (each (injectContainer i))))
       (on_containers (each (injectContainer i)))"

definition pod_settled :: "Identity \<Rightarrow> string \<Rightarrow> Pod \<Rightarrow> bool" where
  "pod_settled i a p \<longleftrightarrow>
     (has_volume a p \<and> list_all (container_settled i) (pod_InitContainers p)) \<and>
     list_all (container_settled i) (pod_Containers p)"

interpretation volume_inits: injector_pair "ensureProjectedTokenVolume a" "has_volume a"
    "on_inits (each (injectContainer i))"
    "\<lambda>p. list_all (container_settled i) (pod_InitContainers p)" for a i
  by unfold_locales (simp add: has_volume_def)

interpretation volume_containers: injector_pair
    "then_inject (ensureProjectedTokenVolume a) (on_inits (each (injectContainer i)))"
    "\<lambda>p. has_volume a p \<and> list_all (container_settled i) (pod_InitContainers p)"
    "on_containers (each (injectContainer i))"
    "\<lambda>p. list_all (container_settled i) (pod_Containers p)" for a i
  by unfold_locales (simp add: has_volume_def)

interpretation pod: injector "mutate i a" "pod_settled i a" for i a
  unfolding mutate_def pod_settled_def by (rule volume_containers.both.injector_axioms)

text \<open>When \<^verbatim>\<open>MutatePod\<close> does anything, it is the injector \<open>mutate\<close>.\<close>

lemma MutatePod_eq:
  "MutatePod pod i audience =
     (case pod of
        None \<Rightarrow> (False, None)
      | Some p \<Rightarrow>
          if Complete i \<and> TrimSpace audience \<noteq> []
          then map_prod id Some (mutate i (TrimSpace audience) p)
          else (False, Some p))"
  by (auto simp: MutatePod_def mutate_def then_inject_def on_inits_def on_containers_def
      inject_loop_each case_prod_unfold Let_def split: option.split)

definition pod_ready :: "Identity \<Rightarrow> string \<Rightarrow> Pod option \<Rightarrow> bool" where
  "pod_ready i audience pod \<longleftrightarrow>
     (case pod of
        None \<Rightarrow> True
      | Some p \<Rightarrow>
          Complete i \<and> TrimSpace audience \<noteq> [] \<longrightarrow> pod_settled i (TrimSpace audience) p)"

interpretation mutator: injector "\<lambda>pod. MutatePod pod i audience" "pod_ready i audience" for i audience
  by unfold_locales
    (auto simp: MutatePod_eq pod_ready_def pod.settles pod.reports pod.keeps split: option.splits)

end
