(* ===== verification/EnsureStore.thy ===== *)
theory EnsureStore
  imports EnsureTrace
begin

text \<open>
  \<^verbatim>\<open>internal/wif/ensure.go\<close> against a store that keeps what it is told: what a successful
  \<^verbatim>\<open>EnsureWorkloadIdentity\<close> establishes, and that running it again finds everything in place,
  changes nothing and returns the same result. All lemmas are proved inside the interface
  \<open>iam_store\<close> (and \<open>iam_store_up\<close>, where reads succeed) of \<^theory_text>\<open>IamApi\<close>.
\<close>

section \<open>Reading the store\<close>

lemma find_filter: "find P xs = (case filter P xs of [] \<Rightarrow> None | x # _ \<Rightarrow> Some x)"
  by (induction xs) auto

context iam_store
begin

lemma read_same:
  "ListFederatedIdentityProviders c l w = (r1, w') \<Longrightarrow> w' = w"
  "ListServiceAccounts c l w = (r2, w') \<Longrightarrow> w' = w"
  "ListFederatedIdentities c l w = (r3, w') \<Longrightarrow> w' = w"
  "GetOrganisationRole c i w = (r4, w') \<Longrightarrow> w' = w"
  "ListOrganisationRoles c w = (r5, w') \<Longrightarrow> w' = w"
  "ListRoleBindings c i w = (r6, w') \<Longrightarrow> w' = w"
  "ListIamPolicies c w = (r7, w') \<Longrightarrow> w' = w"
  "GetIamPolicy c i w = (r8, w') \<Longrightarrow> w' = w"
  "ListIamPolicyBindings c i w = (r9, w') \<Longrightarrow> w' = w"
  by (metis reads_pure snd_conv)+

lemma findSA_ok:
  assumes "findByLabelsSA c l w = (Ok x, w')"
  shows "w' = w \<and> x = (case filter (\<lambda>s. LabelsMatch (sa_Labels s) l) (sas w) of
    [] \<Rightarrow> None | s # _ \<Rightarrow> Some s)"
proof -
  from assms obtain xs where "ListServiceAccounts c l w = (Inr xs, w')"
    and "x = find (\<lambda>s. LabelsMatch (sa_Labels s) l) xs"
    by (auto simp: findByLabelsSA_def prog_ok)
  with sas_listed [of l w xs w'] read_same(2) show ?thesis
    by (simp add: find_filter)
qed

lemma findFI_ok:
  assumes "findByLabelsFI c l w = (Ok x, w')"
  shows "w' = w \<and> x = (case filter (\<lambda>s. LabelsMatch (fi_Labels s) l) (fis w) of
    [] \<Rightarrow> None | s # _ \<Rightarrow> Some s)"
proof -
  from assms obtain xs where "ListFederatedIdentities c l w = (Inr xs, w')"
    and "x = find (\<lambda>s. LabelsMatch (fi_Labels s) l) xs"
    by (auto simp: findByLabelsFI_def prog_ok)
  with fis_listed [of l w xs w'] read_same(3) show ?thesis
    by (simp add: find_filter)
qed

lemma resolveIamPolicy_view:
  assumes "pols w = pols v"
  shows "resolveIamPolicy c ref w = (r, w') \<Longrightarrow> w' = w \<and> resolveIamPolicy c ref v = (r, v)"
proof -
  obtain g where g: "GetIamPolicy c (TrimSpace ref) w = (g, w)" "GetIamPolicy c (TrimSpace ref) v = (g, v)"
    using pols_view [OF assms] reads_pure(8) by (metis prod.collapse)
  obtain l where l: "ListIamPolicies c w = (l, w)" "ListIamPolicies c v = (l, v)"
    using pols_view [OF assms] reads_pure(7) by (metis prod.collapse)
  show "resolveIamPolicy c ref w = (r, w') \<Longrightarrow> w' = w \<and> resolveIamPolicy c ref v = (r, v)"
    unfolding resolveIamPolicy_def Let_def using g l
    by (auto simp: tryE_def call_def bindE_def wrapE_def okE_def failE_def
        split: if_splits sum.splits option.splits)
qed

lemma resolveOrganisationRole_view:
  assumes "roles w = roles v"
  shows "resolveOrganisationRole c ref w = (r, w') \<Longrightarrow>
    w' = w \<and> resolveOrganisationRole c ref v = (r, v)"
proof -
  obtain g where g: "GetOrganisationRole c (TrimSpace ref) w = (g, w)"
      "GetOrganisationRole c (TrimSpace ref) v = (g, v)"
    using roles_view [OF assms] reads_pure(4) by (metis prod.collapse)
  obtain l where l: "ListOrganisationRoles c w = (l, w)" "ListOrganisationRoles c v = (l, v)"
    using roles_view [OF assms] reads_pure(5) by (metis prod.collapse)
  show "resolveOrganisationRole c ref w = (r, w') \<Longrightarrow>
      w' = w \<and> resolveOrganisationRole c ref v = (r, v)"
    unfolding resolveOrganisationRole_def Let_def using g l
    by (auto simp: tryE_def call_def bindE_def wrapE_def okE_def failE_def
        split: if_splits sum.splits option.splits)
qed

lemma FindProvider_view:
  assumes "provs w = provs v" and "FindProviderByClusterID c cl w = (Ok p, w')"
  shows "w' = w \<and> FindProviderByClusterID c cl v = (Ok p, v) \<and>
    get (idp_Labels p) LabelKubernetesClusterID = TrimSpace cl"
proof -
  let ?want = "fmap_of_list [(LabelKubernetesClusterID, TrimSpace cl)]"
  from assms(2) obtain ps where ne: "TrimSpace cl \<noteq> []"
    and ps: "ListFederatedIdentityProviders c ?want w = (Inr ps, w')"
    and p: "matching_providers (TrimSpace cl) ps = [p]"
    unfolding FindProvider_ok by blast
  from ps read_same(1) have "w' = w" by blast
  moreover have "ListFederatedIdentityProviders c ?want v = (Inr ps, v)"
    using ps provs_view [OF assms(1), of ?want] reads_pure(1) [of ?want v] by (metis fst_conv prod.collapse)
  then have "FindProviderByClusterID c cl v = (Ok p, v)"
    using ne p unfolding FindProvider_ok by blast
  moreover have "p \<in> set (matching_providers (TrimSpace cl) ps)" by (simp add: p)
  then have "get (idp_Labels p) LabelKubernetesClusterID = TrimSpace cl"
    by (simp add: matching_providers_def)
  ultimately show ?thesis by blast
qed

end

text \<open>The federated identity a successful step leaves behind.\<close>

definition fi_desired ::
    "iam_consts \<Rightarrow> FederatedIdentity \<Rightarrow> string \<Rightarrow> string \<Rightarrow> string list \<Rightarrow> string list \<Rightarrow> smap \<Rightarrow> bool" where
  "fi_desired k f name subject scopes auds labels \<longleftrightarrow>
     mset (fi_AllowedScopes f) = mset scopes \<and> mset (fi_TrustedAudiences f) = mset auds \<and>
     fi_AudienceMatchMode f \<in> {[], AudienceMatchModeAny k} \<and> fi_Name f = name \<and>
     fi_Description f = fi_description subject \<and> LabelsMatch (fi_Labels f) labels \<and>
     get (fi_Annotations f) AnnotationProviderSubject = subject"

context iam_store
begin

lemma filter_singleton:
  assumes "mset ys = add_mset x (mset xs)" and "filter P xs = []" and "P x"
  shows "filter P ys = [x]"
proof -
  have "mset (filter P ys) = filter_mset P (mset ys)" by (rule mset_filter)
  also have "\<dots> = {#x#}"
    using assms by (simp add: mset_filter [symmetric])
  finally show ?thesis by (simp only: mset_single_iff)
qed

text \<open>After a successful step the resource is the first that carries the labels.\<close>

definition same_but_sas :: "'w \<Rightarrow> 'w \<Rightarrow> bool" where
  "same_but_sas w w' \<longleftrightarrow> provs w' = provs w \<and> fis w' = fis w \<and> roles w' = roles w \<and>
     rbs w' = rbs w \<and> pols w' = pols w \<and> pbs w' = pbs w"

definition same_but_fis :: "'w \<Rightarrow> 'w \<Rightarrow> bool" where
  "same_but_fis w w' \<longleftrightarrow> provs w' = provs w \<and> sas w' = sas w \<and> roles w' = roles w \<and>
     rbs w' = rbs w \<and> pols w' = pols w \<and> pbs w' = pbs w"

definition same_but_bindings :: "'w \<Rightarrow> 'w \<Rightarrow> bool" where
  "same_but_bindings w w' \<longleftrightarrow> provs w' = provs w \<and> sas w' = sas w \<and> fis w' = fis w \<and>
     roles w' = roles w \<and> pols w' = pols w \<and>
     (\<forall>j. set (pbs w j) \<subseteq> set (pbs w' j)) \<and> (\<forall>j. set (rbs w j) \<subseteq> set (rbs w' j))"

lemma ensureServiceAccount_ok:
  assumes "ensureServiceAccount c n sub ns k labels w = (Ok (Some s), w')"
    and ne: "labels \<noteq> fmempty"
  shows "same_but_sas w w' \<and> (\<exists>rest. filter (\<lambda>s. LabelsMatch (sa_Labels s) labels) (sas w') = s # rest)"
proof -
  let ?own = "\<lambda>w. filter (\<lambda>s. LabelsMatch (sa_Labels s) labels) (sas w)"
  from assms obtain x v where find: "findByLabelsSA c labels w = (Ok x, v)"
    and rest: "(case x of Some s \<Rightarrow> okE (Some s)
      | None \<Rightarrow> call (CreateServiceAccount c (sa_create_request n sub ns k labels))) v = (Ok (Some s), w')"
    by (auto simp: ensureServiceAccount_def bindE_ok)
  from findSA_ok [OF find] have v: "v = w" and x: "x = (case ?own w of [] \<Rightarrow> None | s # _ \<Rightarrow> Some s)"
    by auto
  show ?thesis
  proof (cases "?own w")
    case Nil
    with rest v x have "CreateServiceAccount c (sa_create_request n sub ns k labels) w = (Inr (Some s), w')"
      by (simp add: call_ok)
    from sa_created [OF this] have m: "mset (sas w') = add_mset s (mset (sas w))"
      and l: "sa_Labels s = labels" and "same_but_sas w w'"
      by (auto simp: same_but_sas_def)
    moreover have "?own w' = [s]"
      using m Nil by (rule filter_singleton) (simp add: l LabelsMatch_self [OF ne])
    ultimately show ?thesis by blast
  next
    case (Cons s' r)
    with rest v x show ?thesis by (auto simp: okE_ok same_but_sas_def)
  qed
qed

lemma fi_needs_no_update:
  "fi_desired (ic_consts c) f name subject scopes auds labels \<Longrightarrow> fi_ProviderSubject f = subject \<Longrightarrow>
   \<not> fiNeedsUpdate (ic_consts c) f name (fi_description subject) subject scopes auds labels"
  by (simp add: fiNeedsUpdate_False fi_desired_def)

lemma ensureFederatedIdentity_ok:
  assumes "ensureFederatedIdentity c p sa n sub scopes auds labels w = (Ok (Some f), w')"
    and ne: "labels \<noteq> fmempty" and dist: "distinct (map fi_Identity (fis w))"
    and subs: "\<forall>f \<in> set (fis w). LabelsMatch (fi_Labels f) labels \<longrightarrow> fi_ProviderSubject f = sub"
  shows "same_but_fis w w' \<and> fi_desired (ic_consts c) f n sub scopes auds labels \<and> fi_ProviderSubject f = sub \<and>
    (\<exists>rest. filter (\<lambda>s. LabelsMatch (fi_Labels s) labels) (fis w') = f # rest)"
proof -
  let ?own = "\<lambda>fs. filter (\<lambda>s. LabelsMatch (fi_Labels s) labels) fs"
  let ?k = "ic_consts c"
  from assms obtain x v where find: "findByLabelsFI c labels w = (Ok x, v)"
    and rest: "(case x of
        None \<Rightarrow> bindE (derefE sa) (\<lambda>s. call (CreateFederatedIdentity c
          (fi_create_request ?k p s n sub scopes auds labels)))
      | Some f \<Rightarrow> if \<not> fiNeedsUpdate ?k f n (fi_description sub) sub scopes auds labels
          then okE (Some f)
          else call (UpdateFederatedIdentity c (fi_Identity f)
            (fi_update_request ?k n sub scopes auds labels))) v = (Ok (Some f), w')"
    by (auto simp: ensureFederatedIdentity_def bindE_ok)
  from findFI_ok [OF find] have v: "v = w"
    and x: "x = (case ?own (fis w) of [] \<Rightarrow> None | s # _ \<Rightarrow> Some s)" by auto
  show ?thesis
  proof (cases "?own (fis w)")
    case Nil
    with rest v x obtain s where
      "CreateFederatedIdentity c (fi_create_request ?k p s n sub scopes auds labels) w = (Inr (Some f), w')"
      by (auto simp: call_ok bindE_ok derefE_ok)
    from fi_created [OF this] have m: "mset (fis w') = add_mset f (mset (fis w))"
      and cr: "created_fi (fi_create_request ?k p s n sub scopes auds labels) f" and "same_but_fis w w'"
      by (auto simp: same_but_fis_def)
    moreover have des: "fi_desired (ic_consts c) f n sub scopes auds labels" "fi_ProviderSubject f = sub"
      using cr by (auto simp: created_fi_def fi_desired_def LabelsMatch_self [OF ne])
    moreover have "?own (fis w') = [f]"
      using m Nil by (rule filter_singleton) (use des in \<open>simp add: fi_desired_def\<close>)
    ultimately show ?thesis by blast
  next
    case own: (Cons f0 r)
    then have "f0 \<in> set (?own (fis w))" by simp
    then have f0: "f0 \<in> set (fis w)" "LabelsMatch (fi_Labels f0) labels" by simp_all
    show ?thesis
    proof (cases "fiNeedsUpdate ?k f0 n (fi_description sub) sub scopes auds labels")
      case False
      with rest v x own have "f = f0" "w' = w" by (auto simp: okE_ok)
      with False own show ?thesis
        by (auto simp: same_but_fis_def fiNeedsUpdate_False fi_desired_def)
    next
      case True
      let ?q = "fi_update_request ?k n sub scopes auds labels"
      from True rest v x own have "UpdateFederatedIdentity c (fi_Identity f0) ?q w = (Inr (Some f), w')"
        by (auto simp: call_ok)
      from fi_updated [OF this] obtain pre old post where
        split: "fis w = pre @ old # post" and old: "fi_Identity old = fi_Identity f0"
        and f: "f = updated_fi ?q old" and fis': "fis w' = pre @ f # post" and "same_but_fis w w'"
        by (auto simp: same_but_fis_def)
      from dist f0(1) old have "old = f0"
        unfolding split by (auto simp: image_iff)
      moreover have "?own pre = []"
      proof (cases "?own pre")
        case (Cons g gs)
        with own have "f0 \<in> set (?own pre)" unfolding split by simp
        with dist \<open>old = f0\<close> show ?thesis unfolding split by auto
      qed
      moreover have "fi_desired (ic_consts c) f n sub scopes auds labels"
        by (simp add: f fi_desired_def updated_fi_def LabelsMatch_self [OF ne])
      moreover have "fi_ProviderSubject f = sub"
        using subs f0 \<open>old = f0\<close> by (simp add: f updated_fi_def)
      ultimately show ?thesis
        using \<open>same_but_fis w w'\<close> by (simp add: fis' fi_desired_def)
    qed
  qed
qed

end

definition policy_bound ::
    "('w \<Rightarrow> string \<Rightarrow> iam_binding list) \<Rightarrow> 'w \<Rightarrow> string \<Rightarrow> string \<Rightarrow> bool" where
  "policy_bound pbs w p s \<longleftrightarrow> list_ex (binds_sa s) (pbs w p)"

lemma policy_bound_mono:
  "policy_bound pbs w p s \<Longrightarrow> set (pbs w p) \<subseteq> set (pbs w' p) \<Longrightarrow> policy_bound pbs w' p s"
  by (auto simp: policy_bound_def list_ex_iff)

context iam_store
begin

lemma same_but_bindings_refl: "same_but_bindings w w"
  by (simp add: same_but_bindings_def)

lemma same_but_bindings_trans:
  "same_but_bindings u v \<Longrightarrow> same_but_bindings v w \<Longrightarrow> same_but_bindings u w"
  unfolding same_but_bindings_def by (metis subset_trans)

lemma hasPolicyBinding_ok:
  assumes "hasPolicyBindingForSA c p s w = (Ok b, w')"
  shows "w' = w \<and> b = policy_bound pbs w p s"
proof -
  from assms obtain bs where "ListIamPolicyBindings c p w = (Inr bs, w')"
    and "b = list_ex (binds_sa s) bs"
    by (auto simp: hasPolicyBindingForSA_def prog_ok)
  with pbs_listed [of p w bs w'] read_same(9) show ?thesis
    by (auto simp: policy_bound_def list_ex_iff)
qed

lemma hasRoleBinding_ok:
  assumes "hasRoleBindingForSA c p s w = (Ok b, w')"
  shows "w' = w \<and> b = policy_bound rbs w p s"
proof -
  from assms obtain bs where "ListRoleBindings c p w = (Inr bs, w')"
    and "b = list_ex (binds_sa s) bs"
    by (auto simp: hasRoleBindingForSA_def prog_ok)
  with rbs_listed [of p w bs w'] read_same(6) show ?thesis
    by (auto simp: policy_bound_def list_ex_iff)
qed

lemma ensurePolicyBinding_ok:
  assumes "ensurePolicyBinding c p s key labels w = (Ok u, w')"
  shows "same_but_bindings w w' \<and> policy_bound pbs w' (policy_Identity p) (sa_Identity s)"
proof -
  from assms obtain b v where has: "hasPolicyBindingForSA c (policy_Identity p) (sa_Identity s) w = (Ok b, v)"
    and rest: "(if b then okE () else bindE (call (CreateIamPolicyBinding c (policy_Identity p)
      (policy_binding_request s key labels))) (\<lambda>_. okE ())) v = (Ok u, w')"
    by (auto simp: ensurePolicyBinding_def bindE_ok)
  note h = hasPolicyBinding_ok [OF has]
  show ?thesis
  proof (cases b)
    case True
    with rest h show ?thesis by (auto simp: okE_ok same_but_bindings_refl)
  next
    case False
    with rest h obtain x where "CreateIamPolicyBinding c (policy_Identity p)
        (policy_binding_request s key labels) w = (Inr x, w')"
      by (auto simp: bindE_ok okE_ok call_ok)
    from pb_created [OF this] show ?thesis
      by (auto simp: same_but_bindings_def policy_bound_def list_ex_iff)
  qed
qed

lemma ensureRoleBinding_ok:
  assumes "ensureRoleBinding c p s key labels w = (Ok u, w')"
  shows "same_but_bindings w w' \<and> policy_bound rbs w' (role_Identity p) (sa_Identity s)"
proof -
  from assms obtain b v where has: "hasRoleBindingForSA c (role_Identity p) (sa_Identity s) w = (Ok b, v)"
    and rest: "(if b then okE () else bindE (call (CreateRoleBinding c (role_Identity p)
      (role_binding_request s key labels))) (\<lambda>_. okE ())) v = (Ok u, w')"
    by (auto simp: ensureRoleBinding_def bindE_ok)
  note h = hasRoleBinding_ok [OF has]
  show ?thesis
  proof (cases b)
    case True
    with rest h show ?thesis by (auto simp: okE_ok same_but_bindings_refl)
  next
    case False
    with rest h obtain x where "CreateRoleBinding c (role_Identity p)
        (role_binding_request s key labels) w = (Inr x, w')"
      by (auto simp: bindE_ok okE_ok call_ok)
    from rb_created [OF this] show ?thesis
      by (auto simp: same_but_bindings_def policy_bound_def list_ex_iff)
  qed
qed

text \<open>What the policy step and the role step leave behind.\<close>

definition policy_done :: "EnsureInput \<Rightarrow> string \<Rightarrow> 'w \<Rightarrow> IamPolicy option \<Rightarrow> bool" where
  "policy_done inp s w po \<longleftrightarrow>
     (case po of
        None \<Rightarrow> TrimSpace (in_PolicyRef inp) = []
      | Some p \<Rightarrow>
          TrimSpace (in_PolicyRef inp) \<noteq> [] \<and>
          resolveIamPolicy c (TrimSpace (in_PolicyRef inp)) w = (Ok p, w) \<and>
          RefAllowed (in_PolicyRef inp) (in_AllowedPolicies inp)
            [policy_Identity p, policy_Slug p, policy_Name p] \<and>
          policy_bound pbs w (policy_Identity p) s)"

definition role_done :: "EnsureInput \<Rightarrow> string \<Rightarrow> 'w \<Rightarrow> OrganisationRole option \<Rightarrow> bool" where
  "role_done inp s w ro \<longleftrightarrow>
     (case ro of
        None \<Rightarrow> TrimSpace (in_RoleRef inp) = []
      | Some p \<Rightarrow>
          TrimSpace (in_RoleRef inp) \<noteq> [] \<and>
          resolveOrganisationRole c (TrimSpace (in_RoleRef inp)) w = (Ok p, w) \<and>
          RefAllowed (in_RoleRef inp) (in_AllowedRoles inp)
            [role_Identity p, role_Slug p, role_Name p] \<and>
          policy_bound rbs w (role_Identity p) s)"

lemma done_later:
  assumes "same_but_bindings w w'"
  shows "policy_done inp s w po \<Longrightarrow> policy_done inp s w' po"
    and "role_done inp s w ro \<Longrightarrow> role_done inp s w' ro"
proof -
  from assms have v: "pols w = pols w'" "roles w = roles w'"
    and sub: "set (pbs w j) \<subseteq> set (pbs w' j)" "set (rbs w j) \<subseteq> set (rbs w' j)" for j
    by (auto simp: same_but_bindings_def)
  have pb: "policy_bound pbs w j s \<Longrightarrow> policy_bound pbs w' j s"
    "policy_bound rbs w j s \<Longrightarrow> policy_bound rbs w' j s" for j
    by (erule policy_bound_mono, rule sub)+
  show "policy_done inp s w po \<Longrightarrow> policy_done inp s w' po"
    using resolveIamPolicy_view [OF v(1)]
    by (auto simp: policy_done_def split: option.splits intro: pb)
  show "role_done inp s w ro \<Longrightarrow> role_done inp s w' ro"
    using resolveOrganisationRole_view [OF v(2)]
    by (auto simp: role_done_def split: option.splits intro: pb)
qed

definition with_policy :: "IamPolicy option \<Rightarrow> EnsureResult \<Rightarrow> EnsureResult" where
  "with_policy po res = (case po of None \<Rightarrow> res | Some p \<Rightarrow> res\<lparr>res_PolicyID := policy_Identity p\<rparr>)"

lemma ensurePolicyStep_ok:
  assumes "ensurePolicyStep c inp s key labels res w = (Ok res', w')"
  shows "same_but_bindings w w' \<and>
    (\<exists>po. policy_done inp (sa_Identity s) w' po \<and> res' = with_policy po res)"
proof (cases "TrimSpace (in_PolicyRef inp) = []")
  case True
  with assms show ?thesis
    by (auto simp: ensurePolicyStep_def Let_def okE_ok same_but_bindings_refl policy_done_def
        with_policy_def intro: exI [of _ None])
next
  case False
  from assms False obtain p v where
    res: "resolveIamPolicy c (TrimSpace (in_PolicyRef inp)) w = (Ok p, v)"
    and al: "RefAllowed (in_PolicyRef inp) (in_AllowedPolicies inp)
      [policy_Identity p, policy_Slug p, policy_Name p]"
    and b: "ensurePolicyBinding c p s key labels v = (Ok (), w')"
    and res': "res' = res\<lparr>res_PolicyID := policy_Identity p\<rparr>"
    by (auto simp: ensurePolicyStep_def Let_def bindE_ok checkE_ok okE_ok CheckRefAllowlist_None
        RefAllowed_trim)
  from resolveIamPolicy_view [OF refl res] have "v = w" by simp
  with ensurePolicyBinding_ok [OF b] have same: "same_but_bindings w w'"
    and bound: "policy_bound pbs w' (policy_Identity p) (sa_Identity s)" by auto
  from same have "pols w = pols w'" by (simp add: same_but_bindings_def)
  from resolveIamPolicy_view [OF this res] False al bound
  have "policy_done inp (sa_Identity s) w' (Some p)" by (simp add: policy_done_def)
  with same res' show ?thesis by (auto simp: with_policy_def intro!: exI [of _ "Some p"])
qed

lemma ensureRoleStep_ok:
  assumes "ensureRoleStep c inp s key labels w = (Ok u, w')"
  shows "same_but_bindings w w' \<and> (\<exists>ro. role_done inp (sa_Identity s) w' ro)"
proof (cases "TrimSpace (in_RoleRef inp) = []")
  case True
  with assms show ?thesis
    by (auto simp: ensureRoleStep_def Let_def okE_ok same_but_bindings_refl role_done_def
        intro: exI [of _ None])
next
  case False
  from assms False obtain p v where
    res: "resolveOrganisationRole c (TrimSpace (in_RoleRef inp)) w = (Ok p, v)"
    and al: "RefAllowed (in_RoleRef inp) (in_AllowedRoles inp) [role_Identity p, role_Slug p, role_Name p]"
    and b: "ensureRoleBinding c p s key labels v = (Ok u, w')"
    by (auto simp: ensureRoleStep_def Let_def bindE_ok checkE_ok okE_ok CheckRefAllowlist_None
        RefAllowed_trim)
  from resolveOrganisationRole_view [OF refl res] have "v = w" by simp
  with ensureRoleBinding_ok [OF b] have same: "same_but_bindings w w'"
    and bound: "policy_bound rbs w' (role_Identity p) (sa_Identity s)" by auto
  from same have "roles w = roles w'" by (simp add: same_but_bindings_def)
  from resolveOrganisationRole_view [OF this res] False al bound
  have "role_done inp (sa_Identity s) w' (Some p)" by (simp add: role_done_def)
  with same show ?thesis by blast
qed

end

context iam_store_up
begin

lemma bind_reads_up:
  obtains bs where "ListIamPolicyBindings c i w = (Inr bs, w)"
  using reads_up(7) [of i w] reads_pure(9) [of i w] by (metis prod.collapse)

lemma role_reads_up:
  obtains bs where "ListRoleBindings c i w = (Inr bs, w)"
  using reads_up(5) [of i w] reads_pure(6) [of i w] by (metis prod.collapse)

lemma hasPolicyBinding_up: "hasPolicyBindingForSA c p s w = (Ok (policy_bound pbs w p s), w)"
proof -
  obtain bs where bs: "ListIamPolicyBindings c p w = (Inr bs, w)" by (rule bind_reads_up)
  then have "hasPolicyBindingForSA c p s w = (Ok (list_ex (binds_sa s) bs), w)"
    by (simp add: hasPolicyBindingForSA_def prog_simps)
  moreover from hasPolicyBinding_ok [OF this] show ?thesis using calculation by simp
qed

lemma hasRoleBinding_up: "hasRoleBindingForSA c p s w = (Ok (policy_bound rbs w p s), w)"
proof -
  obtain bs where bs: "ListRoleBindings c p w = (Inr bs, w)" by (rule role_reads_up)
  then have "hasRoleBindingForSA c p s w = (Ok (list_ex (binds_sa s) bs), w)"
    by (simp add: hasRoleBindingForSA_def prog_simps)
  moreover from hasRoleBinding_ok [OF this] show ?thesis using calculation by simp
qed

lemma ensurePolicyStep_done:
  assumes "policy_done inp (sa_Identity s) w po"
  shows "ensurePolicyStep c inp s key labels res w = (Ok (with_policy po res), w)"
proof (cases po)
  case None
  with assms show ?thesis
    by (simp add: policy_done_def with_policy_def ensurePolicyStep_def okE_run)
next
  case (Some p)
  with assms have ne: "TrimSpace (in_PolicyRef inp) \<noteq> []"
    and res: "resolveIamPolicy c (TrimSpace (in_PolicyRef inp)) w = (Ok p, w)"
    and bound: "policy_bound pbs w (policy_Identity p) (sa_Identity s)"
    and al: "CheckRefAllowlist ''policy'' (TrimSpace (in_PolicyRef inp)) (in_AllowedPolicies inp)
      [policy_Identity p, policy_Slug p, policy_Name p] = None"
    by (auto simp: policy_done_def CheckRefAllowlist_None RefAllowed_trim)
  have "ensurePolicyBinding c p s key labels w = (Ok (), w)"
    by (simp add: ensurePolicyBinding_def bindE_run(1) [OF hasPolicyBinding_up] bound okE_run)
  with ne res al Some show ?thesis
    by (simp add: ensurePolicyStep_def Let_def with_policy_def prog_simps)
qed

lemma ensureRoleStep_done:
  assumes "role_done inp (sa_Identity s) w po"
  shows "ensureRoleStep c inp s key labels w = (Ok (), w)"
proof (cases po)
  case None
  with assms show ?thesis
    by (simp add: role_done_def ensureRoleStep_def okE_run)
next
  case (Some p)
  with assms have ne: "TrimSpace (in_RoleRef inp) \<noteq> []"
    and res: "resolveOrganisationRole c (TrimSpace (in_RoleRef inp)) w = (Ok p, w)"
    and bound: "policy_bound rbs w (role_Identity p) (sa_Identity s)"
    and al: "CheckRefAllowlist ''role'' (TrimSpace (in_RoleRef inp)) (in_AllowedRoles inp)
      [role_Identity p, role_Slug p, role_Name p] = None"
    by (auto simp: role_done_def CheckRefAllowlist_None RefAllowed_trim)
  have "ensureRoleBinding c p s key labels w = (Ok (), w)"
    by (simp add: ensureRoleBinding_def bindE_run(1) [OF hasRoleBinding_up] bound okE_run)
  with ne res al Some show ?thesis
    by (simp add: ensureRoleStep_def Let_def prog_simps)
qed

end

lemma OwnershipLabels_ne [simp]: "OwnershipLabels k ns sa \<noteq> fmempty"
proof
  assume "OwnershipLabels k ns sa = fmempty"
  then have "get (OwnershipLabels k ns sa) LabelManagedBy = []" by (simp only: get_fmempty)
  then show False by (simp add: ValueManagedBy_def)
qed

definition result_names :: "EnsureInput \<Rightarrow> EnsureResult \<Rightarrow> string \<times> string" where
  "result_names inp r = DefaultResourceNames (res_Key r) (in_NameOverride inp)"

definition result_labels :: "EnsureInput \<Rightarrow> EnsureResult \<Rightarrow> smap" where
  "result_labels inp r = OwnershipLabels (res_Key r) (in_Namespace inp) (in_ServiceAccount inp)"

context iam_store
begin

text \<open>
  Everything a successful run establishes, in the form a second run needs: the provider, the
  first service account and federated identity with the labels, and the two binding steps.
\<close>

definition ensured :: "EnsureInput \<Rightarrow> EnsureResult \<Rightarrow> 'w \<Rightarrow> bool" where
  "ensured inp r w \<longleftrightarrow>
     validateEnsureInput inp = None \<and>
     BuildKubernetesSubject (in_Namespace inp) (in_ServiceAccount inp) = Inr (res_Subject r) \<and>
     res_Key r = ResourceKey (in_Namespace inp) (in_ServiceAccount inp) (res_Subject r) (res_Issuer r) \<and>
     res_Issuer r \<noteq> [] \<and>
     (\<exists>p s ss f fs po ro.
        FindProviderByClusterID c (in_ClusterIdentity inp) w = (Ok p, w) \<and>
        res_Issuer r = NormalizeIssuer (idp_ProviderIssuer p) \<and>
        filter (\<lambda>s. LabelsMatch (sa_Labels s) (result_labels inp r)) (sas w) = s # ss \<and>
        filter (\<lambda>f. LabelsMatch (fi_Labels f) (result_labels inp r)) (fis w) = f # fs \<and>
        fi_desired (ic_consts c) f (snd (result_names inp r)) (res_Subject r) (in_Scopes inp)
          (in_TrustedAudiences inp) (result_labels inp r) \<and>
        fi_ProviderSubject f = res_Subject r \<and>
        policy_done inp (sa_Identity s) w po \<and>
        role_done inp (sa_Identity s) w ro \<and>
        r = with_policy po \<lparr>
          res_ProviderID = idp_Identity p, res_ServiceAccountID = sa_Identity s,
          res_FederatedIdentityID = fi_Identity f, res_PolicyID = [],
          res_Issuer = NormalizeIssuer (idp_ProviderIssuer p), res_Subject = res_Subject r,
          res_Key = res_Key r\<rparr>)"

lemma with_policy_sel [simp]:
  "res_Subject (with_policy po r) = res_Subject r"
  "res_Key (with_policy po r) = res_Key r"
  "res_Issuer (with_policy po r) = res_Issuer r"
  "res_ServiceAccountID (with_policy po r) = res_ServiceAccountID r"
  "res_FederatedIdentityID (with_policy po r) = res_FederatedIdentityID r"
  "res_ProviderID (with_policy po r) = res_ProviderID r"
  by (simp_all add: with_policy_def split: option.splits)

lemma ensure_ok:
  assumes run: "EnsureWorkloadIdentity c inp w = (Ok r, w')"
    and dist: "distinct (map fi_Identity (fis w))"
    and subs: "\<forall>f \<in> set (fis w). LabelsMatch (fi_Labels f) (result_labels inp r) \<longrightarrow>
      fi_ProviderSubject f = res_Subject r"
  shows "ensured inp r w'"
proof -
  from run obtain p w1 where val: "validateEnsureInput inp = None"
    and p: "FindProviderByClusterID c (in_ClusterIdentity inp) w = (Ok p, w1)"
    and iss: "NormalizeIssuer (idp_ProviderIssuer p) \<noteq> []"
    by (auto simp: EnsureWorkloadIdentity_def Let_def bindE_ok checkE_ok failE_ok split: if_splits)
  let ?iss = "NormalizeIssuer (idp_ProviderIssuer p)"
  from FindProvider_view [OF refl p] have w1: "w1 = w" by simp
  from run val p iss w1 obtain sub where
    sub: "BuildKubernetesSubject (in_Namespace inp) (in_ServiceAccount inp) = Inr sub"
    by (auto simp: EnsureWorkloadIdentity_def Let_def prog_simps failE_ok split: sum.splits)
  let ?key = "ResourceKey (in_Namespace inp) (in_ServiceAccount inp) sub ?iss"
  let ?labels = "OwnershipLabels ?key (in_Namespace inp) (in_ServiceAccount inp)"
  let ?names = "DefaultResourceNames ?key (in_NameOverride inp)"
  let ?res = "\<lambda>s f. \<lparr> res_ProviderID = idp_Identity p, res_ServiceAccountID = sa_Identity s,
     res_FederatedIdentityID = fi_Identity f, res_PolicyID = [], res_Issuer = ?iss,
     res_Subject = sub, res_Key = ?key\<rparr>"
  from run val p iss w1 sub obtain s w2 f w3 w4 u where
    sa: "ensureServiceAccount c (fst ?names) sub (in_Namespace inp) (in_ServiceAccount inp) ?labels w
      = (Ok (Some s), w2)"
    and fi: "ensureFederatedIdentity c p (Some s) (snd ?names) sub (in_Scopes inp)
      (in_TrustedAudiences inp) ?labels w2 = (Ok (Some f), w3)"
    and pol: "ensurePolicyStep c inp s ?key ?labels (?res s f) w3 = (Ok r, w4)"
    and rol: "ensureRoleStep c inp s ?key ?labels w4 = (Ok u, w')"
    by (auto simp: EnsureWorkloadIdentity_def Let_def bindE_run bindE_ok checkE_run derefE_ok okE_ok)
  from ensurePolicyStep_ok [OF pol] obtain po where same3: "same_but_bindings w3 w4"
    and po: "policy_done inp (sa_Identity s) w4 po" and r: "r = with_policy po (?res s f)" by blast
  from ensureRoleStep_ok [OF rol] obtain ro where same4: "same_but_bindings w4 w'"
    and ro: "role_done inp (sa_Identity s) w' ro" by blast
  have labels: "result_labels inp r = ?labels" and names: "result_names inp r = ?names"
    by (simp_all add: r result_labels_def result_names_def)
  have rsub: "res_Subject r = sub" by (simp add: r)
  from ensureServiceAccount_ok [OF sa] obtain ss where same1: "same_but_sas w w2"
    and ss: "filter (\<lambda>s. LabelsMatch (sa_Labels s) ?labels) (sas w2) = s # ss" by auto
  have "distinct (map fi_Identity (fis w2))"
    and "\<forall>f \<in> set (fis w2). LabelsMatch (fi_Labels f) ?labels \<longrightarrow> fi_ProviderSubject f = sub"
    using same1 dist subs unfolding labels rsub by (simp_all add: same_but_sas_def)
  from ensureFederatedIdentity_ok [OF fi _ this] obtain fs where same2: "same_but_fis w2 w3"
    and des: "fi_desired (ic_consts c) f (snd ?names) sub (in_Scopes inp) (in_TrustedAudiences inp) ?labels"
    and psub: "fi_ProviderSubject f = sub"
    and fs: "filter (\<lambda>f. LabelsMatch (fi_Labels f) ?labels) (fis w3) = f # fs" by auto
  from same1 same2 same3 same4 have provs: "provs w = provs w'"
    and sas': "sas w' = sas w2" and fis': "fis w' = fis w3"
    by (auto simp: same_but_sas_def same_but_fis_def same_but_bindings_def)
  from FindProvider_view [OF provs p]
  have "FindProviderByClusterID c (in_ClusterIdentity inp) w' = (Ok p, w')" by simp
  moreover have "policy_done inp (sa_Identity s) w' po" by (rule done_later(1) [OF same4 po])
  ultimately show ?thesis
    using val sub iss ss fs des psub ro
    unfolding ensured_def labels names sas' fis' by (auto simp: r)
qed

text \<open>An update keeps the subject a federated identity was created with.\<close>

lemma fi_subject_kept:
  assumes run: "ensureFederatedIdentity c p sa n sub scopes auds labels w = (Ok (Some f), w')"
    and subs: "\<forall>g \<in> set (fis w). fi_ProviderSubject g \<noteq> sub"
    and own: "\<exists>g \<in> set (fis w). LabelsMatch (fi_Labels g) labels"
  shows "fi_ProviderSubject f \<noteq> sub"
proof -
  let ?k = "ic_consts c"
  from run obtain x v where find: "findByLabelsFI c labels w = (Ok x, v)"
    and rest: "(case x of
        None \<Rightarrow> bindE (derefE sa) (\<lambda>s. call (CreateFederatedIdentity c
          (fi_create_request ?k p s n sub scopes auds labels)))
      | Some f \<Rightarrow> if \<not> fiNeedsUpdate ?k f n (fi_description sub) sub scopes auds labels
          then okE (Some f)
          else call (UpdateFederatedIdentity c (fi_Identity f)
            (fi_update_request ?k n sub scopes auds labels))) v = (Ok (Some f), w')"
    by (auto simp: ensureFederatedIdentity_def bindE_ok)
  from findFI_ok [OF find] own obtain g where v: "v = w" and x: "x = Some g" and "g \<in> set (fis w)"
    by (cases "filter (\<lambda>s. LabelsMatch (fi_Labels s) labels) (fis w)")
      (auto simp: filter_empty_conv dest: filter_eq_ConsD)
  with subs have "fiNeedsUpdate ?k g n (fi_description sub) sub scopes auds labels"
    by (simp add: fiNeedsUpdate_def)
  with rest v x have "UpdateFederatedIdentity c (fi_Identity g)
      (fi_update_request ?k n sub scopes auds labels) w = (Inr (Some f), w')"
    by (simp add: call_ok)
  from fi_updated [OF this] obtain pre old post where "fis w = pre @ old # post"
    and "f = updated_fi (fi_update_request ?k n sub scopes auds labels) old" by blast
  with subs show ?thesis by (simp add: updated_fi_def)
qed

lemma ensured_facts:
  assumes "ensured inp r w"
  shows "BuildKubernetesSubject (in_Namespace inp) (in_ServiceAccount inp) = Inr (res_Subject r) \<and>
    res_Key r = ResourceKey (in_Namespace inp) (in_ServiceAccount inp) (res_Subject r) (res_Issuer r) \<and>
    (\<exists>s \<in> set (sas w). sa_Identity s = res_ServiceAccountID r \<and>
       LabelsMatch (sa_Labels s) (result_labels inp r)) \<and>
    (\<exists>f \<in> set (fis w). fi_Identity f = res_FederatedIdentityID r \<and>
       fi_ProviderSubject f = res_Subject r \<and>
       fi_desired (ic_consts c) f (snd (result_names inp r)) (res_Subject r) (in_Scopes inp)
         (in_TrustedAudiences inp) (result_labels inp r)) \<and>
    (TrimSpace (in_PolicyRef inp) \<noteq> [] \<longrightarrow>
       policy_bound pbs w (res_PolicyID r) (res_ServiceAccountID r)) \<and>
    (TrimSpace (in_RoleRef inp) \<noteq> [] \<longrightarrow>
       (\<exists>role. resolveOrganisationRole c (TrimSpace (in_RoleRef inp)) w = (Ok role, w) \<and>
          policy_bound rbs w (role_Identity role) (res_ServiceAccountID r)))"
proof -
  from assms obtain p s ss f fs po ro where
    "FindProviderByClusterID c (in_ClusterIdentity inp) w = (Ok p, w)"
    and sub: "BuildKubernetesSubject (in_Namespace inp) (in_ServiceAccount inp) = Inr (res_Subject r)"
    and key: "res_Key r = ResourceKey (in_Namespace inp) (in_ServiceAccount inp) (res_Subject r) (res_Issuer r)"
    and ss: "filter (\<lambda>s. LabelsMatch (sa_Labels s) (result_labels inp r)) (sas w) = s # ss"
    and fs: "filter (\<lambda>f. LabelsMatch (fi_Labels f) (result_labels inp r)) (fis w) = f # fs"
    and des: "fi_desired (ic_consts c) f (snd (result_names inp r)) (res_Subject r) (in_Scopes inp)
      (in_TrustedAudiences inp) (result_labels inp r)" "fi_ProviderSubject f = res_Subject r"
    and po: "policy_done inp (sa_Identity s) w po" and ro: "role_done inp (sa_Identity s) w ro"
    and r: "r = with_policy po \<lparr> res_ProviderID = idp_Identity p, res_ServiceAccountID = sa_Identity s,
          res_FederatedIdentityID = fi_Identity f, res_PolicyID = [],
          res_Issuer = NormalizeIssuer (idp_ProviderIssuer p), res_Subject = res_Subject r,
          res_Key = res_Key r\<rparr>"
    unfolding ensured_def by blast
  have ids: "res_ServiceAccountID r = sa_Identity s" "res_FederatedIdentityID r = fi_Identity f"
    by (subst r, simp)+
  have "s \<in> set (filter (\<lambda>s. LabelsMatch (sa_Labels s) (result_labels inp r)) (sas w))"
    by (simp add: ss)
  moreover have "f \<in> set (filter (\<lambda>f. LabelsMatch (fi_Labels f) (result_labels inp r)) (fis w))"
    by (simp add: fs)
  moreover have "policy_bound pbs w (res_PolicyID r) (sa_Identity s)"
    if "TrimSpace (in_PolicyRef inp) \<noteq> []"
  proof (cases po)
    case None
    with po that show ?thesis by (simp add: policy_done_def)
  next
    case (Some q)
    have "res_PolicyID r = policy_Identity q" by (subst r) (simp add: Some with_policy_def)
    with po Some show ?thesis by (simp add: policy_done_def)
  qed
  moreover have "\<exists>role. resolveOrganisationRole c (TrimSpace (in_RoleRef inp)) w = (Ok role, w) \<and>
      policy_bound rbs w (role_Identity role) (sa_Identity s)" if "TrimSpace (in_RoleRef inp) \<noteq> []"
    using ro that by (cases ro) (auto simp: role_done_def)
  ultimately show ?thesis using sub key des by (auto simp: ids)
qed

end

context iam_store_up
begin

lemma findSA_up:
  assumes "filter (\<lambda>s. LabelsMatch (sa_Labels s) l) (sas w) = s # ss"
  shows "findByLabelsSA c l w = (Ok (Some s), w)"
proof -
  obtain xs where xs: "ListServiceAccounts c l w = (Inr xs, w)"
    using reads_up(2) [of l w] reads_pure(2) [of l w] by (metis prod.collapse)
  then have "findByLabelsSA c l w = (Ok (find (\<lambda>s. LabelsMatch (sa_Labels s) l) xs), w)"
    by (simp add: findByLabelsSA_def prog_simps)
  with findSA_ok [OF this] assms show ?thesis by simp
qed

lemma findFI_up:
  assumes "filter (\<lambda>s. LabelsMatch (fi_Labels s) l) (fis w) = s # ss"
  shows "findByLabelsFI c l w = (Ok (Some s), w)"
proof -
  obtain xs where xs: "ListFederatedIdentities c l w = (Inr xs, w)"
    using reads_up(3) [of l w] reads_pure(3) [of l w] by (metis prod.collapse)
  then have "findByLabelsFI c l w = (Ok (find (\<lambda>s. LabelsMatch (fi_Labels s) l) xs), w)"
    by (simp add: findByLabelsFI_def prog_simps)
  with findFI_ok [OF this] assms show ?thesis by simp
qed

lemma ensure_fixpoint:
  assumes "ensured inp r w"
  shows "EnsureWorkloadIdentity c inp w = (Ok r, w)"
proof -
  from assms obtain p s ss f fs po ro where
    val: "validateEnsureInput inp = None"
    and sub: "BuildKubernetesSubject (in_Namespace inp) (in_ServiceAccount inp) = Inr (res_Subject r)"
    and key: "res_Key r = ResourceKey (in_Namespace inp) (in_ServiceAccount inp) (res_Subject r) (res_Issuer r)"
    and ne: "res_Issuer r \<noteq> []"
    and p: "FindProviderByClusterID c (in_ClusterIdentity inp) w = (Ok p, w)"
    and iss: "NormalizeIssuer (idp_ProviderIssuer p) = res_Issuer r"
    and ss: "filter (\<lambda>s. LabelsMatch (sa_Labels s) (result_labels inp r)) (sas w) = s # ss"
    and fs: "filter (\<lambda>f. LabelsMatch (fi_Labels f) (result_labels inp r)) (fis w) = f # fs"
    and des: "fi_desired (ic_consts c) f (snd (result_names inp r)) (res_Subject r) (in_Scopes inp)
      (in_TrustedAudiences inp) (result_labels inp r)"
    and psub: "fi_ProviderSubject f = res_Subject r"
    and po: "policy_done inp (sa_Identity s) w po" and ro: "role_done inp (sa_Identity s) w ro"
    and r: "r = with_policy po \<lparr> res_ProviderID = idp_Identity p, res_ServiceAccountID = sa_Identity s,
          res_FederatedIdentityID = fi_Identity f, res_PolicyID = [],
          res_Issuer = res_Issuer r, res_Subject = res_Subject r, res_Key = res_Key r\<rparr>"
    unfolding ensured_def by (metis (no_types, lifting))
  have sa: "ensureServiceAccount c n (res_Subject r) (in_Namespace inp) (in_ServiceAccount inp)
      (result_labels inp r) w = (Ok (Some s), w)" for n
    by (simp add: ensureServiceAccount_def bindE_run findSA_up [OF ss] okE_run)
  have fi: "ensureFederatedIdentity c p (Some s) (snd (result_names inp r)) (res_Subject r)
      (in_Scopes inp) (in_TrustedAudiences inp) (result_labels inp r) w = (Ok (Some f), w)"
    by (simp add: ensureFederatedIdentity_def bindE_run findFI_up [OF fs] okE_run
        fi_needs_no_update [OF des psub])
  note key' = key [symmetric] result_labels_def [symmetric] result_names_def [symmetric]
  show ?thesis
    unfolding EnsureWorkloadIdentity_def
    by (simp add: Let_def val checkE_run bindE_run p iss ne sub key'
        sa fi derefE_run okE_run
        ensurePolicyStep_done [OF po] ensureRoleStep_done [OF ro] r [symmetric])
qed

end

section \<open>Deleting from the store\<close>

lemma filter_one_removed:
  assumes dist: "distinct (map key xs)" and one: "length (filter P xs) \<le> 1"
    and ys: "case filter P xs of [] \<Rightarrow> ys = xs | x # _ \<Rightarrow> ys = filter (\<lambda>y. key y \<noteq> key x) xs"
  shows "set ys = {x \<in> set xs. \<not> P x}"
proof (cases "filter P xs")
  case Nil
  with ys show ?thesis by (auto simp: filter_empty_conv)
next
  case (Cons x rest)
  with one have single: "filter P xs = [x]" by simp
  have in_P: "y \<in> set xs \<and> P y \<longleftrightarrow> y = x" for y
    using arg_cong [OF single, of "\<lambda>l. y \<in> set l"] by simp
  then have "x \<in> set xs" "P x" by blast+
  have "key y = key x \<longleftrightarrow> y = x" if "y \<in> set xs" for y
    using dist that \<open>x \<in> set xs\<close> by (auto simp: distinct_map inj_on_def)
  with in_P ys Cons show ?thesis by auto
qed

definition managed_for :: "string \<Rightarrow> iam_binding \<Rightarrow> bool" where
  "managed_for i b \<longleftrightarrow> binds_sa i b \<and> get (b_Labels b) LabelManagedBy = ValueManagedBy"

lemma delete_loop_managed:
  "delete_loop del i bs = delete_loop del i (filter (managed_for i) bs)"
  by (induction bs) (auto simp: managed_for_def)

context iam_store_del
begin

lemma delete_pbs_loop:
  assumes "delete_loop (\<lambda>j. wrapE t (call (DeleteIamPolicyBinding c p j))) i bs w = (Ok u, w')"
  shows "sas w' = sas w \<and> fis w' = fis w \<and> roles w' = roles w \<and> rbs w' = rbs w \<and>
    (\<forall>j. set (pbs w' j) \<subseteq> set (pbs w j)) \<and>
    (\<forall>b \<in> set (pbs w' p). \<forall>b' \<in> set bs. managed_for i b' \<longrightarrow> b_Identity b \<noteq> b_Identity b')"
  using assms
proof (induction bs arbitrary: w)
  case Nil
  then show ?case by (auto simp: okE_ok)
next
  case (Cons b bs)
  show ?case
  proof (cases "managed_for i b")
    case False
    with Cons show ?thesis by (auto simp: managed_for_def split: if_splits)
  next
    case True
    with Cons.prems obtain v x where del: "DeleteIamPolicyBinding c p (b_Identity b) w = (Inr x, v)"
      and rest: "delete_loop (\<lambda>j. wrapE t (call (DeleteIamPolicyBinding c p j))) i bs v = (Ok u, w')"
      by (auto simp: managed_for_def bindE_ok wrapE_ok call_ok)
    note IH = Cons.IH [OF rest] and d = pb_deleted [OF del]
    from d have v: "set (pbs v j) \<subseteq> set (pbs w j)" for j by auto
    have "b_Identity a \<noteq> b_Identity b" if "a \<in> set (pbs w' p)" for a
      using that IH d by fastforce
    moreover have "set (pbs w' j) \<subseteq> set (pbs w j)" for j
      using IH v [of j] by blast
    ultimately show ?thesis using IH d by simp
  qed
qed

lemma delete_rbs_loop:
  assumes "delete_loop (\<lambda>j. wrapE t (call (DeleteRoleBinding c p j))) i bs w = (Ok u, w')"
  shows "sas w' = sas w \<and> fis w' = fis w \<and> roles w' = roles w \<and> pbs w' = pbs w \<and>
    (\<forall>j. set (rbs w' j) \<subseteq> set (rbs w j)) \<and>
    (\<forall>b \<in> set (rbs w' p). \<forall>b' \<in> set bs. managed_for i b' \<longrightarrow> b_Identity b \<noteq> b_Identity b')"
  using assms
proof (induction bs arbitrary: w)
  case Nil
  then show ?case by (auto simp: okE_ok)
next
  case (Cons b bs)
  show ?case
  proof (cases "managed_for i b")
    case False
    with Cons show ?thesis by (auto simp: managed_for_def split: if_splits)
  next
    case True
    with Cons.prems obtain v x where del: "DeleteRoleBinding c p (b_Identity b) w = (Inr x, v)"
      and rest: "delete_loop (\<lambda>j. wrapE t (call (DeleteRoleBinding c p j))) i bs v = (Ok u, w')"
      by (auto simp: managed_for_def bindE_ok wrapE_ok call_ok)
    note IH = Cons.IH [OF rest] and d = rb_deleted [OF del]
    from d have v: "set (rbs v j) \<subseteq> set (rbs w j)" for j by auto
    have "b_Identity a \<noteq> b_Identity b" if "a \<in> set (rbs w' p)" for a
      using that IH d by fastforce
    moreover have "set (rbs w' j) \<subseteq> set (rbs w j)" for j
      using IH v [of j] by blast
    ultimately show ?thesis using IH d by simp
  qed
qed

lemma deletePolicyStep_ok:
  assumes "deletePolicyStep c ref sa w = (Ok u, w')"
  shows "sas w' = sas w \<and> fis w' = fis w \<and> roles w' = roles w \<and> rbs w' = rbs w \<and>
    (\<forall>j. set (pbs w' j) \<subseteq> set (pbs w j)) \<and>
    (\<forall>s p v. sa = Some s \<longrightarrow> TrimSpace ref \<noteq> [] \<longrightarrow> resolveIamPolicy c ref w = (Ok p, v) \<longrightarrow>
      (\<forall>b \<in> set (pbs w' (policy_Identity p)). \<not> managed_for (sa_Identity s) b))"
proof (cases "sa = None \<or> TrimSpace ref = []")
  case True
  with assms show ?thesis by (auto simp: deletePolicyStep_def okE_ok split: option.splits)
next
  case False
  then obtain s where s: "sa = Some s" by auto
  obtain r v where "resolveIamPolicy c ref w = (r, v)" by fastforce
  with resolveIamPolicy_view [OF refl this] have res: "resolveIamPolicy c ref w = (r, w)" by simp
  show ?thesis
  proof (cases r)
    case (Ok p)
    with assms s False res have
      "deletePolicyBindingForSA c (policy_Identity p) (sa_Identity s) w = (Ok u, w')"
      by (simp add: deletePolicyStep_def tryE_run)
    then obtain bs x where bs: "ListIamPolicyBindings c (policy_Identity p) w = (Inr bs, x)"
      and loop: "delete_loop (\<lambda>i. wrapE ''delete iam policy binding''
        (call (DeleteIamPolicyBinding c (policy_Identity p) i))) (sa_Identity s) bs x = (Ok u, w')"
      by (auto simp: deletePolicyBindingForSA_def bindE_ok wrapE_ok call_ok)
    from read_same(9) [OF bs] have x: "x = w" .
    note d = delete_pbs_loop [OF loop [unfolded x]]
    have "\<not> managed_for (sa_Identity s) b" if "b \<in> set (pbs w' (policy_Identity p))" for b
      using that d pbs_listed [OF bs] by blast
    with d res Ok s show ?thesis by auto
  next
    case (Err e)
    with assms s False res have "w' = w" by (simp add: deletePolicyStep_def tryE_run okE_ok)
    with res Err show ?thesis by auto
  next
    case Panic
    with res total_run [OF total_resolveIamPolicy [of c ref]] show ?thesis by metis
  qed
qed

lemma deleteRoleStep_ok:
  assumes "deleteRoleStep c ref sa w = (Ok u, w')"
  shows "sas w' = sas w \<and> fis w' = fis w \<and> roles w' = roles w \<and> pbs w' = pbs w \<and>
    (\<forall>j. set (rbs w' j) \<subseteq> set (rbs w j)) \<and>
    (\<forall>s p v. sa = Some s \<longrightarrow> TrimSpace ref \<noteq> [] \<longrightarrow> resolveOrganisationRole c ref w = (Ok p, v) \<longrightarrow>
      (\<forall>b \<in> set (rbs w' (role_Identity p)). \<not> managed_for (sa_Identity s) b))"
proof (cases "sa = None \<or> TrimSpace ref = []")
  case True
  with assms show ?thesis by (auto simp: deleteRoleStep_def okE_ok split: option.splits)
next
  case False
  then obtain s where s: "sa = Some s" by auto
  obtain r v where "resolveOrganisationRole c ref w = (r, v)" by fastforce
  with resolveOrganisationRole_view [OF refl this] have res: "resolveOrganisationRole c ref w = (r, w)" by simp
  show ?thesis
  proof (cases r)
    case (Ok p)
    with assms s False res have
      "deleteRoleBindingForSA c (role_Identity p) (sa_Identity s) w = (Ok u, w')"
      by (simp add: deleteRoleStep_def tryE_run)
    then obtain bs x where bs: "ListRoleBindings c (role_Identity p) w = (Inr bs, x)"
      and loop: "delete_loop (\<lambda>i. wrapE ''delete role binding''
        (call (DeleteRoleBinding c (role_Identity p) i))) (sa_Identity s) bs x = (Ok u, w')"
      by (auto simp: deleteRoleBindingForSA_def bindE_ok wrapE_ok call_ok)
    from read_same(6) [OF bs] have x: "x = w" .
    note d = delete_rbs_loop [OF loop [unfolded x]]
    have "\<not> managed_for (sa_Identity s) b" if "b \<in> set (rbs w' (role_Identity p))" for b
      using that d rbs_listed [OF bs] by blast
    with d res Ok s show ?thesis by auto
  next
    case (Err e)
    with assms s False res have "w' = w" by (simp add: deleteRoleStep_def tryE_run okE_ok)
    with res Err show ?thesis by auto
  next
    case Panic
    with res total_run [OF total_resolveOrganisationRole [of c ref]] show ?thesis by metis
  qed
qed


lemma Delete_ok:
  assumes run: "DeleteWorkloadIdentity c ns sa iss roleRef policyRef w = (Ok u, w')"
    and sub: "BuildKubernetesSubject ns sa = Inr sub"
    and want: "want = OwnershipLabels (ResourceKey ns sa sub iss) ns sa"
  shows "case filter (\<lambda>s. LabelsMatch (sa_Labels s) want) (sas w) of
        [] \<Rightarrow> sas w' = sas w
      | s # _ \<Rightarrow> sas w' = filter (\<lambda>x. sa_Identity x \<noteq> sa_Identity s) (sas w) \<and>
          (\<forall>p v. TrimSpace policyRef \<noteq> [] \<longrightarrow> resolveIamPolicy c policyRef w = (Ok p, v) \<longrightarrow>
             (\<forall>b \<in> set (pbs w' (policy_Identity p)). \<not> managed_for (sa_Identity s) b)) \<and>
          (\<forall>p v. TrimSpace roleRef \<noteq> [] \<longrightarrow> resolveOrganisationRole c roleRef w = (Ok p, v) \<longrightarrow>
             (\<forall>b \<in> set (rbs w' (role_Identity p)). \<not> managed_for (sa_Identity s) b))"
    and "case filter (\<lambda>f. LabelsMatch (fi_Labels f) want) (fis w) of
        [] \<Rightarrow> set (fis w') \<subseteq> set (fis w)
      | f # _ \<Rightarrow> set (fis w') \<subseteq> {x \<in> set (fis w). fi_Identity x \<noteq> fi_Identity f}"
proof -
  from run sub want obtain fo w1 w2 so w3 w4 w5 u1 u2 u3 where
    f: "findByLabelsFI c want w = (Ok fo, w1)"
    and df: "(case fo of None \<Rightarrow> okE () | Some f \<Rightarrow> wrapE ''delete federated identity''
      (call (DeleteFederatedIdentity c (fi_Identity f)))) w1 = (Ok u1, w2)"
    and s: "findByLabelsSA c want w2 = (Ok so, w3)"
    and p: "deletePolicyStep c policyRef so w3 = (Ok u2, w4)"
    and r: "deleteRoleStep c roleRef so w4 = (Ok u3, w5)"
    and ds: "(case so of None \<Rightarrow> okE () | Some s \<Rightarrow> wrapE ''delete service account''
      (call (DeleteServiceAccount c (sa_Identity s)))) w5 = (Ok u, w')"
    by (auto simp: DeleteWorkloadIdentity_def Let_def bindE_ok)
  from findFI_ok [OF f] have w1: "w1 = w" and fo: "fo = (case filter
      (\<lambda>s. LabelsMatch (fi_Labels s) want) (fis w) of [] \<Rightarrow> None | s # _ \<Rightarrow> Some s)" by auto
  have w2: "sas w2 = sas w" "pols w2 = pols w" "roles w2 = roles w" "fo = None \<Longrightarrow> fis w2 = fis w"
    "\<And>f. fo = Some f \<Longrightarrow> fis w2 = filter (\<lambda>x. fi_Identity x \<noteq> fi_Identity f) (fis w)"
    using df w1 by (auto simp: okE_ok wrapE_ok call_ok dest!: fi_deleted split: option.splits)
  from findSA_ok [OF s] have w3: "w3 = w2" and so: "so = (case filter
      (\<lambda>s. LabelsMatch (sa_Labels s) want) (sas w) of [] \<Rightarrow> None | s # _ \<Rightarrow> Some s)"
    by (auto simp: w2)
  note pd = deletePolicyStep_ok [OF p] and rd = deleteRoleStep_ok [OF r]
  from pd rd have w5: "sas w5 = sas w" "fis w5 = fis w2" "pbs w5 = pbs w4" by (simp_all add: w3 w2)
  have w': "so = None \<Longrightarrow> sas w' = sas w" "set (fis w') \<subseteq> set (fis w2)"
    "\<And>s. so = Some s \<Longrightarrow> sas w' = filter (\<lambda>x. sa_Identity x \<noteq> sa_Identity s) (sas w)"
    "set (pbs w' j) \<subseteq> set (pbs w4 j)" "set (rbs w' j) \<subseteq> set (rbs w5 j)" for j
    using ds w5 by (auto simp: okE_ok wrapE_ok call_ok dest!: sa_deleted split: option.splits) blast+
  have nopol: "\<not> managed_for (sa_Identity s) b"
    if "so = Some s" "TrimSpace policyRef \<noteq> []" "resolveIamPolicy c policyRef w = (Ok p, v)"
      "b \<in> set (pbs w' (policy_Identity p))" for s p v b
  proof -
    from resolveIamPolicy_view [OF w2(2) [symmetric] that(3)]
    have "resolveIamPolicy c policyRef w3 = (Ok p, w3)" by (simp add: w3)
    with pd that w'(4) show ?thesis by blast
  qed
  have norole: "\<not> managed_for (sa_Identity s) b"
    if "so = Some s" "TrimSpace roleRef \<noteq> []" "resolveOrganisationRole c roleRef w = (Ok p, v)"
      "b \<in> set (rbs w' (role_Identity p))" for s p v b
  proof -
    have "roles w = roles w4" using pd by (simp add: w3 w2)
    from resolveOrganisationRole_view [OF this that(3)]
    have "resolveOrganisationRole c roleRef w4 = (Ok p, w4)" by simp
    with rd that w'(5) show ?thesis by blast
  qed
  show "case filter (\<lambda>s. LabelsMatch (sa_Labels s) want) (sas w) of
        [] \<Rightarrow> sas w' = sas w
      | s # _ \<Rightarrow> sas w' = filter (\<lambda>x. sa_Identity x \<noteq> sa_Identity s) (sas w) \<and>
          (\<forall>p v. TrimSpace policyRef \<noteq> [] \<longrightarrow> resolveIamPolicy c policyRef w = (Ok p, v) \<longrightarrow>
             (\<forall>b \<in> set (pbs w' (policy_Identity p)). \<not> managed_for (sa_Identity s) b)) \<and>
          (\<forall>p v. TrimSpace roleRef \<noteq> [] \<longrightarrow> resolveOrganisationRole c roleRef w = (Ok p, v) \<longrightarrow>
             (\<forall>b \<in> set (rbs w' (role_Identity p)). \<not> managed_for (sa_Identity s) b))"
    using so w'(1,3) nopol norole by (simp split: list.splits)
  show "case filter (\<lambda>f. LabelsMatch (fi_Labels f) want) (fis w) of
        [] \<Rightarrow> set (fis w') \<subseteq> set (fis w)
      | f # _ \<Rightarrow> set (fis w') \<subseteq> {x \<in> set (fis w). fi_Identity x \<noteq> fi_Identity f}"
  proof (cases fo)
    case None
    with fo w'(2) w2(4) show ?thesis by (simp split: list.splits)
  next
    case (Some f)
    with fo w'(2) w2(5) show ?thesis by (auto split: list.splits)
  qed
qed

end

end
