(* ===== verification/FakeIam.thy ===== *)
theory FakeIam
  imports EnsureStore
begin

text \<open>
  The in-memory IAM API of \<^verbatim>\<open>internal/wif/ensure_test.go\<close>. It is the one implementation of
  \<^verbatim>\<open>IAMClient\<close> in the repository, so it is the model on which the interfaces \<open>iam_store\<close>
  and \<open>iam_store_up\<close> are interpreted. A Go map of slices is a function to lists (the
  zero value of a missing key is the empty slice).
\<close>

record fakeIAM =
  providers :: "FederatedIdentityProvider list"
  sas :: "ServiceAccount list"
  fis :: "FederatedIdentity list"
  roles :: "OrganisationRole list"
  bindings :: "string \<Rightarrow> OrganisationRoleBinding list"
  policies :: "IamPolicy list"
  pBindings :: "string \<Rightarrow> IamPolicyBinding list"
  createSACalls :: nat
  createFICalls :: nat
  updateFICalls :: nat
  createRBCalls :: nat
  createPBCalls :: nat
  deleteSACalls :: nat
  deleteFICalls :: nat

definition fakeCreateServiceAccount ::
    "CreateServiceAccountRequest \<Rightarrow> (ServiceAccount option, fakeIAM) api" where
  "fakeCreateServiceAccount q f =
     (let sa = \<lparr>sa_Identity = ''sa-new'', sa_Name = csa_Name q, sa_Labels = csa_Labels q,
                sa_Annotations = csa_Annotations q\<rparr>
      in (Inr (Some sa),
          f\<lparr>createSACalls := createSACalls f + 1, sas := sas f @ [sa]\<rparr>))"

definition fakeDeleteServiceAccount :: "string \<Rightarrow> (unit, fakeIAM) api" where
  "fakeDeleteServiceAccount i f =
     (Inr (), f\<lparr>deleteSACalls := deleteSACalls f + 1,
                sas := filter (\<lambda>s. sa_Identity s \<noteq> i) (sas f)\<rparr>)"

definition fakeCreateFederatedIdentity ::
    "CreateFederatedIdentityRequest \<Rightarrow> (FederatedIdentity option, fakeIAM) api" where
  "fakeCreateFederatedIdentity q f =
     (let fi = \<lparr>fi_Identity = ''fi-new'', fi_Name = cfi_Name q, fi_Description = cfi_Description q,
                fi_Labels = cfi_Labels q, fi_Annotations = cfi_Annotations q,
                fi_ProviderSubject = cfi_ProviderSubject q,
                fi_TrustedAudiences = cfi_TrustedAudiences q,
                fi_AudienceMatchMode = cfi_AudienceMatchMode q,
                fi_AllowedScopes = cfi_AllowedScopes q\<rparr>
      in (Inr (Some fi),
          f\<lparr>createFICalls := createFICalls f + 1, fis := fis f @ [fi]\<rparr>))"

text \<open>The update loop: the first identity match is changed in place and returned.\<close>

fun update_loop ::
    "string \<Rightarrow> UpdateFederatedIdentityRequest \<Rightarrow> FederatedIdentity list \<Rightarrow>
     (FederatedIdentity \<times> FederatedIdentity list) option" where
  "update_loop i q [] = None"
| "update_loop i q (f # fs) =
     (if fi_Identity f = i
      then Some (let f' = f\<lparr>fi_Name := ufi_Name q, fi_Description := ufi_Description q,
                   fi_Labels := ufi_Labels q, fi_Annotations := ufi_Annotations q,
                   fi_TrustedAudiences := ufi_TrustedAudiences q,
                   fi_AudienceMatchMode := ufi_AudienceMatchMode q,
                   fi_AllowedScopes := ufi_AllowedScopes q\<rparr> in (f', f' # fs))
      else map_option (\<lambda>(g, gs). (g, f # gs)) (update_loop i q fs))"

definition fakeUpdateFederatedIdentity ::
    "string \<Rightarrow> UpdateFederatedIdentityRequest \<Rightarrow> (FederatedIdentity option, fakeIAM) api" where
  "fakeUpdateFederatedIdentity i q f =
     (let f = f\<lparr>updateFICalls := updateFICalls f + 1\<rparr> in
      case update_loop i q (fis f) of
        Some (fi, fs) \<Rightarrow> (Inr (Some fi), f\<lparr>fis := fs\<rparr>)
      | None \<Rightarrow> (Inl (OtherError ''not found''), f))"

definition fakeDeleteFederatedIdentity :: "string \<Rightarrow> (unit, fakeIAM) api" where
  "fakeDeleteFederatedIdentity i f =
     (Inr (), f\<lparr>deleteFICalls := deleteFICalls f + 1,
                fis := filter (\<lambda>fi. fi_Identity fi \<noteq> i) (fis f)\<rparr>)"

definition fakeGetOrganisationRole :: "string \<Rightarrow> (OrganisationRole option, fakeIAM) api" where
  "fakeGetOrganisationRole i f =
     (case find (\<lambda>r. role_Identity r = i) (roles f) of
        Some r \<Rightarrow> (Inr (Some r), f)
      | None \<Rightarrow> (Inl (OtherError ''not found''), f))"

definition fakeGetIamPolicy :: "string \<Rightarrow> (IamPolicy option, fakeIAM) api" where
  "fakeGetIamPolicy i f =
     (case find (\<lambda>p. policy_Identity p = i) (policies f) of
        Some p \<Rightarrow> (Inr (Some p), f)
      | None \<Rightarrow> (Inl (OtherError ''not found''), f))"

text \<open>The \<^verbatim>\<open>ServiceAccount\<close> stored in a binding carries only the identity.\<close>

definition bound_account :: "string option \<Rightarrow> ServiceAccount option" where
  "bound_account i = map_option (\<lambda>i. \<lparr>sa_Identity = i, sa_Name = [], sa_Labels = fmempty,
     sa_Annotations = fmempty\<rparr>) i"

definition fakeCreateRoleBinding ::
    "string \<Rightarrow> CreateBindingRequest \<Rightarrow> (OrganisationRoleBinding option, fakeIAM) api" where
  "fakeCreateRoleBinding r q f =
     (let b = \<lparr>b_Identity = ''rb-new'', b_Name = cb_Name q, b_Labels = cb_Labels q,
               b_ServiceAccount = bound_account (cb_ServiceAccountIdentity q)\<rparr>
      in (Inr (Some b),
          f\<lparr>createRBCalls := createRBCalls f + 1,
            bindings := (bindings f)(r := bindings f r @ [b])\<rparr>))"

definition fakeDeleteRoleBinding :: "string \<Rightarrow> string \<Rightarrow> (unit, fakeIAM) api" where
  "fakeDeleteRoleBinding r i f =
     (Inr (), f\<lparr>bindings := (bindings f)(r := filter (\<lambda>b. b_Identity b \<noteq> i) (bindings f r))\<rparr>)"

definition fakeCreateIamPolicyBinding ::
    "string \<Rightarrow> CreateBindingRequest \<Rightarrow> (IamPolicyBinding option, fakeIAM) api" where
  "fakeCreateIamPolicyBinding p q f =
     (let b = \<lparr>b_Identity = ''pb-new'', b_Name = cb_Name q, b_Labels = cb_Labels q,
               b_ServiceAccount = bound_account (cb_ServiceAccountIdentity q)\<rparr>
      in (Inr (Some b),
          f\<lparr>createPBCalls := createPBCalls f + 1,
            pBindings := (pBindings f)(p := pBindings f p @ [b])\<rparr>))"

definition fakeDeleteIamPolicyBinding :: "string \<Rightarrow> string \<Rightarrow> (unit, fakeIAM) api" where
  "fakeDeleteIamPolicyBinding p i f =
     (Inr (), f\<lparr>pBindings := (pBindings f)(p := filter (\<lambda>b. b_Identity b \<noteq> i) (pBindings f p))\<rparr>)"

definition fake_client :: "iam_consts \<Rightarrow> fakeIAM iam_client" where
  "fake_client k = \<lparr>
     ic_consts = k,
     ListFederatedIdentityProviders = (\<lambda>l f. (Inr (providers f), f)),
     ListServiceAccounts = (\<lambda>l f. (Inr (sas f), f)),
     CreateServiceAccount = fakeCreateServiceAccount,
     DeleteServiceAccount = fakeDeleteServiceAccount,
     ListFederatedIdentities = (\<lambda>l f. (Inr (fis f), f)),
     CreateFederatedIdentity = fakeCreateFederatedIdentity,
     UpdateFederatedIdentity = fakeUpdateFederatedIdentity,
     DeleteFederatedIdentity = fakeDeleteFederatedIdentity,
     GetOrganisationRole = fakeGetOrganisationRole,
     ListOrganisationRoles = (\<lambda>f. (Inr (roles f), f)),
     ListRoleBindings = (\<lambda>r f. (Inr (bindings f r), f)),
     CreateRoleBinding = fakeCreateRoleBinding,
     DeleteRoleBinding = fakeDeleteRoleBinding,
     ListIamPolicies = (\<lambda>f. (Inr (policies f), f)),
     GetIamPolicy = fakeGetIamPolicy,
     ListIamPolicyBindings = (\<lambda>p f. (Inr (pBindings f p), f)),
     CreateIamPolicyBinding = fakeCreateIamPolicyBinding,
     DeleteIamPolicyBinding = fakeDeleteIamPolicyBinding\<rparr>"

lemma fake_client_sel [simp]:
  "ic_consts (fake_client k) = k"
  "ListFederatedIdentityProviders (fake_client k) l f = (Inr (providers f), f)"
  "ListServiceAccounts (fake_client k) l f = (Inr (sas f), f)"
  "CreateServiceAccount (fake_client k) = fakeCreateServiceAccount"
  "DeleteServiceAccount (fake_client k) = fakeDeleteServiceAccount"
  "ListFederatedIdentities (fake_client k) l f = (Inr (fis f), f)"
  "CreateFederatedIdentity (fake_client k) = fakeCreateFederatedIdentity"
  "UpdateFederatedIdentity (fake_client k) = fakeUpdateFederatedIdentity"
  "DeleteFederatedIdentity (fake_client k) = fakeDeleteFederatedIdentity"
  "GetOrganisationRole (fake_client k) = fakeGetOrganisationRole"
  "ListOrganisationRoles (fake_client k) f = (Inr (roles f), f)"
  "ListRoleBindings (fake_client k) r f = (Inr (bindings f r), f)"
  "CreateRoleBinding (fake_client k) = fakeCreateRoleBinding"
  "DeleteRoleBinding (fake_client k) = fakeDeleteRoleBinding"
  "ListIamPolicies (fake_client k) f = (Inr (policies f), f)"
  "GetIamPolicy (fake_client k) = fakeGetIamPolicy"
  "ListIamPolicyBindings (fake_client k) r f = (Inr (pBindings f r), f)"
  "CreateIamPolicyBinding (fake_client k) = fakeCreateIamPolicyBinding"
  "DeleteIamPolicyBinding (fake_client k) = fakeDeleteIamPolicyBinding"
  by (simp_all add: fake_client_def)

lemmas fake_ops =
  fakeCreateServiceAccount_def fakeDeleteServiceAccount_def fakeCreateFederatedIdentity_def
  fakeDeleteFederatedIdentity_def fakeCreateRoleBinding_def
  fakeDeleteRoleBinding_def fakeCreateIamPolicyBinding_def fakeDeleteIamPolicyBinding_def
  fakeGetOrganisationRole_def fakeGetIamPolicy_def

lemma update_loop_Some:
  "update_loop i q fs = Some (f, fs') \<Longrightarrow>
   \<exists>pre old post. fs = pre @ old # post \<and> fi_Identity old = i \<and> i \<notin> fi_Identity ` set pre \<and>
     f = updated_fi q old \<and> fs' = pre @ f # post"
proof (induction fs arbitrary: f fs')
  case (Cons g gs)
  show ?case
  proof (cases "fi_Identity g = i")
    case True
    with Cons.prems have "f = updated_fi q g" "fs' = f # gs"
      by (auto simp: updated_fi_def Let_def)
    with True show ?thesis by (intro exI [of _ "[]"] exI [of _ g] exI [of _ gs]) simp
  next
    case False
    with Cons.prems obtain hs where rec: "update_loop i q gs = Some (f, hs)" and fs': "fs' = g # hs"
      by auto
    from Cons.IH [OF rec] obtain pre old post where "gs = pre @ old # post" "fi_Identity old = i"
      "i \<notin> fi_Identity ` set pre" "f = updated_fi q old" "hs = pre @ f # post" by blast
    with False fs' show ?thesis
      by (intro exI [of _ "g # pre"] exI [of _ old] exI [of _ post]) simp
  qed
qed simp

lemma binds_bound_account:
  "binds_sa k \<lparr>b_Identity = i, b_Name = n, b_Labels = l, b_ServiceAccount = bound_account (Some k)\<rparr>"
  by (simp add: binds_sa_def bound_account_def)

interpretation fk: iam_store "fake_client k" providers sas fis roles bindings policies pBindings
proof (unfold_locales, goal_cases)
  case (19 i uq w f w')
  then show ?case
    by (auto simp: fakeUpdateFederatedIdentity_def Let_def dest: update_loop_Some
        split: option.splits)
qed (auto simp: fake_ops Let_def created_fi_def binds_bound_account
      split: option.splits)

interpretation fk: iam_store_up "fake_client k" providers sas fis roles bindings policies pBindings
  by unfold_locales auto

interpretation fk: iam_store_del "fake_client k" providers sas fis roles bindings policies pBindings
  by unfold_locales (auto simp: fake_ops)

lemma fake_never_nil: "never_nil (fake_client k)"
  by (auto simp: never_nil_def fake_ops fakeUpdateFederatedIdentity_def Let_def
      split: option.splits)

end
