(* ===== verification/FakeKube.thy ===== *)
theory FakeKube
  imports PodMutator FakeIam
begin

text \<open>
  A concrete cluster for the witnesses: an API server that stores service accounts, bindings
  and ConfigMaps by namespace and name next to the in-memory IAM API, with a clock that
  ticks. It is an instance of the parameters of the model, not part of the program.
\<close>

record world =
  w_iam :: fakeIAM
  w_sas :: "string \<times> string \<Rightarrow> KubeServiceAccount option"
  w_wibs :: "string \<times> string \<Rightarrow> WorkloadIdentityBinding option"
  w_cms :: "string \<times> string \<Rightarrow> ConfigMap option"
  w_clock :: int

definition on_iam :: "('a, fakeIAM) api \<Rightarrow> ('a, world) api" where
  "on_iam f w = (case f (w_iam w) of (r, v) \<Rightarrow> (r, w\<lparr>w_iam := v\<rparr>))"

definition lift_iam :: "fakeIAM iam_client \<Rightarrow> world iam_client" where
  "lift_iam c = \<lparr>
     ic_consts = ic_consts c,
     ListFederatedIdentityProviders = (\<lambda>l. on_iam (ListFederatedIdentityProviders c l)),
     ListServiceAccounts = (\<lambda>l. on_iam (ListServiceAccounts c l)),
     CreateServiceAccount = (\<lambda>q. on_iam (CreateServiceAccount c q)),
     DeleteServiceAccount = (\<lambda>i. on_iam (DeleteServiceAccount c i)),
     ListFederatedIdentities = (\<lambda>l. on_iam (ListFederatedIdentities c l)),
     CreateFederatedIdentity = (\<lambda>q. on_iam (CreateFederatedIdentity c q)),
     UpdateFederatedIdentity = (\<lambda>i q. on_iam (UpdateFederatedIdentity c i q)),
     DeleteFederatedIdentity = (\<lambda>i. on_iam (DeleteFederatedIdentity c i)),
     GetOrganisationRole = (\<lambda>i. on_iam (GetOrganisationRole c i)),
     ListOrganisationRoles = on_iam (ListOrganisationRoles c),
     ListRoleBindings = (\<lambda>i. on_iam (ListRoleBindings c i)),
     CreateRoleBinding = (\<lambda>i q. on_iam (CreateRoleBinding c i q)),
     DeleteRoleBinding = (\<lambda>i j. on_iam (DeleteRoleBinding c i j)),
     ListIamPolicies = on_iam (ListIamPolicies c),
     GetIamPolicy = (\<lambda>i. on_iam (GetIamPolicy c i)),
     ListIamPolicyBindings = (\<lambda>i. on_iam (ListIamPolicyBindings c i)),
     CreateIamPolicyBinding = (\<lambda>i q. on_iam (CreateIamPolicyBinding c i q)),
     DeleteIamPolicyBinding = (\<lambda>i j. on_iam (DeleteIamPolicyBinding c i j))\<rparr>"

definition not_found :: "api_error" where
  "not_found = NotFound ''not found''"

definition fake_cluster :: "world kube_client" where
  "fake_cluster = \<lparr>
     GetServiceAccount = (\<lambda>ns n w. (case w_sas w (ns, n) of
        None \<Rightarrow> (Inl not_found, w)
      | Some s \<Rightarrow> (Inr (s\<lparr>ksa_Namespace := ns, ksa_Name := n\<rparr>), w))),
     UpdateServiceAccount = (\<lambda>s w. (case w_sas w (ksa_Namespace s, ksa_Name s) of
        None \<Rightarrow> (Inl not_found, w)
      | Some _ \<Rightarrow> (Inr (), w\<lparr>w_sas := (w_sas w)((ksa_Namespace s, ksa_Name s) := Some s)\<rparr>))),
     GetBinding = (\<lambda>ns n w. (case w_wibs w (ns, n) of
        None \<Rightarrow> (Inl not_found, w) | Some b \<Rightarrow> (Inr b, w))),
     UpdateBinding = (\<lambda>b w. (case w_wibs w (wib_Namespace b, wib_Name b) of
        None \<Rightarrow> (Inl not_found, w)
      | Some old \<Rightarrow> (Inr (), w\<lparr>w_wibs := (w_wibs w)((wib_Namespace b, wib_Name b) :=
          (if wib_Deleting b \<and> wib_Finalizers b = [] then None
           else Some (b\<lparr>wib_Status := wib_Status old\<rparr>)))\<rparr>))),
     UpdateBindingStatus = (\<lambda>b w. (case w_wibs w (wib_Namespace b, wib_Name b) of
        None \<Rightarrow> (Inl not_found, w)
      | Some old \<Rightarrow> (Inr (), w\<lparr>w_wibs := (w_wibs w)((wib_Namespace b, wib_Name b) :=
          Some (old\<lparr>wib_Status := wib_Status b\<rparr>))\<rparr>))),
     CreateOrUpdateConfigMap = (\<lambda>cm f w.
       (let old = (case w_cms w (cm_Namespace cm, cm_Name cm) of None \<Rightarrow> cm | Some c \<Rightarrow> c) in
        case f old of
          Inl e \<Rightarrow> (Inl e, w)
        | Inr new \<Rightarrow> (Inr (), w\<lparr>w_cms := (w_cms w)((cm_Namespace cm, cm_Name cm) := Some new)\<rparr>))),
     kc_SetOwner = Some (\<lambda>b cm. Inr (cm\<lparr>cm_Owner := Some (wib_Namespace b, wib_Name b)\<rparr>)),
     kc_ContainsFinalizer = (\<lambda>fs f. f \<in> set fs),
     kc_AddFinalizer = (\<lambda>fs f. if f \<in> set fs then fs else fs @ [f]),
     kc_RemoveFinalizer = (\<lambda>fs f. filter (\<lambda>g. g \<noteq> f) fs),
     kc_now = (\<lambda>w. (w_clock w, w\<lparr>w_clock := w_clock w + 1\<rparr>))\<rparr>"

lemma fake_cluster_laws: "finalizer_laws fake_cluster"
  by (auto simp: finalizer_laws_def fake_cluster_def)

lemma fake_cluster_sel [simp]:
  "GetServiceAccount fake_cluster ns n w =
     (case w_sas w (ns, n) of None \<Rightarrow> (Inl not_found, w)
      | Some s \<Rightarrow> (Inr (s\<lparr>ksa_Namespace := ns, ksa_Name := n\<rparr>), w))"
  "GetBinding fake_cluster ns n w =
     (case w_wibs w (ns, n) of None \<Rightarrow> (Inl not_found, w) | Some b \<Rightarrow> (Inr b, w))"
  "kc_ContainsFinalizer fake_cluster fs f \<longleftrightarrow> f \<in> set fs"
  "kc_AddFinalizer fake_cluster fs f = (if f \<in> set fs then fs else fs @ [f])"
  "kc_RemoveFinalizer fake_cluster fs f = filter (\<lambda>g. g \<noteq> f) fs"
  "kc_now fake_cluster w = (w_clock w, w\<lparr>w_clock := w_clock w + 1\<rparr>)"
  by (simp_all add: fake_cluster_def)

lemma fake_cluster_accounts: "accounts_kept fake_cluster"
  by (auto simp: accounts_kept_def fake_cluster_def split: option.splits)

end
