(* ===== verification/PodProps.thy ===== *)
theory PodProps
  imports FakeKube
begin

text \<open>
  The properties of the pod mutator: idempotence and honest reporting (from the interface
  \<open>injector\<close>), what the injected pod contains, that nothing existing is changed, when the
  injected mount refers to a volume of the pod and when it does not, and the handler.
\<close>

section \<open>Facts about the steps\<close>

text \<open>\<^verbatim>\<open>envValue\<close>: the first entry of a name, as the kubelet's own lookup in the tests.\<close>

definition lookup_env :: "string \<Rightarrow> Container \<Rightarrow> string option" where
  "lookup_env n c = map_option env_Value (find (\<lambda>e. env_Name e = n) (c_Env c))"

lemma find_append: "find P (xs @ ys) = (case find P xs of None \<Rightarrow> find P ys | Some x \<Rightarrow> Some x)"
  by (induction xs) auto

lemma lookup_ensureEnv:
  "lookup_env n (snd (ensureEnv m v c)) =
     (case lookup_env n c of Some x \<Rightarrow> Some x | None \<Rightarrow> if n = m then Some v else None)"
proof -
  have "list_ex (\<lambda>e. env_Name e = m) (c_Env c) \<longleftrightarrow> find (\<lambda>e. env_Name e = m) (c_Env c) \<noteq> None"
    by (auto simp: find_None_iff list_ex_iff)
  then show ?thesis
    by (cases "n = m") (auto simp: lookup_env_def ensureEnv_def find_append split: option.split)
qed

lemma lookup_ensureVolumeMount [simp]: "lookup_env n (snd (ensureVolumeMount c)) = lookup_env n c"
  by (simp add: lookup_env_def ensureVolumeMount_def)

lemma env_of_injected:
  "lookup_env n (snd (injectContainer i c)) =
     (case lookup_env n c of
        Some v \<Rightarrow> Some v
      | None \<Rightarrow>
          if n = EnvOrganisationID then Some (id_OrganisationID i)
          else if n = EnvServiceAccountID then Some (id_ServiceAccountID i)
          else if n = EnvProjectID \<and> id_ProjectID i \<noteq> [] then Some (id_ProjectID i)
          else if n = EnvSubjectTokenFile then Some ''/var/run/secrets/thalassa/token''
          else None)"
  unfolding injectContainer_steps inject_env_def then_inject_sel
  by (auto simp: lookup_ensureEnv ensureEnv_if_def DefaultSubjectTokenFile_def
      ProjectedTokenMountPath_def ProjectedTokenPath_def env_names split: option.split)

lemma env_names_distinct:
  "EnvOrganisationID \<noteq> EnvServiceAccountID" "EnvOrganisationID \<noteq> EnvProjectID"
  "EnvOrganisationID \<noteq> EnvSubjectTokenFile" "EnvServiceAccountID \<noteq> EnvProjectID"
  "EnvServiceAccountID \<noteq> EnvSubjectTokenFile" "EnvProjectID \<noteq> EnvSubjectTokenFile"
  by (simp_all add: env_names)

text \<open>What the webhook gives to a container, as a map from names to values.\<close>

definition credentials :: "Identity \<Rightarrow> string \<Rightarrow> string option" where
  "credentials i =
     (if id_ProjectID i \<noteq> [] then Map.empty(EnvProjectID \<mapsto> id_ProjectID i) else Map.empty)
     (EnvOrganisationID \<mapsto> id_OrganisationID i, EnvServiceAccountID \<mapsto> id_ServiceAccountID i,
      EnvSubjectTokenFile \<mapsto> ''/var/run/secrets/thalassa/token'')"

lemma env_injected:
  "(\<lambda>n. lookup_env n (snd (injectContainer i c))) = credentials i ++ (\<lambda>n. lookup_env n c)"
  using env_names_distinct
  by (auto simp: fun_eq_iff env_of_injected credentials_def map_add_def split: option.split)

text \<open>A container that only had entries appended.\<close>

definition extends :: "Container \<Rightarrow> Container \<Rightarrow> bool" where
  "extends c c' \<longleftrightarrow>
     c_Name c' = c_Name c \<and> prefix (c_Env c) (c_Env c') \<and> prefix (c_VolumeMounts c) (c_VolumeMounts c')"

lemma extends_trans: "extends a b \<Longrightarrow> extends b c \<Longrightarrow> extends a c"
  by (auto simp: extends_def intro: prefix_order.trans)

lemma extends_steps:
  "extends c (snd (ensureEnv n v c))" "extends c (snd (ensureEnv_if b n v c))"
  "extends c (snd (ensureVolumeMount c))"
  by (auto simp: extends_def ensureEnv_def ensureEnv_if_def ensureVolumeMount_def)

lemma extends_injectContainer: "extends c (snd (injectContainer i c))"
  unfolding injectContainer_steps inject_env_def then_inject_sel
  by (intro extends_trans [OF _ extends_steps(1)] extends_trans [OF _ extends_steps(2)]
      extends_trans [OF _ extends_steps(3)] extends_steps)

text \<open>The pod after a mutation that applies.\<close>

definition active :: "Identity \<Rightarrow> string \<Rightarrow> bool" where
  "active i audience \<longleftrightarrow> Complete i \<and> TrimSpace audience \<noteq> []"

definition mutated :: "Identity \<Rightarrow> string \<Rightarrow> Pod \<Rightarrow> Pod" where
  "mutated i audience p =
     (let p = snd (ensureProjectedTokenVolume (TrimSpace audience) p) in
      p\<lparr>pod_InitContainers := map (\<lambda>c. snd (injectContainer i c)) (pod_InitContainers p),
        pod_Containers := map (\<lambda>c. snd (injectContainer i c)) (pod_Containers p)\<rparr>)"

lemma MutatePod_snd:
  "snd (MutatePod (Some p) i audience) = Some (if active i audience then mutated i audience p else p)"
  by (simp add: MutatePod_eq active_def mutated_def mutate_def then_inject_sel each_def Let_def)

lemma MutatePod_active:
  "active i audience \<Longrightarrow>
   MutatePod (Some p) i audience = (fst (MutatePod (Some p) i audience), Some (mutated i audience p))"
  by (simp add: prod_eq_iff MutatePod_snd)

lemma pod_fields [simp]:
  "pod_InitContainers (snd (ensureProjectedTokenVolume a p)) = pod_InitContainers p"
  "pod_Containers (snd (ensureProjectedTokenVolume a p)) = pod_Containers p"
  "pod_Namespace (snd (ensureProjectedTokenVolume a p)) = pod_Namespace p"
  "pod_Labels (snd (ensureProjectedTokenVolume a p)) = pod_Labels p"
  "pod_ServiceAccountName (snd (ensureProjectedTokenVolume a p)) = pod_ServiceAccountName p"
  by (simp_all add: ensureProjectedTokenVolume_def)

text \<open>Every mount of every container names a volume of the pod.\<close>

definition all_containers :: "Pod \<Rightarrow> Container list" where
  "all_containers p = pod_InitContainers p @ pod_Containers p"

definition mounts_resolve :: "Pod \<Rightarrow> bool" where
  "mounts_resolve p \<longleftrightarrow>
     list_all (\<lambda>c. list_all (\<lambda>m. list_ex (\<lambda>v. vol_Name v = vm_Name m) (pod_Volumes p))
       (c_VolumeMounts c)) (all_containers p)"

lemma all_containers_mutated:
  "all_containers (mutated i a p) = map (\<lambda>c. snd (injectContainer i c)) (all_containers p)"
  by (simp add: all_containers_def mutated_def Let_def)

lemma volumes_mutated:
  "pod_Volumes (mutated i a p) = pod_Volumes p @
     (if has_volume (TrimSpace a) p then [] else [thalassa_volume (TrimSpace a)])"
  by (simp add: mutated_def Let_def ensureProjectedTokenVolume_def has_volume_def)

lemma mounts_ensureEnv [simp]:
  "c_VolumeMounts (snd (ensureEnv n v c)) = c_VolumeMounts c"
  "c_VolumeMounts (snd (ensureEnv_if b n v c)) = c_VolumeMounts c"
  by (simp_all add: ensureEnv_def ensureEnv_if_def)

lemma mounts_injectContainer:
  "c_VolumeMounts (snd (injectContainer i c)) = c_VolumeMounts c @
     (if has_mount c then [] else [\<lparr>vm_Name = ProjectedVolumeName,
        vm_MountPath = ProjectedTokenMountPath, vm_ReadOnly = True\<rparr>])"
  unfolding injectContainer_steps inject_env_def then_inject_sel
  by (simp add: ensureVolumeMount_def has_mount_def)

lemma mutate_report: "fst (MutatePod pod i audience) \<longleftrightarrow> snd (MutatePod pod i audience) \<noteq> pod"
  by (rule mutator.changed_iff)

section \<open>Mutation\<close>

text \<open>
  C18: mutating a pod twice is mutating it once: the second run reports no change and leaves
  the pod as it is.
\<close>

theorem mutate_idempotent:
  "MutatePod (snd (MutatePod pod i audience)) i audience = (False, snd (MutatePod pod i audience))"
  by (rule mutator.idempotent)

text \<open>
  C19: injection as an operation on environments: seen as a map from names to values, the
  environment of an injected container is the credentials of the identity (the project only
  when there is one, and the token file), overridden by what the container had; nothing else
  is added and no existing entry is replaced.
\<close>

theorem injected_environment:
  "(\<lambda>n. lookup_env n (snd (injectContainer i c))) = credentials i ++ (\<lambda>n. lookup_env n c)"
  by (rule env_injected)

text \<open>
  C20: what the mutation leaves alone: namespace, labels and service account of the pod, and
  in every container the name and all existing environment entries and mounts, in order;
  volumes are only added.
\<close>

theorem mutate_only_appends:
  assumes "MutatePod (Some p) i audience = (changed, Some p')"
  shows "pod_Namespace p' = pod_Namespace p \<and> pod_Labels p' = pod_Labels p \<and>
    pod_ServiceAccountName p' = pod_ServiceAccountName p \<and>
    prefix (pod_Volumes p) (pod_Volumes p') \<and>
    list_all2 extends (pod_InitContainers p) (pod_InitContainers p') \<and>
    list_all2 extends (pod_Containers p) (pod_Containers p')"
proof -
  have refl: "list_all2 extends cs cs" for cs
    by (simp add: list_all2_same extends_def)
  have inj: "list_all2 extends cs (map (\<lambda>c. snd (injectContainer i c)) cs)" for cs
    by (simp add: list_all2_map2 list_all2_same extends_injectContainer)
  from MutatePod_snd [of p i audience] assms
  have "p' = (if active i audience then mutated i audience p else p)" by simp
  then show ?thesis
    by (simp add: refl volumes_mutated) (simp add: mutated_def Let_def inj)
qed

definition demo_container :: Container where
  "demo_container = \<lparr>c_Name = ''app'', c_Env = [], c_VolumeMounts = []\<rparr>"

definition demo_pod :: Pod where
  "demo_pod = \<lparr>pod_Namespace = ''ns'', pod_Labels = fmap_of_list [(LabelWIFUse, LabelWIFUseValue)],
     pod_ServiceAccountName = ''app'', pod_InitContainers = [], pod_Containers = [demo_container],
     pod_Volumes = []\<rparr>"

definition demo_identity :: Identity where
  "demo_identity = \<lparr>id_OrganisationID = ''org-1'', id_ServiceAccountID = ''sa-1'', id_ProjectID = []\<rparr>"

lemma demo_active: "active demo_identity ''aud''"
proof -
  have "TrimSpace ''org-1'' = ''org-1''" "TrimSpace ''sa-1'' = ''sa-1''" "TrimSpace ''aud'' = ''aud''"
    by code_simp+
  then show ?thesis by (simp add: active_def Complete_def demo_identity_def)
qed

theorem mutate_only_appends_witness:
  "\<exists>b p'. MutatePod (Some demo_pod) demo_identity ''aud'' = (b, Some p') \<and>
     pod_Labels p' = pod_Labels demo_pod"
  using MutatePod_active [OF demo_active, of demo_pod]
    mutate_only_appends [OF MutatePod_active [OF demo_active, of demo_pod]] by blast

text \<open>
  C21: the injected mounts refer to a volume of the pod, provided those of the pod did and no
  volume of another name already projects the token of this audience.
\<close>

theorem mutate_mounts_resolve:
  assumes "MutatePod (Some p) i audience = (changed, Some p')"
    and "mounts_resolve p"
    and "\<forall>v \<in> set (pod_Volumes p). volumeHasThalassaToken v (TrimSpace audience) \<longrightarrow>
      vol_Name v = ProjectedVolumeName"
  shows "mounts_resolve p'"
proof (cases "active i audience")
  case False
  with MutatePod_snd [of p i audience] assms show ?thesis by simp
next
  case True
  with MutatePod_snd [of p i audience] assms(1) have p': "p' = mutated i audience p" by simp
  have vol: "list_ex (\<lambda>v. vol_Name v = ProjectedVolumeName) (pod_Volumes p')"
    using assms(3) by (auto simp: p' volumes_mutated has_volume_def list_ex_iff thalassa_volume_def)
  have "list_ex (\<lambda>v. vol_Name v = n) (pod_Volumes p) \<Longrightarrow>
      list_ex (\<lambda>v. vol_Name v = n) (pod_Volumes p')" for n
    by (simp add: p' volumes_mutated)
  with vol assms(2) show ?thesis
    by (auto simp: mounts_resolve_def p' all_containers_mutated mounts_injectContainer list_all_iff)
qed

theorem mutate_mounts_resolve_witness:
  "\<exists>b p'. MutatePod (Some demo_pod) demo_identity ''aud'' = (b, Some p') \<and> mounts_resolve p'"
proof -
  have "mounts_resolve demo_pod"
    by (simp add: demo_pod_def mounts_resolve_def all_containers_def demo_container_def)
  moreover have "pod_Volumes demo_pod = []" by (simp add: demo_pod_def)
  ultimately have "mounts_resolve (mutated demo_identity ''aud'' demo_pod)"
    by (intro mutate_mounts_resolve [OF MutatePod_active [OF demo_active]]) simp_all
  with MutatePod_active [OF demo_active, of demo_pod] show ?thesis by blast
qed

text \<open>
  C37: the case the check by token content misses: when the token is projected by a volume of
  another name, no volume is added, yet a container without a mount at the token path still
  gets the mount of \<^verbatim>\<open>thalassa-wif\<close>, which no volume of the pod has. Such a pod is rejected.
\<close>

theorem mutate_dangling_mount:
  assumes "active i audience"
    and "v \<in> set (pod_Volumes p)" and "volumeHasThalassaToken v (TrimSpace audience)"
    and "\<not> list_ex (\<lambda>v. vol_Name v = ProjectedVolumeName) (pod_Volumes p)"
    and "c \<in> set (pod_Containers p)" and "\<not> has_mount c"
  shows "\<not> mounts_resolve (the (snd (MutatePod (Some p) i audience)))"
proof -
  let ?p = "mutated i audience p"
  let ?m = "\<lparr>vm_Name = ProjectedVolumeName, vm_MountPath = ProjectedTokenMountPath, vm_ReadOnly = True\<rparr>"
  have "has_volume (TrimSpace audience) p"
    using assms(2,3) by (auto simp: has_volume_def list_ex_iff)
  then have vols: "pod_Volumes ?p = pod_Volumes p" by (simp add: volumes_mutated)
  have "c \<in> set (all_containers p)" by (simp add: all_containers_def assms(5))
  then have "snd (injectContainer i c) \<in> set (all_containers ?p)"
    by (simp add: all_containers_mutated)
  moreover have "?m \<in> set (c_VolumeMounts (snd (injectContainer i c)))"
    using assms(6) by (simp add: mounts_injectContainer)
  ultimately have "\<not> mounts_resolve ?p"
    using assms(4) vols by (fastforce simp: mounts_resolve_def list_all_iff)
  with assms(1) show ?thesis by (simp add: MutatePod_snd)
qed

definition demo_token_pod :: Pod where
  "demo_token_pod = demo_pod\<lparr>pod_Volumes := [(thalassa_volume ''aud'')\<lparr>vol_Name := ''custom-token''\<rparr>]\<rparr>"

theorem mutate_dangling_mount_witness:
  "mounts_resolve demo_token_pod \<and>
   \<not> mounts_resolve (the (snd (MutatePod (Some demo_token_pod) demo_identity ''aud'')))"
proof
  show "mounts_resolve demo_token_pod"
    by (simp add: demo_token_pod_def demo_pod_def mounts_resolve_def all_containers_def demo_container_def)
  have "TrimSpace ''aud'' = ''aud''" by code_simp
  then show "\<not> mounts_resolve (the (snd (MutatePod (Some demo_token_pod) demo_identity ''aud'')))"
    by (intro mutate_dangling_mount [OF demo_active,
          of "(thalassa_volume ''aud'')\<lparr>vol_Name := ''custom-token''\<rparr>" _ demo_container])
      (simp_all add: demo_token_pod_def demo_pod_def thalassa_volume_def volumeHasThalassaToken_def
        ProjectedVolumeName_def has_mount_def demo_container_def)
qed

section \<open>The handler\<close>

text \<open>The steps of the handler once the pod is decoded and opted in.\<close>

lemma Handle_opted:
  fixes pod0 req
  defines "ns \<equiv> (if pod_Namespace pod0 = [] then req_Namespace req else pod_Namespace pod0)"
  defines "n \<equiv> (if pod_ServiceAccountName pod0 = [] then ''default'' else pod_ServiceAccountName pod0)"
  assumes "decode req = Inr pod0" and "get (pod_Labels pod0) LabelWIFUse = ''true''"
  shows "Handle k decode marshal audience req =
    tryE (call (GetServiceAccount k ns n)) (\<lambda>got.
      case got of
        Inl e \<Rightarrow> if isNotFound e then okE (Allowed ''serviceaccount not found'') else okE (Errored 500 e)
      | Inr sa \<Rightarrow>
          (let i = IdentityFromServiceAccount (Some sa) in
           if \<not> Complete i then okE (Allowed ''wif identity annotations incomplete'')
           else (case MutatePod (Some (pod0\<lparr>pod_Namespace := ns\<rparr>)) i audience of
             (changed, pod') \<Rightarrow>
               if \<not> changed then okE (Allowed ''already injected or no changes'')
               else bindE (derefE pod') (\<lambda>p.
                 case marshal p of Inl e \<Rightarrow> okE (Errored 500 e)
                 | Inr raw \<Rightarrow> okE (Patched (req_Raw req) raw)))))"
proof -
  have pod: "(if pod_Namespace pod0 = [] then pod0\<lparr>pod_Namespace := req_Namespace req\<rparr> else pod0) =
      pod0\<lparr>pod_Namespace := ns\<rparr>" by (simp add: ns_def)
  have opted: "OptedIn (Some (pod0\<lparr>pod_Namespace := ns\<rparr>))"
    by (simp add: OptedIn_def assms(4) LabelWIFUseValue_def)
  show ?thesis
    unfolding Handle_def assms(3) sum.case pod Let_def
    by (simp add: opted n_def)
qed

lemma total_Handle_opted:
  assumes "decode req = Inr pod0" and "get (pod_Labels pod0) LabelWIFUse = ''true''"
  shows "\<exists>resp. fst (Handle k decode marshal audience req w) = Ok resp"
proof -
  let ?ns = "if pod_Namespace pod0 = [] then req_Namespace req else pod_Namespace pod0"
  let ?n = "if pod_ServiceAccountName pod0 = [] then ''default'' else pod_ServiceAccountName pod0"
  obtain got v where got: "GetServiceAccount k ?ns ?n w = (got, v)" by fastforce
  show ?thesis
  proof (cases got)
    case (Inl e)
    with got show ?thesis by (simp add: Handle_opted [where decode = decode, OF assms] prog_simps)
  next
    case (Inr sa)
    let ?i = "IdentityFromServiceAccount (Some sa)" and ?p = "pod0\<lparr>pod_Namespace := ?ns\<rparr>"
    obtain b p' where "MutatePod (Some ?p) ?i audience = (b, Some p')"
      by (metis MutatePod_snd prod.collapse)
    with Inr got show ?thesis
      by (cases "marshal p'") (simp_all add: Handle_opted [where decode = decode, OF assms] prog_simps Let_def)
  qed
qed

lemma handler_opted_out:
  "decode req = Inr pod \<Longrightarrow> get (pod_Labels pod) LabelWIFUse \<noteq> ''true'' \<Longrightarrow>
   Handle k decode marshal audience req w = (Ok (Allowed ''wif.use label not set''), w)"
  by (simp add: Handle_def Let_def OptedIn_def LabelWIFUseValue_def okE_run)

text \<open>
  The handler always answers: it never panics and never returns an error outside the
  response, whatever the decoder, the cluster and the encoder do; a pod that is not opted in
  is allowed as it is without a call to the cluster.
\<close>

theorem handler_answers:
  "if (case decode req of Inr pod \<Rightarrow> get (pod_Labels pod) LabelWIFUse \<noteq> ''true'' | Inl _ \<Rightarrow> False)
   then Handle k decode marshal audience req w = (Ok (Allowed ''wif.use label not set''), w)
   else \<exists>resp. fst (Handle k decode marshal audience req w) = Ok resp"
proof (cases "decode req")
  case (Inl e)
  then show ?thesis by (simp add: Handle_def okE_run)
next
  case (Inr pod)
  show ?thesis
  proof (cases "get (pod_Labels pod) LabelWIFUse = ''true''")
    case True
    with Inr show ?thesis by (simp add: total_Handle_opted)
  next
    case False
    with Inr show ?thesis by (simp add: handler_opted_out)
  qed
qed

text \<open>
  C22: when the handler patches a pod: the pod is opted in, its service account (\<open>default\<close> when
  unnamed, in the request's namespace when the pod has none) exists with a complete identity,
  and the patch is from the raw object to the marshalled result of the mutation.
\<close>

theorem handler_patches:
  assumes "Handle k decode marshal audience req w = (Ok (Patched old new), w')"
  shows "\<exists>pod sa p'. decode req = Inr pod \<and> get (pod_Labels pod) LabelWIFUse = ''true'' \<and>
    (let ns = (if pod_Namespace pod = [] then req_Namespace req else pod_Namespace pod);
         n = (if pod_ServiceAccountName pod = [] then ''default'' else pod_ServiceAccountName pod)
     in GetServiceAccount k ns n w = (Inr sa, w') \<and>
        MutatePod (Some (pod\<lparr>pod_Namespace := ns\<rparr>)) (IdentityFromServiceAccount (Some sa)) audience =
          (True, Some p')) \<and>
    TrimSpace (get (ksa_Annotations sa) AnnotationOrganisationID) \<noteq> [] \<and>
    TrimSpace (get (ksa_Annotations sa) AnnotationServiceAccountID) \<noteq> [] \<and>
    marshal p' = Inr new \<and> old = req_Raw req"
proof -
  from assms obtain pod where dec: "decode req = Inr pod"
    by (auto simp: Handle_def okE_ok split: sum.splits)
  with assms have opted: "get (pod_Labels pod) LabelWIFUse = ''true''"
    using handler_opted_out [of decode req pod k marshal audience w] by (cases "get (pod_Labels pod) LabelWIFUse = ''true''") auto
  let ?ns = "if pod_Namespace pod = [] then req_Namespace req else pod_Namespace pod"
  let ?n = "if pod_ServiceAccountName pod = [] then ''default'' else pod_ServiceAccountName pod"
  note run = assms [unfolded Handle_opted [where decode = decode, OF dec opted]]
  obtain got v where got: "GetServiceAccount k ?ns ?n w = (got, v)" by fastforce
  with run obtain sa where sa: "got = Inr sa"
    by (cases got) (simp_all add: prog_simps okE_ok split: if_splits)
  let ?i = "IdentityFromServiceAccount (Some sa)" and ?p = "pod\<lparr>pod_Namespace := ?ns\<rparr>"
  obtain b p' where mut: "MutatePod (Some ?p) ?i audience = (b, Some p')"
    by (metis MutatePod_snd prod.collapse)
  from run got sa mut have facts: "Complete ?i" "b" "marshal p' = Inr new" "old = req_Raw req" "w' = v"
    by (simp_all add: prog_simps okE_ok Let_def split: if_splits sum.splits)
  show ?thesis
    using dec opted got sa mut facts
    by (intro exI [of _ pod] exI [of _ sa] exI [of _ p'])
      (simp add: Let_def Complete_def IdentityFromServiceAccount_def)
qed

definition demo_ksa :: KubeServiceAccount where
  "demo_ksa = \<lparr>ksa_Namespace = ''ns'', ksa_Name = ''app'',
     ksa_Annotations = fmap_of_list [(AnnotationOrganisationID, ''org-1''),
       (AnnotationServiceAccountID, ''sa-1'')],
     ksa_Finalizers = [], ksa_Deleting = False\<rparr>"

definition demo_cluster_world :: world where
  "demo_cluster_world = \<lparr>
     w_iam = \<lparr>providers = [], sas = [], fis = [], roles = [], bindings = (\<lambda>_. []), policies = [],
       pBindings = (\<lambda>_. []), createSACalls = 0, createFICalls = 0, updateFICalls = 0,
       createRBCalls = 0, createPBCalls = 0, deleteSACalls = 0, deleteFICalls = 0\<rparr>,
     w_sas = (\<lambda>_. None)((''ns'', ''app'') := Some demo_ksa), w_wibs = (\<lambda>_. None),
     w_cms = (\<lambda>_. None), w_clock = 0\<rparr>"

definition demo_request :: "string request" where
  "demo_request = \<lparr>req_Namespace = ''ns'', req_Raw = ''{}''\<rparr>"

lemma demo_ksa_identity: "IdentityFromServiceAccount (Some demo_ksa) = demo_identity"
proof -
  have "TrimSpace ''org-1'' = ''org-1''" "TrimSpace ''sa-1'' = ''sa-1''" by code_simp+
  then show ?thesis
    by (simp add: IdentityFromServiceAccount_def demo_ksa_def demo_identity_def annotation_keys)
qed

lemma demo_mutated: "MutatePod (Some demo_pod) demo_identity ''aud'' =
    (True, Some (mutated demo_identity ''aud'' demo_pod))"
proof -
  have "mutated demo_identity ''aud'' demo_pod \<noteq> demo_pod"
  proof
    assume "mutated demo_identity ''aud'' demo_pod = demo_pod"
    then have "pod_Volumes (mutated demo_identity ''aud'' demo_pod) = pod_Volumes demo_pod" by simp
    then show False by (simp add: volumes_mutated has_volume_def demo_pod_def)
  qed
  then show ?thesis
    using mutate_report [of "Some demo_pod" demo_identity "''aud''"]
      MutatePod_active [OF demo_active, of demo_pod] MutatePod_snd [of demo_pod demo_identity "''aud''"]
      demo_active by (simp add: prod_eq_iff)
qed

theorem handler_patches_witness:
  "\<exists>p'. Handle fake_cluster (\<lambda>_. Inr demo_pod) (\<lambda>_. Inr ''{patched}'') ''aud'' demo_request
      demo_cluster_world = (Ok (Patched ''{}'' ''{patched}''), demo_cluster_world) \<and>
    MutatePod (Some demo_pod) demo_identity ''aud'' = (True, Some p')"
proof -
  have fields: "pod_Namespace demo_pod = ''ns''" "pod_ServiceAccountName demo_pod = ''app''"
    "get (pod_Labels demo_pod) LabelWIFUse = ''true''"
    "demo_pod\<lparr>pod_Namespace := ''ns''\<rparr> = demo_pod"
    "GetServiceAccount fake_cluster ''ns'' ''app'' demo_cluster_world = (Inr demo_ksa, demo_cluster_world)"
    by (simp_all add: demo_pod_def demo_cluster_world_def demo_ksa_def LabelWIFUseValue_def)
  have "Complete demo_identity" using demo_active by (simp add: active_def)
  then have run: "Handle fake_cluster (\<lambda>_. Inr demo_pod) (\<lambda>_. Inr ''{patched}'') ''aud'' demo_request
      demo_cluster_world = (Ok (Patched ''{}'' ''{patched}''), demo_cluster_world)"
    by (simp add: Handle_opted [where decode = "\<lambda>_. Inr demo_pod" and ?pod0.0 = demo_pod] fields
        tryE_def call_def okE_def bindE_def derefE_def demo_ksa_identity demo_mutated Let_def
        demo_request_def del: fake_cluster_sel)
  from handler_patches [OF run] run show ?thesis
    by (auto simp: fields demo_ksa_identity simp del: fake_cluster_sel)
qed

end
