(* ===== verification/IdentityChannel.thy ===== *)
theory IdentityChannel
  imports ControllerTrace PodProps
begin

section \<open>The interface between the controllers and the webhook\<close>

text \<open>
  A writer publishes an identity on an object and later withdraws it; a reader reads it.
  \<open>good\<close> are the identities that survive the way.
\<close>

locale identity_channel =
  fixes publish :: "'i \<Rightarrow> 'a \<Rightarrow> 'a"
    and withdraw :: "'a \<Rightarrow> 'a"
    and read :: "'a \<Rightarrow> 'i"
    and nothing :: 'i
    and good :: "'i \<Rightarrow> bool"
  assumes read_published: "good i \<Longrightarrow> read (publish i x) = i"
    and read_withdrawn: "read (withdraw x) = nothing"
    and last_wins: "publish i (publish j x) = publish i x"
begin

lemma republished: "good i \<Longrightarrow> read (publish i (publish j x)) = i"
  by (simp add: last_wins read_published)

lemma publish_idempotent: "publish i (publish i x) = publish i x"
  by (rule last_wins)

lemma withdrawn_after: "read (withdraw (publish i x)) = nothing"
  by (rule read_withdrawn)

lemma published_not_withdrawn: "good i \<Longrightarrow> i \<noteq> nothing \<Longrightarrow> publish i x \<noteq> withdraw y"
  using read_published read_withdrawn by metis

end

definition publish_identity :: "Identity \<Rightarrow> smap \<Rightarrow> smap" where
  "publish_identity i =
     identity_annotations (id_ServiceAccountID i) (id_OrganisationID i) (id_ProjectID i)"

definition withdraw_identity :: "smap \<Rightarrow> smap" where
  "withdraw_identity a = snd (clear_loop identity_keys a False)"

definition read_identity :: "smap \<Rightarrow> Identity" where
  "read_identity a =
     IdentityFromServiceAccount (Some \<lparr>ksa_Namespace = [], ksa_Name = [], ksa_Annotations = a,
       ksa_Finalizers = [], ksa_Deleting = False\<rparr>)"

definition no_identity :: Identity where
  "no_identity = \<lparr>id_OrganisationID = [], id_ServiceAccountID = [], id_ProjectID = []\<rparr>"

definition trimmed_identity :: "Identity \<Rightarrow> bool" where
  "trimmed_identity i \<longleftrightarrow>
     TrimSpace (id_OrganisationID i) = id_OrganisationID i \<and>
     TrimSpace (id_ServiceAccountID i) = id_ServiceAccountID i \<and>
     TrimSpace (id_ProjectID i) = id_ProjectID i"

lemma identity_of_annotations:
  "IdentityFromServiceAccount (Some sa) = read_identity (ksa_Annotations sa)"
  by (simp add: read_identity_def IdentityFromServiceAccount_def)

lemma identity_keys_distinct:
  "AnnotationServiceAccountID \<noteq> AnnotationOrganisationID"
  "AnnotationServiceAccountID \<noteq> AnnotationProjectID"
  "AnnotationOrganisationID \<noteq> AnnotationProjectID"
  by (simp_all add: annotation_keys)

lemma get_identity_annotations:
  "get (identity_annotations s o' p a) k =
     (if k = AnnotationServiceAccountID then s else if k = AnnotationOrganisationID then o'
      else if k = AnnotationProjectID then p else get a k)"
  using identity_keys_distinct by (auto simp: identity_annotations_def Let_def)

lemma clear_loop_get:
  "get (snd (clear_loop ks a b)) k = (if k \<in> set ks then [] else get a k)"
  by (induction ks a b rule: clear_loop.induct) (auto simp: get_no_key)

lemma clear_loop_key:
  "hasKey (snd (clear_loop ks a b)) k \<longleftrightarrow> k \<notin> set ks \<and> hasKey a k"
  by (induction ks a b rule: clear_loop.induct) auto

lemma clear_loop_changed:
  "fst (clear_loop ks a b) \<longleftrightarrow> b \<or> (\<exists>k \<in> set ks. hasKey a k)"
proof (induction ks arbitrary: a b)
  case (Cons k ks)
  then show ?case by (cases "hasKey a k") auto
qed simp

lemma clear_loop_unchanged: "\<not> fst (clear_loop ks a b) \<Longrightarrow> snd (clear_loop ks a b) = a"
proof (induction ks arbitrary: a b)
  case (Cons k ks)
  then show ?case by (auto simp: clear_loop_changed split: if_splits)
qed simp

lemma identity_annotations_again:
  "identity_annotations s o' p (identity_annotations s' o'' p' a) = identity_annotations s o' p a"
proof (rule fmap_ext)
  fix k
  show "fmlookup (identity_annotations s o' p (identity_annotations s' o'' p' a)) k =
      fmlookup (identity_annotations s o' p a) k"
    by (auto simp: identity_annotations_def Let_def)
qed

lemma identity_sel:
  "id_OrganisationID \<lparr>id_OrganisationID = a, id_ServiceAccountID = b, id_ProjectID = c\<rparr> = a"
  "id_ServiceAccountID \<lparr>id_OrganisationID = a, id_ServiceAccountID = b, id_ProjectID = c\<rparr> = b"
  "id_ProjectID \<lparr>id_OrganisationID = a, id_ServiceAccountID = b, id_ProjectID = c\<rparr> = c"
  by (rule Identity.select_convs)+

lemma read_identity_eq:
  "read_identity a = \<lparr>id_OrganisationID = TrimSpace (get a AnnotationOrganisationID),
     id_ServiceAccountID = TrimSpace (get a AnnotationServiceAccountID),
     id_ProjectID = TrimSpace (get a AnnotationProjectID)\<rparr>"
  by (simp add: read_identity_def IdentityFromServiceAccount_def)

lemma read_identity_annotations:
  "read_identity (identity_annotations s o' p a) = \<lparr>id_OrganisationID = TrimSpace o',
     id_ServiceAccountID = TrimSpace s, id_ProjectID = TrimSpace p\<rparr>"
proof -
  have "get (identity_annotations s o' p a) AnnotationOrganisationID = o'"
    "get (identity_annotations s o' p a) AnnotationServiceAccountID = s"
    "get (identity_annotations s o' p a) AnnotationProjectID = p"
    using identity_keys_distinct by (auto simp: get_identity_annotations)
  then show ?thesis by (simp only: read_identity_eq)
qed

lemma read_published_identity:
  "read_identity (publish_identity i a) = \<lparr>id_OrganisationID = TrimSpace (id_OrganisationID i),
     id_ServiceAccountID = TrimSpace (id_ServiceAccountID i), id_ProjectID = TrimSpace (id_ProjectID i)\<rparr>"
  by (simp only: publish_identity_def read_identity_annotations)

lemma read_withdrawn_identity: "read_identity (withdraw_identity a) =
    \<lparr>id_OrganisationID = [], id_ServiceAccountID = [], id_ProjectID = []\<rparr>"
proof -
  have "get (withdraw_identity a) k = []" if "k \<in> set identity_keys" for k
    using that by (simp add: withdraw_identity_def clear_loop_get)
  then have "get (withdraw_identity a) AnnotationOrganisationID = []"
    "get (withdraw_identity a) AnnotationServiceAccountID = []"
    "get (withdraw_identity a) AnnotationProjectID = []"
    by (simp_all add: identity_keys_def)
  moreover have "TrimSpace [] = []" by code_simp
  ultimately show ?thesis by (simp only: read_identity_eq)
qed

interpretation sa_annotations: identity_channel publish_identity withdraw_identity read_identity
    no_identity trimmed_identity
proof
  show "read_identity (publish_identity i x) = i" if "trimmed_identity i" for i x
    using that by (cases i) (simp only: read_published_identity trimmed_identity_def identity_sel)
  show "read_identity (withdraw_identity x) = no_identity" for x
    by (simp only: read_withdrawn_identity no_identity_def)
  show "publish_identity i (publish_identity j x) = publish_identity i x" for i j x
    by (simp add: publish_identity_def identity_annotations_again)
qed

lemma withdrawn_incomplete: "\<not> Complete no_identity"
  by (simp add: Complete_def no_identity_def)

end
