(* ===== verification/FakeLift.thy ===== *)
theory FakeLift
  imports FakeKube
begin

text \<open>
  Running the IAM operations on the concrete cluster of \<^theory_text>\<open>FakeKube\<close>: a program over the IAM
  client does on the whole world what it does on the IAM part of it, so a run known for the
  in-memory API carries over to a reconciliation.
\<close>

section \<open>Programs on a part of the world\<close>

text \<open>\<open>lifts m m'\<close>: \<open>m'\<close> is \<open>m\<close>, run on the IAM part of the world.\<close>

definition lifts :: "('a, fakeIAM) prog \<Rightarrow> ('a, world) prog \<Rightarrow> bool" where
  "lifts m m' \<longleftrightarrow> (\<forall>w. m' w = (fst (m (w_iam w)), w\<lparr>w_iam := snd (m (w_iam w))\<rparr>))"

named_theorems lift_intros \<open>rules for programs on the IAM part of the world\<close>

lemma lifts_basic [lift_intros]:
  "lifts (okE x) (okE x)" "lifts (failE e) (failE e)" "lifts panicE panicE"
  "lifts (checkE r) (checkE r)" "lifts (derefE p) (derefE p)"
  by (auto simp: lifts_def okE_def failE_def panicE_def checkE_def derefE_def split: option.split)

lemma lifts_call [lift_intros]: "lifts (call f) (call (on_iam f))"
  by (auto simp: lifts_def call_def on_iam_def split: prod.splits sum.splits)

lemma lifts_bindE [lift_intros]:
  assumes "lifts m m'" and "\<And>x. lifts (k x) (k' x)"
  shows "lifts (bindE m k) (bindE m' k')"
  using assms by (auto simp: lifts_def bindE_def split: prod.splits result.splits)

lemma lifts_tryE [lift_intros]:
  assumes "lifts m m'" and "\<And>r. lifts (h r) (h' r)"
  shows "lifts (tryE m h) (tryE m' h')"
  using assms by (auto simp: lifts_def tryE_def split: prod.splits result.splits)

lemma lifts_wrapE [lift_intros]: "lifts m m' \<Longrightarrow> lifts (wrapE t m) (wrapE t m')"
  unfolding wrapE_def by (rule lifts_tryE) (auto intro: lift_intros split: sum.split)

lemma lift_iam_sel [simp]:
  "ic_consts (lift_iam c) = ic_consts c"
  "ListFederatedIdentityProviders (lift_iam c) l = on_iam (ListFederatedIdentityProviders c l)"
  "ListServiceAccounts (lift_iam c) l = on_iam (ListServiceAccounts c l)"
  "CreateServiceAccount (lift_iam c) q1 = on_iam (CreateServiceAccount c q1)"
  "DeleteServiceAccount (lift_iam c) i = on_iam (DeleteServiceAccount c i)"
  "ListFederatedIdentities (lift_iam c) l = on_iam (ListFederatedIdentities c l)"
  "CreateFederatedIdentity (lift_iam c) q2 = on_iam (CreateFederatedIdentity c q2)"
  "UpdateFederatedIdentity (lift_iam c) i q3 = on_iam (UpdateFederatedIdentity c i q3)"
  "DeleteFederatedIdentity (lift_iam c) i = on_iam (DeleteFederatedIdentity c i)"
  "GetOrganisationRole (lift_iam c) i = on_iam (GetOrganisationRole c i)"
  "ListOrganisationRoles (lift_iam c) = on_iam (ListOrganisationRoles c)"
  "ListRoleBindings (lift_iam c) i = on_iam (ListRoleBindings c i)"
  "CreateRoleBinding (lift_iam c) i q4 = on_iam (CreateRoleBinding c i q4)"
  "DeleteRoleBinding (lift_iam c) i j = on_iam (DeleteRoleBinding c i j)"
  "ListIamPolicies (lift_iam c) = on_iam (ListIamPolicies c)"
  "GetIamPolicy (lift_iam c) i = on_iam (GetIamPolicy c i)"
  "ListIamPolicyBindings (lift_iam c) i = on_iam (ListIamPolicyBindings c i)"
  "CreateIamPolicyBinding (lift_iam c) i q5 = on_iam (CreateIamPolicyBinding c i q5)"
  "DeleteIamPolicyBinding (lift_iam c) i j = on_iam (DeleteIamPolicyBinding c i j)"
  by (simp_all add: lift_iam_def)

lemma lifts_finds [lift_intros]:
  "lifts (FindProviderByClusterID c cl) (FindProviderByClusterID (lift_iam c) cl)"
  "lifts (findByLabelsSA c l) (findByLabelsSA (lift_iam c) l)"
  "lifts (findByLabelsFI c l) (findByLabelsFI (lift_iam c) l)"
  "lifts (resolveOrganisationRole c ref) (resolveOrganisationRole (lift_iam c) ref)"
  "lifts (resolveIamPolicy c ref) (resolveIamPolicy (lift_iam c) ref)"
  "lifts (hasRoleBindingForSA c i s) (hasRoleBindingForSA (lift_iam c) i s)"
  "lifts (hasPolicyBindingForSA c i s) (hasPolicyBindingForSA (lift_iam c) i s)"
  unfolding FindProviderByClusterID_def findByLabelsSA_def findByLabelsFI_def
    resolveOrganisationRole_def resolveIamPolicy_def hasRoleBindingForSA_def hasPolicyBindingForSA_def
    lift_iam_sel Let_def
  by (auto intro!: lift_intros split: list.splits option.splits sum.splits prod.splits)

lemma lifts_ensure [lift_intros]:
  "lifts (ensureServiceAccount c n sub ns s l) (ensureServiceAccount (lift_iam c) n sub ns s l)"
  "lifts (ensureFederatedIdentity c p sa fn sub sc au l) (ensureFederatedIdentity (lift_iam c) p sa fn sub sc au l)"
  "lifts (ensureRoleBinding c r sa' k l) (ensureRoleBinding (lift_iam c) r sa' k l)"
  "lifts (ensurePolicyBinding c po sa' k l) (ensurePolicyBinding (lift_iam c) po sa' k l)"
  unfolding ensureServiceAccount_def ensureFederatedIdentity_def ensureRoleBinding_def
    ensurePolicyBinding_def lift_iam_sel Let_def
  by (auto intro!: lift_intros split: option.splits)

lemma lifts_Ensure: "lifts (EnsureWorkloadIdentity c inp) (EnsureWorkloadIdentity (lift_iam c) inp)"
  unfolding EnsureWorkloadIdentity_def ensurePolicyStep_def ensureRoleStep_def Let_def
  by (auto intro!: lift_intros split: option.splits sum.splits)

lemma lift_run: "m w0 = (r, v) \<Longrightarrow> lifts m m' \<Longrightarrow> w_iam w = w0 \<Longrightarrow> m' w = (r, w\<lparr>w_iam := v\<rparr>)"
  by (simp add: lifts_def)

end
