(* ===== verification/EnsureProps.thy ===== *)
theory EnsureProps
  imports FakeIam
begin

text \<open>
  The properties of \<^verbatim>\<open>internal/wif/ensure.go\<close>. Those about a store are stated over any client
  that satisfies the interfaces of \<^theory_text>\<open>IamApi\<close>, with their assumptions written out; their
  witnesses run the code's model on the in-memory API of \<^theory_text>\<open>FakeIam\<close>.
\<close>

section \<open>A concrete run\<close>

definition demo_consts :: iam_consts where
  "demo_consts = \<lparr>
     AccessCredentialsScopeAPIRead = ''api:read'', AccessCredentialsScopeAPIWrite = ''api:write'',
     AccessCredentialsScopeKubernetes = ''kubernetes'',
     AccessCredentialsScopeObjectStorage = ''objectstorage'', AudienceMatchModeAny = ''any''\<rparr>"

abbreviation "demo_client \<equiv> fake_client demo_consts"

definition demo_provider :: FederatedIdentityProvider where
  "demo_provider = \<lparr>idp_Identity = ''idp-1'', idp_ProviderIssuer = ''https://oidc.example'',
     idp_Labels = fmap_of_list [(LabelKubernetesClusterID, ''k8s-1'')]\<rparr>"

definition demo_policy :: IamPolicy where
  "demo_policy = \<lparr>policy_Identity = ''pol-1'', policy_Slug = ''obs-write'', policy_Name = ''Obs Write''\<rparr>"

definition demo_role :: OrganisationRole where
  "demo_role = \<lparr>role_Identity = ''role-1'', role_Slug = ''reader'', role_Name = ''Reader''\<rparr>"

definition demo_iam :: fakeIAM where
  "demo_iam = \<lparr>providers = [demo_provider], sas = [], fis = [], roles = [demo_role],
     bindings = (\<lambda>_. []), policies = [demo_policy], pBindings = (\<lambda>_. []),
     createSACalls = 0, createFICalls = 0, updateFICalls = 0, createRBCalls = 0,
     createPBCalls = 0, deleteSACalls = 0, deleteFICalls = 0\<rparr>"

definition demo_input :: EnsureInput where
  "demo_input = \<lparr>in_Namespace = ''ns'', in_ServiceAccount = ''app'', in_RoleRef = ''reader'',
     in_PolicyRef = ''obs-write'', in_NameOverride = [], in_Scopes = [''api:read''],
     in_TrustedAudiences = [''https://api.thalassa.cloud''], in_ClusterIdentity = ''k8s-1'',
     in_AllowedPolicies = [''pol-1''], in_AllowedRoles = []\<rparr>"

lemma demo_trim:
  "TrimSpace ''ns'' = ''ns''" "TrimSpace ''app'' = ''app''" "TrimSpace ''reader'' = ''reader''"
  "TrimSpace ''obs-write'' = ''obs-write''" "TrimSpace ''k8s-1'' = ''k8s-1''"
  "TrimSpace ''pol-1'' = ''pol-1''"
  "TrimSpace ''https://oidc.example'' = ''https://oidc.example''"
  by code_simp+

lemma demo_valid: "validateEnsureInput demo_input = None"
  by (simp add: demo_input_def validateEnsureInput_def demo_trim)

lemma demo_fold:
  "EqualFold ''pol-1'' ''obs-write'' = False" "EqualFold ''obs-write'' ''obs-write'' = True"
  "EqualFold ''role-1'' ''reader'' = False" "EqualFold ''reader'' ''reader'' = True"
  "EqualFold ''Obs Write'' ''obs-write'' = False"
  by code_simp+

lemmas run_defs = bindE_def tryE_def call_def okE_def failE_def checkE_def derefE_def wrapE_def

lemma demo_find: "FindProviderByClusterID demo_client ''k8s-1'' demo_iam = (Ok demo_provider, demo_iam)"
  by (simp add: FindProviderByClusterID_def demo_trim demo_iam_def demo_provider_def run_defs Let_def)

definition demo_subject :: string where
  "demo_subject = ''system:serviceaccount:ns:app''"

definition demo_key :: string where
  "demo_key = ResourceKey ''ns'' ''app'' demo_subject ''https://oidc.example''"

lemma demo_facts:
  "BuildKubernetesSubject ''ns'' ''app'' = Inr demo_subject"
  "NormalizeIssuer ''https://oidc.example'' = ''https://oidc.example''"
   apply (simp add: BuildKubernetesSubject_def demo_trim demo_subject_def)
  apply code_simp
  done

definition demo_result :: EnsureResult where
  "demo_result = \<lparr>res_ProviderID = ''idp-1'', res_ServiceAccountID = ''sa-new'',
     res_FederatedIdentityID = ''fi-new'', res_PolicyID = ''pol-1'',
     res_Issuer = ''https://oidc.example'', res_Subject = demo_subject, res_Key = demo_key\<rparr>"

definition demo_after :: fakeIAM where
  "demo_after = snd (EnsureWorkloadIdentity demo_client demo_input demo_iam)"

lemma demo_fst: "fst (EnsureWorkloadIdentity demo_client demo_input demo_iam) = Ok demo_result"
  apply (simp add: EnsureWorkloadIdentity_def checkE_run bindE_run demo_valid)
  apply (simp add: demo_input_def bindE_run demo_find demo_facts demo_key_def [symmetric] Let_def
      demo_provider_def)
  apply (simp add: ensureServiceAccount_def findByLabelsSA_def demo_iam_def run_defs fake_ops Let_def)
  apply (simp add: ensureFederatedIdentity_def findByLabelsFI_def run_defs fake_ops Let_def)
  apply (simp add: ensurePolicyStep_def resolveIamPolicy_def CheckRefAllowlist_def RefAllowed_def
      run_defs fake_ops Let_def demo_trim demo_fold demo_policy_def ensurePolicyBinding_def
      hasPolicyBindingForSA_def)
  apply (simp add: ensureRoleStep_def resolveOrganisationRole_def CheckRefAllowlist_def run_defs
      fake_ops Let_def demo_trim demo_fold demo_role_def ensureRoleBinding_def
      hasRoleBindingForSA_def demo_result_def)
  done

lemma demo_run:
  "EnsureWorkloadIdentity demo_client demo_input demo_iam = (Ok demo_result, demo_after)"
  by (metis demo_fst demo_after_def prod.collapse)

lemma demo_store:
  "iam_store_up demo_client providers sas fis roles bindings policies pBindings"
  "iam_store demo_client providers sas fis roles bindings policies pBindings"
  "iam_store_del demo_client providers sas fis roles bindings policies pBindings"
  by (rule fk.iam_store_up_axioms fk.iam_store_axioms fk.iam_store_del_axioms)+

lemma demo_no_fis: "fis demo_iam = []"
  by (simp add: demo_iam_def)

section \<open>Ensuring\<close>

text \<open>
  C2: reconciling is idempotent. Against a store that keeps what it is told, when a run of
  \<^verbatim>\<open>EnsureWorkloadIdentity\<close> succeeds, running it again in the state it left returns the same
  result and changes nothing. The federated identities have distinct identities, and one that
  carries the labels was created for this subject.
\<close>

theorem ensure_idempotent:
  assumes "iam_store_up c vprov vsas vfis vroles vrbs vpols vpbs"
    and "EnsureWorkloadIdentity c inp w = (Ok r, w')"
    and "distinct (map fi_Identity (vfis w))"
    and "\<forall>f \<in> set (vfis w). LabelsMatch (fi_Labels f) (result_labels inp r) \<longrightarrow>
      fi_ProviderSubject f = res_Subject r"
  shows "EnsureWorkloadIdentity c inp w' = (Ok r, w')"
  using iam_store_up.ensure_fixpoint [OF assms(1)]
    iam_store.ensure_ok [OF iam_store_up.axioms(1) [OF assms(1)] assms(2-4)] .

theorem ensure_idempotent_witness:
  "EnsureWorkloadIdentity demo_client demo_input demo_after = (Ok demo_result, demo_after)"
  by (rule ensure_idempotent [OF demo_store(1) demo_run]) (simp_all add: demo_no_fis)



abbreviation "ensure_trace c inp w \<equiv> snd (snd (EnsureWorkloadIdentity (logged id c) inp (w, [])))"

text \<open>
  C7: whatever the API answers, ensuring never deletes anything, and everything it creates or
  updates carries the ownership labels of this workload; the federated identity it writes has
  the workload's subject, scopes and audiences, and a binding it creates names a service
  account.
\<close>

theorem ensure_writes_only_owned:
  "list_all (ensure_event inp) (ensure_trace c inp w)"
proof -
  obtain r w' es where run: "EnsureWorkloadIdentity (logged id c) inp (w, []) = (r, w', es)"
    by (metis prod_cases3)
  from tracedD [OF emits_EnsureWorkloadIdentity [unfolded emits_def] this] run show ?thesis
    by simp
qed

text \<open>
  C8: a binding is created only for a policy or role that the reference resolved to in this
  run and that the operator's allow list permits, by the reference as written or by the
  identity, slug or name of what it resolved to.
\<close>

theorem ensure_binds_only_allowed:
  "policies_allowed id inp (ensure_trace c inp w) \<and> roles_allowed id inp (ensure_trace c inp w)"
proof -
  obtain r w' es where run: "EnsureWorkloadIdentity (logged id c) inp (w, []) = (r, w', es)"
    by (metis prod_cases3)
  from tracedD [OF traced_Ensure_policies [OF inj_on_id] run]
    tracedD [OF traced_Ensure_roles [OF inj_on_id] run] run show ?thesis by simp
qed

text \<open>
  The provider lookup on every branch: a blank identity is an error, an API error is
  passed on, no provider with the cluster label is the typed not-ready error, several are an
  error, and exactly one is the result, whatever else the API lists.
\<close>

theorem provider_lookup:
  "FindProviderByClusterID c cluster w =
     (if TrimSpace cluster = [] then (Err (ErrMsg ''cluster identity is required''), w)
      else case ListFederatedIdentityProviders c
          (fmap_of_list [(LabelKubernetesClusterID, TrimSpace cluster)]) w of
        (Inl e, w') \<Rightarrow> (Err (ErrApi e), w')
      | (Inr ps, w') \<Rightarrow>
          (case filter (\<lambda>p. get (idp_Labels p) LabelKubernetesClusterID = TrimSpace cluster) ps of
             [] \<Rightarrow> (Err (ErrProviderNotReady (TrimSpace cluster)), w')
           | [p] \<Rightarrow> (Ok p, w')
           | _ \<Rightarrow> (Err (ErrMsg (''multiple federated identity providers match label '' @
                LabelKubernetesClusterID @ ''='' @ TrimSpace cluster)), w')))"
proof -
  obtain r v where run: "ListFederatedIdentityProviders c
      (fmap_of_list [(LabelKubernetesClusterID, TrimSpace cluster)]) w = (r, v)" by fastforce
  show ?thesis
  proof (cases "TrimSpace cluster = []")
    case True
    then show ?thesis by (simp add: FindProviderByClusterID_def prog_simps)
  next
    case False
    show ?thesis
    proof (cases r)
      case (Inl e)
      with False run show ?thesis by (simp add: FindProviderByClusterID_def Let_def prog_simps)
    next
      case (Inr ps)
      with FindProvider_run [OF False, of c w ps v] False run show ?thesis
        by (simp add: matching_providers_def)
    qed
  qed
qed

text \<open>
  Resolving a policy in a list prefers an identity match anywhere in the list over the
  first slug or name match, all ignoring case.
\<close>

theorem policy_identity_first:
  "policy_loop ref ps None =
     (case find (\<lambda>p. EqualFold (policy_Identity p) ref) ps of
        Some p \<Rightarrow> Some p
      | None \<Rightarrow> find (\<lambda>p. EqualFold (policy_Slug p) ref \<or> EqualFold (policy_Name p) ref) ps)"
  by (simp add: policy_loop_eq split: option.split)

text \<open>
  When the stored federated identity is left alone: its scopes and audiences are the
  requested ones up to order but with multiplicity, its name, description, labels and subject
  are the desired ones, and its match mode is unset or "any".
\<close>

theorem fi_left_alone:
  "(\<not> fiNeedsUpdate k f name desc subject scopes audiences labels) =
     (mset (fi_AllowedScopes f) = mset scopes \<and> mset (fi_TrustedAudiences f) = mset audiences \<and>
      fi_AudienceMatchMode f \<in> {[], AudienceMatchModeAny k} \<and> fi_Name f = name \<and>
      fi_Description f = desc \<and> LabelsMatch (fi_Labels f) labels \<and>
      get (fi_Annotations f) AnnotationProviderSubject = subject \<and> fi_ProviderSubject f = subject)"
  by (rule fiNeedsUpdate_False)

text \<open>
  C38: a federated identity that was registered for another subject never settles: an
  update cannot change the subject, so after a successful update the very comparison that
  caused it asks for the next one.
\<close>

theorem fi_wrong_subject_never_settles:
  assumes "iam_store c vprov vsas vfis vroles vrbs vpols vpbs"
    and "ensureFederatedIdentity c p sa name subject scopes audiences labels w = (Ok (Some f), w')"
    and "\<forall>g \<in> set (vfis w). fi_ProviderSubject g \<noteq> subject"
    and "\<exists>g \<in> set (vfis w). LabelsMatch (fi_Labels g) labels"
  shows "fiNeedsUpdate (ic_consts c) f name (fi_description subject) subject scopes audiences labels"
  using iam_store.fi_subject_kept [OF assms] by (simp add: fiNeedsUpdate_def)

definition demo_stale_fi :: FederatedIdentity where
  "demo_stale_fi = \<lparr>fi_Identity = ''fi-1'', fi_Name = ''app-fi'', fi_Description = [],
     fi_Labels = OwnershipLabels ''k'' ''ns'' ''app'', fi_Annotations = fmempty,
     fi_ProviderSubject = ''repo:old'', fi_TrustedAudiences = [''aud''], fi_AudienceMatchMode = [],
     fi_AllowedScopes = [''openid'']\<rparr>"

theorem fi_wrong_subject_never_settles_witness:
  "\<exists>f w'. ensureFederatedIdentity demo_client demo_provider None ''app-fi'' demo_subject [''openid'']
      [''aud''] (OwnershipLabels ''k'' ''ns'' ''app'') (demo_iam\<lparr>fis := [demo_stale_fi]\<rparr>) = (Ok (Some f), w') \<and>
    fiNeedsUpdate demo_consts f ''app-fi'' (fi_description demo_subject) demo_subject [''openid'']
      [''aud''] (OwnershipLabels ''k'' ''ns'' ''app'')"
proof -
  let ?w = "demo_iam\<lparr>fis := [demo_stale_fi]\<rparr>" and ?l = "OwnershipLabels ''k'' ''ns'' ''app''"
  let ?run = "ensureFederatedIdentity demo_client demo_provider None ''app-fi'' demo_subject [''openid'']
      [''aud''] ?l"
  have "\<exists>f w'. ?run ?w = (Ok (Some f), w')"
    by (simp add: ensureFederatedIdentity_def findByLabelsFI_def demo_iam_def demo_stale_fi_def run_defs
        fiNeedsUpdate_def fakeUpdateFederatedIdentity_def Let_def demo_subject_def)
  then obtain f w' where run: "?run ?w = (Ok (Some f), w')" by blast
  with fi_wrong_subject_never_settles [OF demo_store(2) run]
  have "fiNeedsUpdate demo_consts f ''app-fi'' (fi_description demo_subject) demo_subject [''openid'']
      [''aud''] ?l"
    by (simp add: demo_stale_fi_def demo_subject_def)
  with run show ?thesis by blast
qed

section \<open>Deleting\<close>



definition demo_labels :: smap where
  "demo_labels = OwnershipLabels demo_key ''ns'' ''app''"

definition demo_sa :: ServiceAccount where
  "demo_sa = \<lparr>sa_Identity = ''sa-1'', sa_Name = ''app'', sa_Labels = demo_labels, sa_Annotations = fmempty\<rparr>"

definition demo_other_sa :: ServiceAccount where
  "demo_other_sa = \<lparr>sa_Identity = ''sa-2'', sa_Name = ''other'', sa_Labels = fmempty, sa_Annotations = fmempty\<rparr>"

definition demo_owned :: fakeIAM where
  "demo_owned = demo_iam\<lparr>sas := [demo_other_sa, demo_sa],
     fis := [demo_stale_fi\<lparr>fi_Labels := demo_labels\<rparr>],
     pBindings := (\<lambda>_. [])(''pol-1'' := [\<lparr>b_Identity = ''pb-1'', b_Name = [], b_Labels = demo_labels,
       b_ServiceAccount = Some demo_sa\<rparr>])\<rparr>"

lemma demo_labels_other: "\<not> LabelsMatch fmempty demo_labels"
  by (simp add: demo_labels_def LabelsMatch_ownership ValueManagedBy_def)

lemma demo_labels_self: "LabelsMatch demo_labels demo_labels"
  by (simp add: demo_labels_def)

lemma demo_delete:
  "fst (DeleteWorkloadIdentity demo_client ''ns'' ''app'' ''https://oidc.example'' [] ''pol-1'' demo_owned) = Ok ()"
  apply (simp add: DeleteWorkloadIdentity_def demo_facts demo_key_def [symmetric]
      demo_labels_def [symmetric] Let_def)
  apply (simp add: findByLabelsFI_def findByLabelsSA_def demo_owned_def demo_iam_def demo_stale_fi_def
      demo_sa_def demo_other_sa_def demo_labels_other demo_labels_self run_defs fake_ops)
  apply (simp add: deletePolicyStep_def deleteRoleStep_def resolveIamPolicy_def demo_trim demo_policy_def
      deletePolicyBindingForSA_def binds_sa_def run_defs fake_ops Let_def)
  apply (simp add: demo_labels_def)?
  done


end
