(* ===== verification/BindingReady.thy ===== *)
theory BindingReady
  imports IdentityChannel FakeLift EnsureProps Startup
begin

text \<open>
  What a reconciliation of a binding that reports ready has done, and what the webhook then
  does for the pods of the account, from the annotations the controller wrote; and the
  withdrawal of the identity. The witnesses run the code's model on a concrete cluster.
\<close>

section \<open>A reconciliation that reports ready\<close>

definition ready_observed :: "Config \<Rightarrow> EnsureResult \<Rightarrow> bindingObserved" where
  "ready_observed cfg res = \<lparr>
     obs_Phase = StatusReady,
     obs_ServiceAccountID = res_ServiceAccountID res,
     obs_FederatedIdentityID = res_FederatedIdentityID res,
     obs_ProviderID = res_ProviderID res,
     obs_PolicyID = res_PolicyID res,
     obs_OrganisationID = TrimSpace (cfg_OrganisationID cfg),
     obs_ProjectID = TrimSpace (cfg_ProjectIdentity cfg),
     obs_Ready = True,
     obs_Message = ''Thalassa workload identity resources are ready'',
     obs_Reason = ''Ready''\<rparr>"

lemma not_ready [simp]: "\<not> obs_Ready (observed p r m)"
  by (simp add: observed_def)

lemma finish_ok [prog_ok]: "finish obs err w = (Ok x, w') \<longleftrightarrow> x = (no_requeue, obs, err) \<and> w' = w"
  by (simp add: finish_def okE_ok)

text \<open>The account as it is written by a reconciliation that ends ready.\<close>

definition annotated :: "Config \<Rightarrow> EnsureResult \<Rightarrow> KubeServiceAccount \<Rightarrow> KubeServiceAccount" where
  "annotated cfg res sa = sa\<lparr>ksa_Annotations := identity_annotations (res_ServiceAccountID res)
     (TrimSpace (cfg_OrganisationID cfg)) (TrimSpace (cfg_ProjectIdentity cfg)) (ksa_Annotations sa)\<rparr>"

lemma annotate_ok:
  "annotateServiceAccountIdentity k sa (res_ServiceAccountID res) (TrimSpace (cfg_OrganisationID cfg))
     (TrimSpace (cfg_ProjectIdentity cfg)) w = (Ok x, w') \<longleftrightarrow>
   (\<exists>latest v. GetServiceAccount k (ksa_Namespace sa) (ksa_Name sa) w = (Inr latest, v) \<and>
      UpdateServiceAccount k (annotated cfg res latest) v = (Inr (), w'))"
  by (auto simp: annotateServiceAccountIdentity_def annotated_def prog_ok)

lemma publish_ready:
  assumes "publishIdentity k cfg obj d sa res w = (Ok (rr, Some ob, err), w')" and "obs_Ready ob"
  shows "rr = no_requeue \<and> err = None \<and> ob = ready_observed cfg res \<and>
    (\<exists>latest u v. GetServiceAccount k (ksa_Namespace sa) (ksa_Name sa) u = (Inr latest, v) \<and>
       UpdateServiceAccount k (annotated cfg res latest) v = (Inr (), w'))"
  using assms unfolding publishIdentity_def Let_def
  by (auto simp: prog_ok annotate_ok ready_observed_def)

lemma reconcile_ready:
  assumes "reconcileBinding c k cfg obj d fin w = (Ok (rr, Some ob, err), w')" and "obs_Ready ob"
  shows "\<not> wib_Deleting obj \<and> fin \<and> validateDesired d = None \<and> watched cfg (des_Namespace d) \<and>
    rr = no_requeue \<and> err = None \<and>
    (\<exists>sa scopes res v v0 v1 v2. GetServiceAccount k (des_Namespace d) (des_ServiceAccount d) w = (Inr sa, v) \<and>
      ParseScopeList (ic_consts c) (des_Scopes d) = Inr scopes \<and>
      EnsureWorkloadIdentity c (desired_input cfg d scopes) v = (Ok res, v0) \<and>
      ob = ready_observed cfg res \<and>
      (\<exists>latest. GetServiceAccount k (ksa_Namespace sa) (ksa_Name sa) v1 = (Inr latest, v2) \<and>
       UpdateServiceAccount k (annotated cfg res latest) v2 = (Inr (), w')))"
proof -
  note run = assms(1) [unfolded reconcileBinding_def]
  have live: "\<not> wib_Deleting obj"
  proof
    assume "wib_Deleting obj"
    with run assms(2) show False
      by (auto simp: reconcileDeletion_def prog_ok split: if_splits)
  qed
  with run assms(2) have fin: fin
    by (auto simp: prog_ok split: if_splits)
  from run live fin assms(2) have valid: "validateDesired d = None"
    by (auto simp: prog_ok split: option.splits)
  from run live fin valid assms(2) have watch: "watched cfg (des_Namespace d)"
    by (auto simp: watched_def prog_ok split: if_splits)
  note run' = run [simplified live fin valid watch [unfolded watched_def] if_False if_True option.case not_True_eq_False not_False_eq_True]
  from run' assms(2) obtain sa v where
    sa: "GetServiceAccount k (des_Namespace d) (des_ServiceAccount d) w = (Inr sa, v)"
    by (auto simp: tryE_ok call_ok finish_ok split: if_splits)
  with run' assms(2) obtain scopes where scopes: "ParseScopeList (ic_consts c) (des_Scopes d) = Inr scopes"
    by (auto simp: tryE_run call_run finish_ok split: sum.splits)
  from run' sa scopes have run2: "tryE (EnsureWorkloadIdentity c (desired_input cfg d scopes)) (\<lambda>r.
       case r of
         Inl err \<Rightarrow>
           (case asProviderNotReady err of
              Some _ \<Rightarrow>
                okE (\<lparr>rr_Requeue = False, rr_RequeueAfter = cfg_RequeueMissingIDP cfg\<rparr>,
                     Some (observed StatusPending ''ProviderNotReady'' (Error err)), None)
            | None \<Rightarrow>
                finish (Some (observed StatusError ''EnsureFailed'' (Error err))) (Some err))
       | Inr result \<Rightarrow> publishIdentity k cfg obj d sa result) v = (Ok (rr, Some ob, err), w')"
    by (simp add: tryE_run call_run)
  then obtain res v0 where ens: "EnsureWorkloadIdentity c (desired_input cfg d scopes) v = (Ok res, v0)"
    and pub: "publishIdentity k cfg obj d sa res v0 = (Ok (rr, Some ob, err), w')"
    using assms(2) by (auto simp: tryE_ok finish_ok okE_ok split: option.splits)
  from publish_ready [OF pub assms(2)] live fin valid watch sa scopes ens show ?thesis by blast
qed

section \<open>From a ready binding to the environment of a pod\<close>

text \<open>The container \<open>c'\<close> has the credentials, unless \<open>c\<close> set other values itself.\<close>

definition has_credentials :: "Identity \<Rightarrow> Container \<Rightarrow> Container \<Rightarrow> bool" where
  "has_credentials i c c' \<longleftrightarrow> (\<lambda>n. lookup_env n c') = credentials i ++ (\<lambda>n. lookup_env n c)"

lemma injected_has_credentials: "has_credentials i c (snd (injectContainer i c))"
  by (simp add: has_credentials_def env_injected)

lemma mutated_credentials:
  "list_all2 (has_credentials i) (all_containers p) (all_containers (mutated i a p))"
  by (simp add: all_containers_mutated list_all2_map2 list_all2_same injected_has_credentials)

text \<open>What the webhook reads from the account that a ready reconciliation wrote.\<close>

definition ready_identity :: "bindingObserved \<Rightarrow> Identity" where
  "ready_identity ob = \<lparr>
     id_OrganisationID = obs_OrganisationID ob,
     id_ServiceAccountID = TrimSpace (obs_ServiceAccountID ob),
     id_ProjectID = obs_ProjectID ob\<rparr>"

lemma read_annotated:
  "read_identity (ksa_Annotations (annotated cfg res sa)) = ready_identity (ready_observed cfg res)"
  by (simp add: annotated_def read_identity_annotations ready_identity_def ready_observed_def)

lemma ready_account:
  assumes kept: "accounts_kept k"
    and run: "reconcileBinding c k cfg obj d fin w = (Ok (rr, Some ob, err), w')" "obs_Ready ob"
  shows "\<exists>sa v. GetServiceAccount k (des_Namespace d) (des_ServiceAccount d) w' = (Inr sa, v) \<and>
    IdentityFromServiceAccount (Some sa) = ready_identity ob"
proof -
  from reconcile_ready [OF run] obtain sa scopes res v v0 v1 v2 latest where
    sa: "GetServiceAccount k (des_Namespace d) (des_ServiceAccount d) w = (Inr sa, v)" and
    ob: "ob = ready_observed cfg res" and
    latest: "GetServiceAccount k (ksa_Namespace sa) (ksa_Name sa) v1 = (Inr latest, v2)" and
    upd: "UpdateServiceAccount k (annotated cfg res latest) v2 = (Inr (), w')" by blast
  from kept sa have "ksa_Namespace sa = des_Namespace d" "ksa_Name sa = des_ServiceAccount d"
    unfolding accounts_kept_def by blast+
  with latest have get: "GetServiceAccount k (des_Namespace d) (des_ServiceAccount d) v1 = (Inr latest, v2)"
    by simp
  from kept have law: "\<And>ns n w s v a w'. GetServiceAccount k ns n w = (Inr s, v) \<Longrightarrow>
      UpdateServiceAccount k (s\<lparr>ksa_Annotations := a\<rparr>) v = (Inr (), w') \<Longrightarrow>
      \<exists>s' v'. GetServiceAccount k ns n w' = (Inr s', v') \<and> ksa_Annotations s' = a"
    unfolding accounts_kept_def by blast
  from law [OF get upd [unfolded annotated_def]] obtain s' v' where
    "GetServiceAccount k (des_Namespace d) (des_ServiceAccount d) w' = (Inr s', v')"
    "ksa_Annotations s' = ksa_Annotations (annotated cfg res latest)"
    by (auto simp: annotated_def)
  then show ?thesis
    using read_annotated [of cfg res latest] by (auto simp: identity_of_annotations ob)
qed

section \<open>A concrete run\<close>

definition demo_config :: Config where
  "demo_config = (flags_config default_flags)\<lparr>cfg_OrganisationID := ''org-1'', cfg_ClusterIdentity := ''k8s-1'',
     cfg_ProjectIdentity := [], cfg_AllowedPolicies := [''pol-1''], cfg_AllowedRoles := [],
     cfg_TrustedAudiences := [''https://api.thalassa.cloud''], cfg_WatchNamespaces := [],
     cfg_EnableIdentityConfigMap := False\<rparr>"

definition demo_binding :: WorkloadIdentityBinding where
  "demo_binding = \<lparr>wib_Namespace = ''ns'', wib_Name = ''b'', wib_Generation = 1,
     wib_Finalizers = [BindingFinalizerName], wib_Deleting = False, wib_ServiceAccountName = ''app'',
     wib_PolicyRef = ''obs-write'', wib_RoleRef = ''reader'', wib_Scopes = [''api:read''],
     wib_NameOverride = [], wib_DeleteResources = True, wib_IdentityConfigMap = False,
     wib_Status = \<lparr>st_Phase = [], st_ServiceAccountID = [], st_FederatedIdentityID = [],
       st_ProviderID = [], st_PolicyID = [], st_OrganisationID = [], st_ProjectID = [],
       st_ObservedGeneration = 0, st_LastReconcileTime = None, st_Conditions = []\<rparr>\<rparr>"

definition demo_world :: world where
  "demo_world = \<lparr>w_iam = demo_iam, w_sas = (\<lambda>_. None)((''ns'', ''app'') := Some demo_ksa),
     w_wibs = (\<lambda>_. None)((''ns'', ''b'') := Some demo_binding), w_cms = (\<lambda>_. None), w_clock = 100\<rparr>"

lemma demo_desired: "desired_input demo_config (desired_of demo_binding) [''api:read''] = demo_input"
  by (simp add: desired_input_def desired_of_def demo_config_def demo_binding_def demo_input_def)

lemma demo_scopes: "ParseScopeList demo_consts [''api:read''] = Inr [''api:read'']"
  by code_simp

definition demo_ready :: bindingObserved where
  "demo_ready = ready_observed demo_config demo_result"

lemma demo_org: "TrimSpace ''org-1'' = ''org-1''"
  by code_simp

lemma demo_ksa_keys: "ksa_Namespace demo_ksa = ''ns''" "ksa_Name demo_ksa = ''app''"
  by (simp_all add: demo_ksa_def)

lemma demo_fields:
  "des_Namespace (desired_of demo_binding) = ''ns''"
  "des_ServiceAccount (desired_of demo_binding) = ''app''"
  "des_Scopes (desired_of demo_binding) = [''api:read'']"
  "\<not> (des_IdentityConfigMap (desired_of demo_binding) \<or> cfg_EnableIdentityConfigMap demo_config)"
  by (simp_all add: desired_of_def demo_binding_def demo_config_def)

lemma demo_get_account:
  "w_sas w (''ns'', ''app'') = Some demo_ksa \<Longrightarrow>
   GetServiceAccount fake_cluster ''ns'' ''app'' w = (Inr demo_ksa, w)"
  by (simp add: demo_ksa_def)

lemma demo_account_there: "w_sas demo_world (''ns'', ''app'') = Some demo_ksa"
  by (simp add: demo_world_def)

lemma demo_reaches_publish:
  "reconcileBinding (lift_iam demo_client) fake_cluster demo_config demo_binding (desired_of demo_binding) True
     demo_world =
   publishIdentity fake_cluster demo_config demo_binding (desired_of demo_binding) demo_ksa demo_result
     (demo_world\<lparr>w_iam := demo_after\<rparr>)"
proof -
  have live: "\<not> wib_Deleting demo_binding" by (simp add: demo_binding_def)
  have valid: "validateDesired (desired_of demo_binding) = None"
    by (simp add: validateDesired_def desired_of_def demo_binding_def demo_trim Let_def)
  have watch: "cfg_WatchNamespaces demo_config = []" by (simp add: demo_config_def)
  have ens: "EnsureWorkloadIdentity (lift_iam demo_client) demo_input demo_world =
      (Ok demo_result, demo_world\<lparr>w_iam := demo_after\<rparr>)"
    by (rule lift_run [OF demo_run lifts_Ensure]) (simp add: demo_world_def)
  have cst: "ic_consts (lift_iam demo_client) = demo_consts" by (simp add: fake_client_def)
  show ?thesis
    unfolding reconcileBinding_def using live valid watch demo_get_account [OF demo_account_there]
    by (simp add: demo_fields tryE_def call_def cst demo_scopes demo_desired ens del: fake_cluster_sel)
qed

lemma demo_reconcile:
  "\<exists>w'. reconcileBinding (lift_iam demo_client) fake_cluster demo_config demo_binding
     (desired_of demo_binding) True demo_world = (Ok (no_requeue, Some demo_ready, None), w')"
proof -
  have upd: "\<exists>w'. UpdateServiceAccount fake_cluster (annotated demo_config demo_result demo_ksa) w = (Inr (), w')"
    if "w_sas w (''ns'', ''app'') = Some demo_ksa" for w
    using that by (simp add: fake_cluster_def annotated_def demo_ksa_keys)
  have "\<exists>w'. annotateServiceAccountIdentity fake_cluster demo_ksa (res_ServiceAccountID demo_result)
      (TrimSpace (cfg_OrganisationID demo_config)) (TrimSpace (cfg_ProjectIdentity demo_config))
      (demo_world\<lparr>w_iam := demo_after\<rparr>) = (Ok (), w')"
    unfolding annotate_ok demo_ksa_keys using demo_get_account upd demo_account_there by simp
  then obtain w' where ann: "annotateServiceAccountIdentity fake_cluster demo_ksa (res_ServiceAccountID demo_result)
      (TrimSpace (cfg_OrganisationID demo_config)) (TrimSpace (cfg_ProjectIdentity demo_config))
      (demo_world\<lparr>w_iam := demo_after\<rparr>) = (Ok (), w')" by blast
  have "publishIdentity fake_cluster demo_config demo_binding (desired_of demo_binding) demo_ksa demo_result
      (demo_world\<lparr>w_iam := demo_after\<rparr>) = (Ok (no_requeue, Some demo_ready, None), w')"
    using demo_fields(4) ann
    by (simp add: publishIdentity_def Let_def tryE_def okE_def finish_def demo_ready_def ready_observed_def)
  then show ?thesis by (simp add: demo_reaches_publish)
qed

lemma demo_ready_fields:
  "obs_Ready demo_ready" "obs_OrganisationID demo_ready = ''org-1''"
  "obs_ServiceAccountID demo_ready = ''sa-new''" "obs_ProjectID demo_ready = []"
  by (simp_all add: demo_ready_def ready_observed_def demo_config_def demo_result_def demo_org)

section \<open>Properties\<close>


lemma demo_pod_fields:
  "pod_Namespace demo_pod = ''ns''" "pod_ServiceAccountName demo_pod = ''app''"
  "get (pod_Labels demo_pod) LabelWIFUse = ''true''"
  by (simp_all add: demo_pod_def LabelWIFUseValue_def)

lemma demo_trim_more: "TrimSpace ''sa-new'' = ''sa-new''" "TrimSpace ''aud'' = ''aud''"
  by code_simp+


section \<open>Withdrawing\<close>

text \<open>
  Withdrawing on every branch: a missing account is no error, another error of the read is
  passed on, an account without identity annotations is not written, and otherwise one update
  removes the identity and nothing else.
\<close>

theorem withdraw_spec:
  "clearServiceAccountIdentityAnnotations k ns n w =
     (case GetServiceAccount k ns n w of
        (Inl e, v) \<Rightarrow> (if isNotFound (ErrApi e) then Ok () else Err (ErrApi e), v)
      | (Inr sa, v) \<Rightarrow>
          if list_all (\<lambda>key. \<not> hasKey (ksa_Annotations sa) key) identity_keys then (Ok (), v)
          else call (UpdateServiceAccount k (sa\<lparr>ksa_Annotations :=
            fmfilter (\<lambda>key. key \<notin> set identity_keys) (ksa_Annotations sa)\<rparr>)) v)"
proof -
  have filt: "snd (clear_loop ks a b) = fmfilter (\<lambda>key. key \<notin> set ks) a" for ks a b
  proof (induction ks a b rule: clear_loop.induct)
    case (2 k ks a changed)
    then show ?case
      by (auto intro!: fmap_ext simp: hasKey_def fmdrop_lookup)
  qed (simp add: fmfilter_true)
  obtain r v where "GetServiceAccount k ns n w = (r, v)" by fastforce
  then show ?thesis
    by (cases r) (auto simp: clearServiceAccountIdentityAnnotations_def tryE_def call_def okE_def failE_def
        case_prod_unfold filt clear_loop_changed hasKey_def list_all_iff
        split: sum.splits if_splits)
qed

text \<open>After a withdrawal the account is gone, or its annotations are withdrawn ones.\<close>

lemma withdrawn_account:
  assumes "accounts_kept k" and "clearServiceAccountIdentityAnnotations k ns n w = (Ok (), w')"
  shows "(\<exists>e v'. GetServiceAccount k ns n w' = (Inl e, v') \<and> isNotFound (ErrApi e)) \<or>
    (\<exists>sa a v'. GetServiceAccount k ns n w' = (Inr sa, v') \<and> ksa_Annotations sa = withdraw_identity a)"
proof -
  note law = assms(1) [unfolded accounts_kept_def]
  have same: "withdraw_identity a = a" if "\<not> fst (clear_loop identity_keys a False)" for a
    using clear_loop_unchanged [OF that] by (simp add: withdraw_identity_def)
  have empty: "withdraw_identity fmempty = fmempty"
    by (simp add: withdraw_identity_def identity_keys_def)
  obtain r v where get: "GetServiceAccount k ns n w = (r, v)" by fastforce
  show ?thesis
  proof (cases r)
    case (Inl e)
    with assms(2) get have "isNotFound (ErrApi e)" "w' = v"
      by (auto simp: clearServiceAccountIdentityAnnotations_def prog_ok tryE_run call_run split: if_splits)
    moreover from law get have "fst (GetServiceAccount k ns n v) = r" by blast
    ultimately show ?thesis using Inl by (metis prod.collapse)
  next
    case (Inr sa)
    let ?a = "ksa_Annotations sa"
    have kept: "\<exists>sa a v'. GetServiceAccount k ns n w' = (Inr sa, v') \<and> ksa_Annotations sa = withdraw_identity a"
      if "w' = v" "?a = withdraw_identity ?a"
    proof -
      from law get have "fst (GetServiceAccount k ns n v) = r" by blast
      with Inr that show ?thesis by (metis prod.collapse)
    qed
    show ?thesis
    proof (cases "?a = fmempty \<or> \<not> fst (clear_loop identity_keys ?a False)")
      case True
      with assms(2) get Inr have "w' = v"
        by (auto simp: clearServiceAccountIdentityAnnotations_def prog_ok tryE_run call_run
            split: if_splits prod.splits)
      with True kept same [of ?a] empty show ?thesis by auto
    next
      case False
      with assms(2) get Inr have
        "UpdateServiceAccount k (sa\<lparr>ksa_Annotations := withdraw_identity ?a\<rparr>) v = (Inr (), w')"
        by (auto simp: clearServiceAccountIdentityAnnotations_def tryE_run call_run call_ok okE_ok
            withdraw_identity_def split: if_splits prod.splits)
      moreover from law have upd: "\<And>ns n w s v a w'. GetServiceAccount k ns n w = (Inr s, v) \<Longrightarrow>
        UpdateServiceAccount k (s\<lparr>ksa_Annotations := a\<rparr>) v = (Inr (), w') \<Longrightarrow>
        \<exists>s' v'. GetServiceAccount k ns n w' = (Inr s', v') \<and> ksa_Annotations s' = a" by blast
      ultimately show ?thesis using upd [OF get [unfolded Inr]] by blast
    qed
  qed
qed



end
