(* ===== verification/BindingStatus.thy ===== *)
theory BindingStatus
  imports BindingReady
begin

text \<open>
  The status of a binding: conditions, what an update keeps and replaces, and the invariant of
  every status that reconciliations can produce, whatever the cluster and the IAM API do.
\<close>

section \<open>Conditions\<close>

text \<open>The condition of a type: the first entry, as the API reads it.\<close>

definition cond_of :: "Condition list \<Rightarrow> string \<Rightarrow> Condition option" where
  "cond_of cs t = find (\<lambda>c. cond_Type c = t) cs"

lemma setCondition_types:
  "map cond_Type (setCondition cs neu) =
     (if cond_Type neu \<in> cond_Type ` set cs then map cond_Type cs else map cond_Type cs @ [cond_Type neu])"
  by (induction cs neu rule: setCondition.induct) auto

lemma setCondition_other:
  "t \<noteq> cond_Type neu \<Longrightarrow> cond_of (setCondition cs neu) t = cond_of cs t"
  by (induction cs neu rule: setCondition.induct) (auto simp: cond_of_def)

text \<open>The entry that replaces an old one.\<close>

definition merge_condition :: "Condition option \<Rightarrow> Condition \<Rightarrow> Condition" where
  "merge_condition old neu =
     (case old of
        None \<Rightarrow> neu
      | Some c \<Rightarrow>
          if cond_Status c = cond_Status neu
          then neu\<lparr>cond_LastTransitionTime := cond_LastTransitionTime c\<rparr> else neu)"

lemma setCondition_own:
  "cond_of (setCondition cs neu) (cond_Type neu) = Some (merge_condition (cond_of cs (cond_Type neu)) neu)"
proof (induction cs neu rule: setCondition.induct)
  case (2 c cs neu)
  then show ?case
    by (cases c; cases neu) (auto simp: cond_of_def merge_condition_def)
qed (simp add: cond_of_def merge_condition_def)

text \<open>
  One condition per type: setting a condition keeps the types distinct, changes no other
  condition, and leaves the new one with the old transition time exactly when the status did
  not change.
\<close>

theorem set_condition_spec:
  "cond_of (setCondition cs neu) t =
     (if t = cond_Type neu then Some (merge_condition (cond_of cs t) neu) else cond_of cs t) \<and>
   distinct (map cond_Type (setCondition cs neu)) = distinct (map cond_Type cs)"
  by (auto simp: setCondition_own setCondition_other setCondition_types)

definition status_ids :: "WorkloadIdentityBindingStatus \<Rightarrow> string list" where
  "status_ids st = [st_ServiceAccountID st, st_FederatedIdentityID st, st_ProviderID st,
     st_PolicyID st, st_OrganisationID st, st_ProjectID st]"

definition observed_ids :: "bindingObserved \<Rightarrow> string list" where
  "observed_ids obs = [obs_ServiceAccountID obs, obs_FederatedIdentityID obs, obs_ProviderID obs,
     obs_PolicyID obs, obs_OrganisationID obs, obs_ProjectID obs]"

text \<open>
  What a status update keeps: the resource identifiers of the last success survive an
  observation without a service account; otherwise all six are the observed ones. Phase,
  generation and time are always those of this reconciliation, and the Ready condition says
  whether it succeeded, with a message of at most 1024 bytes.
\<close>

lemma status_update:
  "let st = status_after latest obs now; ready = cond_of (st_Conditions st) ''Ready'' in
   status_ids st = (if obs_ServiceAccountID obs = [] then status_ids (wib_Status latest) else observed_ids obs) \<and>
   st_Phase st = obs_Phase obs \<and> st_ObservedGeneration st = wib_Generation latest \<and>
   st_LastReconcileTime st = Some now \<and>
   map_option cond_Status ready = Some (if obs_Ready obs then ''True'' else ''False'') \<and>
   map_option cond_Reason ready = Some (obs_Reason obs) \<and>
   map_option cond_Message ready = Some (take 1024 (obs_Message obs)) \<and>
   map_option cond_ObservedGeneration ready = Some (wib_Generation latest)"
proof -
  let ?neu = "\<lparr>cond_Type = ''Ready'', cond_Status = (if obs_Ready obs then ''True'' else ''False''),
      cond_Reason = obs_Reason obs, cond_Message = truncate_to 1024 (obs_Message obs),
      cond_ObservedGeneration = wib_Generation latest, cond_LastTransitionTime = now\<rparr>"
  have ready: "cond_of (setReadyCondition cs (Some obs) (wib_Generation latest) now) ''Ready'' =
      Some (merge_condition (cond_of cs ''Ready'') ?neu)" for cs
    using setCondition_own [of cs ?neu] by (simp add: setReadyCondition_def)
  show ?thesis
    by (simp add: Let_def status_after_def ready status_ids_def observed_ids_def merge_condition_def
        truncate_to_def
        split: option.split)
qed

section \<open>The status over time\<close>

lemma reconcile_phase:
  assumes "reconcileBinding c k cfg obj d fin w = (Ok (rr, Some ob, err), w')"
  shows "obs_Phase ob = StatusReady \<longleftrightarrow> obs_Ready ob"
    and "\<not> obs_Ready ob \<Longrightarrow> obs_ServiceAccountID ob = []"
proof -
  have "(obs_Phase ob = StatusReady \<longleftrightarrow> obs_Ready ob) \<and> (\<not> obs_Ready ob \<longrightarrow> obs_ServiceAccountID ob = [])"
    using assms unfolding reconcileBinding_def reconcileDeletion_def publishIdentity_def Let_def
    by (auto simp: prog_ok observed_def StatusReady_def StatusError_def StatusPending_def
        split: if_splits option.splits sum.splits)
  then show "obs_Phase ob = StatusReady \<longleftrightarrow> obs_Ready ob"
    and "\<not> obs_Ready ob \<Longrightarrow> obs_ServiceAccountID ob = []" by auto
qed

definition empty_status :: WorkloadIdentityBindingStatus where
  "empty_status = \<lparr>st_Phase = [], st_ServiceAccountID = [], st_FederatedIdentityID = [],
     st_ProviderID = [], st_PolicyID = [], st_OrganisationID = [], st_ProjectID = [],
     st_ObservedGeneration = 0, st_LastReconcileTime = None, st_Conditions = []\<rparr>"

text \<open>
  The statuses a binding can have: none yet, or what a reconciliation that ran against any
  cluster and any IAM API observed, written over the status before it at a time that is not
  earlier.
\<close>

inductive binding_status ::
    "'w iam_client \<Rightarrow> 'w kube_client \<Rightarrow> Config \<Rightarrow> WorkloadIdentityBindingStatus \<Rightarrow> bool"
  for c k cfg where
  new: "binding_status c k cfg empty_status"
| reconciled:
    "binding_status c k cfg (wib_Status latest) \<Longrightarrow>
     reconcileBinding c k cfg obj (desired_of obj) fin w = (Ok (rr, Some ob, err), w') \<Longrightarrow>
     (\<forall>t \<in> set_option (st_LastReconcileTime (wib_Status latest)). t \<le> now) \<Longrightarrow>
     binding_status c k cfg (status_after latest ob now)"

text \<open>What holds of every such status.\<close>

definition status_ok :: "Config \<Rightarrow> WorkloadIdentityBindingStatus \<Rightarrow> bool" where
  "status_ok cfg st \<longleftrightarrow>
     (case st_LastReconcileTime st of
        None \<Rightarrow> st = empty_status
      | Some t \<Rightarrow>
          (\<exists>cond. st_Conditions st = [cond] \<and> cond_Type cond = ''Ready'' \<and>
             cond_Status cond = (if st_Phase st = StatusReady then ''True'' else ''False'') \<and>
             cond_ObservedGeneration cond = st_ObservedGeneration st \<and>
             cond_LastTransitionTime cond \<le> t \<and> length (cond_Message cond) \<le> 1024)) \<and>
     (st_ServiceAccountID st \<noteq> [] \<longrightarrow>
        st_OrganisationID st = TrimSpace (cfg_OrganisationID cfg) \<and>
        st_ProjectID st = TrimSpace (cfg_ProjectIdentity cfg))"

lemma status_after_fields:
  "st_LastReconcileTime (status_after latest ob now) = Some now"
  "st_Phase (status_after latest ob now) = obs_Phase ob"
  "st_ObservedGeneration (status_after latest ob now) = wib_Generation latest"
  "st_ServiceAccountID (status_after latest ob now) =
     (if obs_ServiceAccountID ob = [] then st_ServiceAccountID (wib_Status latest) else obs_ServiceAccountID ob)"
  "st_OrganisationID (status_after latest ob now) =
     (if obs_ServiceAccountID ob = [] then st_OrganisationID (wib_Status latest) else obs_OrganisationID ob)"
  "st_ProjectID (status_after latest ob now) =
     (if obs_ServiceAccountID ob = [] then st_ProjectID (wib_Status latest) else obs_ProjectID ob)"
  "st_Conditions (status_after latest ob now) =
     setReadyCondition (st_Conditions (wib_Status latest)) (Some ob) (wib_Generation latest) now"
  by (simp_all add: status_after_def Let_def)

lemma status_ok_step:
  assumes old: "status_ok cfg (wib_Status latest)"
    and run: "reconcileBinding c k cfg obj d fin w = (Ok (rr, Some ob, err), w')"
    and now: "\<forall>t \<in> set_option (st_LastReconcileTime (wib_Status latest)). t \<le> now"
  shows "status_ok cfg (status_after latest ob now)"
proof -
  have ids: "obs_OrganisationID ob = TrimSpace (cfg_OrganisationID cfg) \<and>
      obs_ProjectID ob = TrimSpace (cfg_ProjectIdentity cfg)" if "obs_ServiceAccountID ob \<noteq> []"
  proof -
    from that reconcile_phase(2) [OF run] have "obs_Ready ob" by blast
    from reconcile_ready [OF run this] show ?thesis by (auto simp: ready_observed_def)
  qed
  have conds: "st_Conditions (wib_Status latest) = [] \<or>
      (\<exists>cond. st_Conditions (wib_Status latest) = [cond] \<and> cond_Type cond = ''Ready'' \<and>
         cond_LastTransitionTime cond \<le> now)"
    using old now by (auto simp: status_ok_def empty_status_def split: option.splits)
  show ?thesis
    using conds ids old reconcile_phase(1) [OF run]
    by (auto simp: status_ok_def status_after_fields setReadyCondition_def length_truncate_to)
qed

text \<open>
  C13: the invariant of the status over any history of reconciliations: there is exactly one
  Ready condition, it is true exactly in phase Ready and is about the recorded generation, its
  transition is not later than the last reconciliation, its message is bounded, and published
  identifiers always come with the organisation and project of the configuration.
\<close>

theorem binding_status_invariant:
  assumes "binding_status c k cfg st"
  shows "status_ok cfg st"
  using assms
proof induction
  case new
  then show ?case by (simp add: status_ok_def empty_status_def)
next
  case (reconciled latest obj fin w rr ob err w' now)
  then show ?case by (intro status_ok_step)
qed

theorem binding_status_invariant_witness:
  "status_ok demo_config (status_after demo_binding demo_ready 100)"
proof -
  obtain w' where run: "reconcileBinding (lift_iam demo_client) fake_cluster demo_config demo_binding
      (desired_of demo_binding) True demo_world = (Ok (no_requeue, Some demo_ready, None), w')"
    using demo_reconcile by blast
  have new: "binding_status (lift_iam demo_client) fake_cluster demo_config (wib_Status demo_binding)"
    using binding_status.new by (simp add: demo_binding_def empty_status_def)
  have "binding_status (lift_iam demo_client) fake_cluster demo_config (status_after demo_binding demo_ready 100)"
    by (rule binding_status.reconciled [OF new run]) (simp add: demo_binding_def)
  then show ?thesis by (rule binding_status_invariant)
qed

end
