(* ===== verification/ControllerProps.thy ===== *)
theory ControllerProps
  imports BindingStatus
begin

text \<open>
  The properties of the two reconcilers: what they delete and when, the finalizers, the
  absence of panics, and the events their own writes cause.
\<close>

section \<open>No panics\<close>

lemma total_finish [total_intros]: "total_prog (finish obs err)"
  unfolding finish_def by (rule total_intros)

lemma total_ignoreE [total_intros]: "total_prog m \<Longrightarrow> total_prog k \<Longrightarrow> total_prog (ignoreE m k)"
  unfolding ignoreE_def by (rule total_tryE)

lemma total_patches [total_intros]:
  "total_prog (patchStatus k sa st e res)" "total_prog (patchBindingStatus k b obs)"
  "total_prog (dropFinalizer k sa)" "total_prog (annotateServiceAccountIdentity k sa i o' p)"
  unfolding patchStatus_def patchBindingStatus_def dropFinalizer_def annotateServiceAccountIdentity_def
  by (auto intro!: total_intros split: sum.splits)

lemma total_clear [total_intros]: "total_prog (clearServiceAccountIdentityAnnotations k ns n)"
  unfolding clearServiceAccountIdentityAnnotations_def
  by (auto intro!: total_intros split: sum.splits prod.splits)

lemma total_sync [total_intros]: "total_prog (syncIdentityConfigMap k obj d i o' p)"
  unfolding syncIdentityConfigMap_def by (auto simp: Let_def intro!: total_intros)

lemma total_deleteCloud [total_intros]:
  "total_prog (deleteCloudResources c cfg d)" "total_prog (deleteCloudResourcesSA c cfg sa)"
  unfolding deleteCloudResources_def deleteCloudResourcesSA_def Let_def
  by (auto intro!: total_intros total_FindProvider total_DeleteWorkloadIdentity split: sum.splits option.splits)

lemma total_reconcileBinding:
  assumes "never_nil c"
  shows "total_prog (reconcileBinding c k cfg obj d fin)"
  unfolding reconcileBinding_def reconcileDeletion_def publishIdentity_def Let_def
  by (auto intro!: total_intros total_EnsureWorkloadIdentity assms split: sum.splits option.splits)

lemma total_ReconcileBinding:
  assumes "never_nil c"
  shows "total_prog (ReconcileBinding c k cfg ns n)"
  unfolding ReconcileBinding_def Let_def
  by (auto intro!: total_intros total_reconcileBinding assms split: sum.splits option.splits)

lemma total_ReconcileServiceAccount:
  assumes "never_nil c"
  shows "total_prog (ReconcileServiceAccount c k cfg ns n)"
  unfolding ReconcileServiceAccount_def releaseServiceAccount_def ensureAnnotated_def Let_def
  by (auto intro!: total_intros total_EnsureWorkloadIdentity assms split: sum.splits option.splits)

section \<open>Properties\<close>



abbreviation "binding_trace c k cfg ns n w \<equiv>
  snd (snd (ReconcileBinding (logged Iam c) (klogged k) cfg ns n (w, [])))"

abbreviation "account_trace c k cfg ns n w \<equiv>
  snd (snd (ReconcileServiceAccount (logged Iam c) (klogged k) cfg ns n (w, [])))"

lemma trace_of:
  assumes "traced m (\<lambda>_ es. Q es)"
  shows "Q (snd (snd (m (w, []))))"
proof -
  obtain r w' es where "m (w, []) = (r, w', es)" by (metis prod_cases3)
  from tracedD [OF assms this] this show ?thesis by simp
qed

text \<open>
  C12: a reconciliation of a binding deletes something in IAM only when the binding it read is
  being deleted, asks for the deletion of its resources and has the finalizer.
\<close>

theorem binding_deletes_only_on_request:
  "binding_deletes_requested k (binding_trace c k cfg ns n w)"
  by (rule trace_of [OF traced_ReconcileBinding_deletes])

text \<open>
  C15: the same for an annotated account: it is being deleted or no longer enabled, has the
  finalizer, and carries the delete-resources annotation.
\<close>

theorem account_deletes_only_on_request:
  "account_deletes_requested k (account_trace c k cfg ns n w)"
  by (rule trace_of [OF traced_ReconcileServiceAccount_deletes])





section \<open>The identity on the annotation path\<close>

lemma status_annotations_identity:
  "get (status_annotations a st e r now) AnnotationOrganisationID = get a AnnotationOrganisationID"
  "get (status_annotations a st e r now) AnnotationProjectID = get a AnnotationProjectID"
  by (auto simp: status_annotations_def Let_def annotation_keys split: option.split)

text \<open>
  Every update of an account is of one read before it, changed in its finalizers only or in the
  annotations of a status only, which leave organisation and project alone.
\<close>

definition status_only :: "KubeServiceAccount \<Rightarrow> KubeServiceAccount \<Rightarrow> bool" where
  "status_only s0 s \<longleftrightarrow>
     ((\<exists>fs. s = s0\<lparr>ksa_Finalizers := fs\<rparr>) \<or>
      (\<exists>st e r t. s = s0\<lparr>ksa_Annotations := status_annotations (ksa_Annotations s0) st e r t\<rparr>)) \<and>
     get (ksa_Annotations s) AnnotationOrganisationID = get (ksa_Annotations s0) AnnotationOrganisationID \<and>
     get (ksa_Annotations s) AnnotationProjectID = get (ksa_Annotations s0) AnnotationProjectID"

lemma status_onlyI:
  "status_only s0 (s0\<lparr>ksa_Finalizers := fs\<rparr>)"
  "status_only s0 (s0\<lparr>ksa_Annotations := status_annotations (ksa_Annotations s0) st e r t\<rparr>)"
  unfolding status_only_def by (simp, blast) (simp add: status_annotations_identity, blast)

fun update_rule :: "event list \<Rightarrow> event \<Rightarrow> bool" where
  "update_rule pre (Kube (EvUpdateSA s r)) \<longleftrightarrow>
     (\<exists>ns n s0. Kube (EvGetSA ns n (Inr s0)) \<in> set pre \<and> status_only s0 s)"
| "update_rule pre _ \<longleftrightarrow> True"

lemma traced_update_rule:
  assumes "Kube (EvGetSA ns n (Inr s0)) \<in> set pre" and "status_only s0 s"
  shows "traced (call (UpdateServiceAccount (klogged k) s)) (\<lambda>_ es. obeys update_rule pre es)"
proof -
  have "update_rule pre (Kube (EvUpdateSA s r))" for r
    unfolding update_rule.simps using assms by blast
  then show ?thesis
    unfolding klogged_sel by (intro traced_weaken [OF traced_logcall]) (auto simp del: update_rule.simps)
qed

lemma traced_patchStatus_update:
  "traced (patchStatus (klogged k) sa st e res) (\<lambda>_ es. obeys update_rule pre es)"
  unfolding patchStatus_def
proof (simp only: klogged_sel(1), rule traced_bindE [OF traced_logcall], goal_cases)
  case (1 s es)
  then have es: "es = [Kube (EvGetSA (ksa_Namespace sa) (ksa_Name sa) (Inr s))]" by auto
  show ?case
  proof (rule traced_bindE [OF emits_nowE [of "\<lambda>_. False", unfolded emits_def]], goal_cases)
    case (1 t es')
    then have "es' = []" by (cases es') auto
    have "traced (call (UpdateServiceAccount (klogged k) (s\<lparr>ksa_Annotations :=
        status_annotations (ksa_Annotations s) st e res (format_RFC3339 t)\<rparr>)))
      (\<lambda>_ es''. obeys update_rule (pre @ es) es'')"
      by (rule traced_update_rule [of "ksa_Namespace sa" "ksa_Name sa" s]) (auto simp: es intro: status_onlyI)
    with \<open>es' = []\<close> show ?case by (simp add: es del: klogged_sel)
  qed (auto simp: es obeys_none)
qed auto

lemma traced_finalizer_update:
  assumes "Kube (EvGetSA ns n (Inr s)) \<in> set pre"
  shows "traced (call (UpdateServiceAccount (klogged k) (s\<lparr>ksa_Finalizers := fs\<rparr>)))
    (\<lambda>_ es. obeys update_rule pre es)"
  by (rule traced_update_rule [OF assms status_onlyI(1)])

lemma traced_release_update:
  assumes "Kube (EvGetSA ns n (Inr s)) \<in> set pre"
  shows "traced (releaseServiceAccount (logged Iam c) (klogged k) cfg s) (\<lambda>_ es. obeys update_rule pre es)"
  unfolding releaseServiceAccount_def
proof (rule obeys_tryE [where P = "\<lambda>_. False" and J = update_rule], goal_cases)
  case 1
  show ?case by (cases "DeleteResources (ksa_Annotations s)") (auto intro!: emits_intros)
next
  case 2
  show ?case by (cases "DeleteResources (ksa_Annotations s)") (auto intro!: fast_emits emits_intros)
next
  case 3
  show ?case by (simp add: list_all_iff)
next
  case (4 u es)
  have "traced (call (UpdateServiceAccount (klogged k) (s\<lparr>ksa_Finalizers :=
      kc_RemoveFinalizer (klogged k) (ksa_Finalizers s) FinalizerName\<rparr>)))
    (\<lambda>_ es'. obeys update_rule (pre @ es) es')"
    by (rule traced_finalizer_update) (use assms in auto)
  then show ?case
    unfolding dropFinalizer_def by (simp del: klogged_sel) (rule traced_tryE, auto intro!: traced_okE)
next
  case (5 e pre')
  then show ?case by (auto intro!: obeys_ignoreE traced_patchStatus_update obeys_okE)
qed

lemma traced_ensureAnnotated_update:
  "traced (ensureAnnotated (logged Iam c) (klogged k) cfg s) (\<lambda>_ es. obeys update_rule pre es)"
proof -
  have ens: "traced (EnsureWorkloadIdentity (logged Iam c) inp) (\<lambda>_ es. obeys update_rule pre es)" for inp pre
    by (rule emits_obeys) (auto intro!: emits_Ensure)
  show ?thesis
    unfolding ensureAnnotated_def Let_def
    by (auto intro!: obeys_ignoreE obeys_tryE_any traced_patchStatus_update ens obeys_okE
        split: sum.splits option.splits)
qed

lemma traced_ReconcileServiceAccount_update:
  "traced (ReconcileServiceAccount (logged Iam c) (klogged k) cfg ns n) (\<lambda>_ es. obeys update_rule [] es)"
  unfolding ReconcileServiceAccount_def klogged_sel
proof (rule traced_tryE [OF traced_logcall], goal_cases)
  case (1 s es)
  let ?pre = "[Kube (EvGetSA ns n (Inr s))]"
  from 1 have es: "es = ?pre" by auto
  have add: "traced (tryE (call (UpdateServiceAccount (klogged k) (s\<lparr>ksa_Finalizers := fs\<rparr>)))
      (\<lambda>r. case r of Inl err \<Rightarrow> okE (no_requeue, Some err)
         | Inr _ \<Rightarrow> okE (\<lparr>rr_Requeue = True, rr_RequeueAfter = 0\<rparr>, None)))
    (\<lambda>_ es. obeys update_rule ?pre es)" for fs
    by (rule traced_tryE [OF traced_finalizer_update [of ns n]]) (auto intro!: traced_okE)
  show ?case
    unfolding es
    by (auto simp: Let_def obeys_okE traced_ensureAnnotated_update simp del: klogged_sel
        intro!: traced_release_update [of ns n] add [unfolded klogged_sel])
next
  case (2 e es)
  then show ?case by (auto intro!: traced_okE)
qed auto

text \<open>
  What the reconciler of annotated accounts may write: each update is of an account it read
  before, and changes only its finalizers, or only its status annotations in a way that leaves
  the organisation and project annotations alone, so the webhook finds an account complete
  only when someone else has annotated the organisation.
\<close>

theorem account_updates_keep_identity:
  "obeys update_rule [] (account_trace c k cfg ns n w)"
  by (rule trace_of [OF traced_ReconcileServiceAccount_update])

end
