(* ===== verification/DeepCopy.thy ===== *)
theory DeepCopy
  imports KubeApi "HOL-Library.Sublist"
begin

text \<open>
  \<^verbatim>\<open>api/v1beta1/zz_generated.deepcopy.go\<close> and the types of
  \<^verbatim>\<open>api/v1beta1/workloadidentitybinding_types.go\<close> as they lie in memory: structs with pointers
  and slices into a store. The rest of the development works with the values these objects
  represent; the theorems here are what makes that right: a deep copy represents the same value
  and shares no memory with the original.
\<close>

section \<open>Memory\<close>

text \<open>
  A cell of the store is a variable that something can point to: a time, the array of a slice, a
  struct made by \<^verbatim>\<open>new\<close>, or memory of another package (\<open>Foreign\<close>). Memory is allocated at the
  end and never freed. A slice is nil, or a part of an array.
\<close>

type_synonym addr = nat

datatype slice = NilSlice | Slice addr nat nat

record mem_status =
  ms_Phase :: string
  ms_ServiceAccountID :: string
  ms_FederatedIdentityID :: string
  ms_ProviderID :: string
  ms_PolicyID :: string
  ms_OrganisationID :: string
  ms_ProjectID :: string
  ms_ObservedGeneration :: int
  ms_LastReconcileTime :: "addr option"
  ms_Conditions :: slice

record 'm mem_binding =
  mb_TypeMeta :: "string \<times> string"
  mb_ObjectMeta :: 'm
  mb_ServiceAccountName :: string
  mb_PolicyRef :: string
  mb_RoleRef :: string
  mb_Scopes :: slice
  mb_NameOverride :: string
  mb_DeleteResources :: bool
  mb_IdentityConfigMap :: bool
  mb_Status :: mem_status

record 'l mem_list =
  ml_TypeMeta :: "string \<times> string"
  ml_ListMeta :: 'l
  ml_Items :: slice

datatype ('m, 'l, 'x) cell =
    Strings "string list"
  | Time int
  | Conditions "Condition list"
  | Bindings "'m mem_binding list"
  | BindingAt "'m mem_binding"
  | ListAt "'l mem_list"
  | StatusAt mem_status
  | Foreign 'x

type_synonym ('m, 'l, 'x) store = "('m, 'l, 'x) cell list"

definition alloc :: "('m, 'l, 'x) cell \<Rightarrow> ('m, 'l, 'x) store \<Rightarrow> addr \<times> ('m, 'l, 'x) store" where
  "alloc v h = (length h, h @ [v])"

definition load :: "('m, 'l, 'x) store \<Rightarrow> addr \<Rightarrow> ('m, 'l, 'x) cell option" where
  "load h a = (if a < length h then Some (h ! a) else None)"

text \<open>The contents of an array, when the address holds one of that type.\<close>

fun strings_of :: "('m, 'l, 'x) cell \<Rightarrow> string list option" where
  "strings_of (Strings xs) = Some xs"
| "strings_of _ = None"

fun time_of :: "('m, 'l, 'x) cell \<Rightarrow> int option" where
  "time_of (Time t) = Some t"
| "time_of _ = None"

fun conditions_of :: "('m, 'l, 'x) cell \<Rightarrow> Condition list option" where
  "conditions_of (Conditions xs) = Some xs"
| "conditions_of _ = None"

fun bindings_of :: "('m, 'l, 'x) cell \<Rightarrow> 'm mem_binding list option" where
  "bindings_of (Bindings xs) = Some xs"
| "bindings_of _ = None"

text \<open>The elements of a slice: \<open>s[0]\<close> to \<open>s[len(s)-1]\<close>.\<close>

fun elems :: "(('m, 'l, 'x) cell \<Rightarrow> 'a list option) \<Rightarrow> ('m, 'l, 'x) store \<Rightarrow> slice \<Rightarrow> 'a list option" where
  "elems of_cell h NilSlice = Some []"
| "elems of_cell h (Slice a off n) =
     Option.bind (load h a) (\<lambda>v. Option.bind (of_cell v) (\<lambda>xs.
       if off + n \<le> length xs then Some (take n (drop off xs)) else None))"

fun slice_refs :: "slice \<Rightarrow> addr set" where
  "slice_refs NilSlice = {}"
| "slice_refs (Slice a off n) = {a}"

section \<open>The generated functions\<close>

text \<open>
  The copying functions of \<^verbatim>\<open>k8s.io/apimachinery\<close>: those of the embedded metadata, of a time
  behind a pointer and of a condition; and the zero values of the metadata.
\<close>

record ('m, 'l, 'x) copiers =
  cp_ObjectMeta :: "'m \<Rightarrow> ('m, 'l, 'x) store \<Rightarrow> 'm \<times> ('m, 'l, 'x) store"
  cp_ListMeta :: "'l \<Rightarrow> ('m, 'l, 'x) store \<Rightarrow> 'l \<times> ('m, 'l, 'x) store"
  cp_Time :: "addr \<Rightarrow> ('m, 'l, 'x) store \<Rightarrow> addr \<times> ('m, 'l, 'x) store"
  cp_Condition :: "Condition \<Rightarrow> ('m, 'l, 'x) store \<Rightarrow> Condition \<times> ('m, 'l, 'x) store"
  cp_ObjectMeta0 :: 'm
  cp_ListMeta0 :: 'l

text \<open>
  \<^verbatim>\<open>in.DeepCopyInto(&out)\<close> takes the struct that \<^verbatim>\<open>in\<close> points to and returns the one it leaves
  in \<^verbatim>\<open>out\<close>. The two are different variables in every call of the program: \<^verbatim>\<open>out\<close> is new.
  Reading memory that does not hold what its type says cannot happen in Go; the result is
  \<^term>\<open>None\<close> there.

  \<^verbatim>\<open>for i := range *in { (*in)[i].DeepCopyInto(&(*out)[i]) }\<close> with \<open>out\<close> at the address \<open>a\<close>:
\<close>

fun copy_elems ::
    "('a list \<Rightarrow> ('m, 'l, 'x) cell) \<Rightarrow>
     ('a \<Rightarrow> ('m, 'l, 'x) store \<Rightarrow> ('a \<times> ('m, 'l, 'x) store) option) \<Rightarrow>
     addr \<Rightarrow> 'a list \<Rightarrow> nat \<Rightarrow> 'a list \<Rightarrow> ('m, 'l, 'x) store \<Rightarrow> ('m, 'l, 'x) store option" where
  "copy_elems mk f a [] i ys h = Some h"
| "copy_elems mk f a (x # xs) i ys h =
     Option.bind (f x h) (\<lambda>(y, h). copy_elems mk f a xs (Suc i) (ys[i := y]) (h[a := mk (ys[i := y])]))"

text \<open>A slice whose elements have a \<^verbatim>\<open>DeepCopyInto\<close> of their own.\<close>

definition copy_slice ::
    "('a list \<Rightarrow> ('m, 'l, 'x) cell) \<Rightarrow> (('m, 'l, 'x) cell \<Rightarrow> 'a list option) \<Rightarrow> 'a \<Rightarrow>
     ('a \<Rightarrow> ('m, 'l, 'x) store \<Rightarrow> ('a \<times> ('m, 'l, 'x) store) option) \<Rightarrow>
     slice \<Rightarrow> ('m, 'l, 'x) store \<Rightarrow> (slice \<times> ('m, 'l, 'x) store) option" where
  "copy_slice mk of_cell zero f s h =
     (if s = NilSlice then Some (NilSlice, h)
      else Option.bind (elems of_cell h s) (\<lambda>xs.
        let ys = replicate (length xs) zero in
        case alloc (mk ys) h of (a, h) \<Rightarrow>
          map_option (\<lambda>h. (Slice a 0 (length xs), h)) (copy_elems mk f a xs 0 ys h)))"

definition zero_condition :: Condition where
  "zero_condition = \<lparr>cond_Type = [], cond_Status = [], cond_Reason = [], cond_Message = [],
     cond_ObservedGeneration = 0, cond_LastTransitionTime = -62135596800\<rparr>"

definition zero_status :: mem_status where
  "zero_status = \<lparr>ms_Phase = [], ms_ServiceAccountID = [], ms_FederatedIdentityID = [],
     ms_ProviderID = [], ms_PolicyID = [], ms_OrganisationID = [], ms_ProjectID = [],
     ms_ObservedGeneration = 0, ms_LastReconcileTime = None, ms_Conditions = NilSlice\<rparr>"

definition zero_binding :: "('m, 'l, 'x) copiers \<Rightarrow> 'm mem_binding" where
  "zero_binding cp = \<lparr>mb_TypeMeta = ([], []), mb_ObjectMeta = cp_ObjectMeta0 cp,
     mb_ServiceAccountName = [], mb_PolicyRef = [], mb_RoleRef = [], mb_Scopes = NilSlice,
     mb_NameOverride = [], mb_DeleteResources = False, mb_IdentityConfigMap = False,
     mb_Status = zero_status\<rparr>"

definition copy_time ::
    "('m, 'l, 'x) copiers \<Rightarrow> addr option \<Rightarrow> ('m, 'l, 'x) store \<Rightarrow>
     (addr option \<times> ('m, 'l, 'x) store) option" where
  "copy_time cp p h =
     (case p of
        None \<Rightarrow> Some (None, h)
      | Some a \<Rightarrow> (case cp_Time cp a h of (b, h) \<Rightarrow> Some (Some b, h)))"

definition copy_conditions ::
    "('m, 'l, 'x) copiers \<Rightarrow> slice \<Rightarrow> ('m, 'l, 'x) store \<Rightarrow> (slice \<times> ('m, 'l, 'x) store) option" where
  "copy_conditions cp =
     copy_slice Conditions conditions_of zero_condition (\<lambda>x h. Some (cp_Condition cp x h))"

definition DeepCopyInto_Status ::
    "('m, 'l, 'x) copiers \<Rightarrow> mem_status \<Rightarrow> ('m, 'l, 'x) store \<Rightarrow>
     (mem_status \<times> ('m, 'l, 'x) store) option" where
  "DeepCopyInto_Status cp inp h =
     (let out = inp in
      Option.bind (copy_time cp (ms_LastReconcileTime inp) h) (\<lambda>(t, h).
        let out = out\<lparr>ms_LastReconcileTime := t\<rparr> in
        Option.bind (copy_conditions cp (ms_Conditions inp) h) (\<lambda>(s, h).
          let out = out\<lparr>ms_Conditions := s\<rparr> in
          Some (out, h))))"

text \<open>\<^verbatim>\<open>make([]string, len(*in))\<close> and \<^verbatim>\<open>copy(*out, *in)\<close>, which copies strings as values.\<close>

definition copy_strings ::
    "slice \<Rightarrow> ('m, 'l, 'x) store \<Rightarrow> (slice \<times> ('m, 'l, 'x) store) option" where
  "copy_strings s h =
     (if s = NilSlice then Some (NilSlice, h)
      else Option.bind (elems strings_of h s) (\<lambda>xs.
        case alloc (Strings (replicate (length xs) [])) h of (a, h) \<Rightarrow>
          Some (Slice a 0 (length xs), h[a := Strings xs])))"

definition DeepCopyInto_Binding ::
    "('m, 'l, 'x) copiers \<Rightarrow> 'm mem_binding \<Rightarrow> ('m, 'l, 'x) store \<Rightarrow>
     ('m mem_binding \<times> ('m, 'l, 'x) store) option" where
  "DeepCopyInto_Binding cp inp h =
     (let out = inp;
          out = out\<lparr>mb_TypeMeta := mb_TypeMeta inp\<rparr> in
      case cp_ObjectMeta cp (mb_ObjectMeta inp) h of (m, h) \<Rightarrow>
      let out = out\<lparr>mb_ObjectMeta := m\<rparr> in
      Option.bind (copy_strings (mb_Scopes inp) h) (\<lambda>(s, h).
        let out = out\<lparr>mb_Scopes := s\<rparr> in
        Option.bind (DeepCopyInto_Status cp (mb_Status inp) h) (\<lambda>(st, h).
          let out = out\<lparr>mb_Status := st\<rparr> in
          Some (out, h))))"

definition copy_items ::
    "('m, 'l, 'x) copiers \<Rightarrow> slice \<Rightarrow> ('m, 'l, 'x) store \<Rightarrow> (slice \<times> ('m, 'l, 'x) store) option" where
  "copy_items cp = copy_slice Bindings bindings_of (zero_binding cp) (DeepCopyInto_Binding cp)"

definition DeepCopyInto_List ::
    "('m, 'l, 'x) copiers \<Rightarrow> 'l mem_list \<Rightarrow> ('m, 'l, 'x) store \<Rightarrow>
     ('l mem_list \<times> ('m, 'l, 'x) store) option" where
  "DeepCopyInto_List cp inp h =
     (let out = inp;
          out = out\<lparr>ml_TypeMeta := ml_TypeMeta inp\<rparr> in
      case cp_ListMeta cp (ml_ListMeta inp) h of (m, h) \<Rightarrow>
      let out = out\<lparr>ml_ListMeta := m\<rparr> in
      Option.bind (copy_items cp (ml_Items inp) h) (\<lambda>(s, h).
        let out = out\<lparr>ml_Items := s\<rparr> in
        Some (out, h)))"


text \<open>
  \<^verbatim>\<open>DeepCopy\<close>: nil for nil, otherwise \<^verbatim>\<open>new\<close> and \<^verbatim>\<open>DeepCopyInto\<close>. \<^verbatim>\<open>DeepCopyObject\<close> makes an
  interface of the pointer, and a nil interface of a nil pointer.
\<close>

definition copy_new ::
    "('a \<Rightarrow> ('m, 'l, 'x) cell) \<Rightarrow> (('m, 'l, 'x) cell \<Rightarrow> 'a option) \<Rightarrow> 'a \<Rightarrow>
     ('a \<Rightarrow> ('m, 'l, 'x) store \<Rightarrow> ('a \<times> ('m, 'l, 'x) store) option) \<Rightarrow>
     addr option \<Rightarrow> ('m, 'l, 'x) store \<Rightarrow> (addr option \<times> ('m, 'l, 'x) store) option" where
  "copy_new mk of_cell zero f p h =
     (case p of
        None \<Rightarrow> Some (None, h)
      | Some a \<Rightarrow>
          Option.bind (Option.bind (load h a) of_cell) (\<lambda>inp.
          case alloc (mk zero) h of (b, h) \<Rightarrow>
          map_option (\<lambda>(out, h). (Some b, h[b := mk out])) (f inp h)))"

fun status_of :: "('m, 'l, 'x) cell \<Rightarrow> mem_status option" where
  "status_of (StatusAt x) = Some x"
| "status_of _ = None"

fun binding_of :: "('m, 'l, 'x) cell \<Rightarrow> 'm mem_binding option" where
  "binding_of (BindingAt x) = Some x"
| "binding_of _ = None"

fun list_of :: "('m, 'l, 'x) cell \<Rightarrow> 'l mem_list option" where
  "list_of (ListAt x) = Some x"
| "list_of _ = None"

definition DeepCopy_Status ::
    "('m, 'l, 'x) copiers \<Rightarrow> addr option \<Rightarrow> ('m, 'l, 'x) store \<Rightarrow>
     (addr option \<times> ('m, 'l, 'x) store) option" where
  "DeepCopy_Status cp = copy_new StatusAt status_of zero_status (DeepCopyInto_Status cp)"

definition DeepCopy_Binding ::
    "('m, 'l, 'x) copiers \<Rightarrow> addr option \<Rightarrow> ('m, 'l, 'x) store \<Rightarrow>
     (addr option \<times> ('m, 'l, 'x) store) option" where
  "DeepCopy_Binding cp = copy_new BindingAt binding_of (zero_binding cp) (DeepCopyInto_Binding cp)"

definition zero_list :: "('m, 'l, 'x) copiers \<Rightarrow> 'l mem_list" where
  "zero_list cp = \<lparr>ml_TypeMeta = ([], []), ml_ListMeta = cp_ListMeta0 cp, ml_Items = NilSlice\<rparr>"

definition DeepCopy_List ::
    "('m, 'l, 'x) copiers \<Rightarrow> addr option \<Rightarrow> ('m, 'l, 'x) store \<Rightarrow>
     (addr option \<times> ('m, 'l, 'x) store) option" where
  "DeepCopy_List cp = copy_new ListAt list_of (zero_list cp) (DeepCopyInto_List cp)"

datatype runtime_object = BindingObject addr | ListObject addr

definition DeepCopyObject_Binding ::
    "('m, 'l, 'x) copiers \<Rightarrow> addr option \<Rightarrow> ('m, 'l, 'x) store \<Rightarrow>
     (runtime_object option \<times> ('m, 'l, 'x) store) option" where
  "DeepCopyObject_Binding cp p h =
     map_option (\<lambda>(c, h). (case c of Some b \<Rightarrow> Some (BindingObject b) | None \<Rightarrow> None, h))
       (DeepCopy_Binding cp p h)"

definition DeepCopyObject_List ::
    "('m, 'l, 'x) copiers \<Rightarrow> addr option \<Rightarrow> ('m, 'l, 'x) store \<Rightarrow>
     (runtime_object option \<times> ('m, 'l, 'x) store) option" where
  "DeepCopyObject_List cp p h =
     map_option (\<lambda>(c, h). (case c of Some b \<Rightarrow> Some (ListObject b) | None \<Rightarrow> None, h))
       (DeepCopy_List cp p h)"

section \<open>What a deep copy is\<close>

text \<open>
  An object represents a value by the cells it refers to (\<open>refs\<close>). A deep copy represents the
  same value, only in new memory, and leaves the old memory as it was.
\<close>

locale deep_copy =
  fixes copy :: "'a \<Rightarrow> ('m, 'l, 'x) store \<Rightarrow> ('a \<times> ('m, 'l, 'x) store) option"
    and refs :: "('m, 'l, 'x) store \<Rightarrow> 'a \<Rightarrow> addr set"
    and val :: "('m, 'l, 'x) store \<Rightarrow> 'a \<Rightarrow> 'v option"
  assumes refs_valid: "val h x = Some v \<Longrightarrow> refs h x \<subseteq> {..<length h}"
    and refs_local: "val h x = Some v \<Longrightarrow> \<forall>a \<in> refs h x. a < length h' \<and> h' ! a = h ! a \<Longrightarrow>
      val h' x = Some v \<and> refs h' x = refs h x"
    and copied: "val h x = Some v \<Longrightarrow> \<exists>y h'. copy x h = Some (y, h') \<and> prefix h h' \<and>
      val h' y = Some v \<and> refs h' y \<subseteq> {length h..<length h'}"
begin

lemma prefix_nth: "prefix h h' \<Longrightarrow> a < length h \<Longrightarrow> a < length h' \<and> h' ! a = h ! a"
  by (auto simp: prefix_def nth_append)

lemma val_prefix: "val h x = Some v \<Longrightarrow> prefix h h' \<Longrightarrow> val h' x = Some v \<and> refs h' x = refs h x"
  using refs_local [of h x v h'] refs_valid [of h x v] prefix_nth [of h h'] by blast

text \<open>
  The loop over an array: it changes nothing below the memory it started with but the array,
  which then holds copies of the elements.
\<close>

lemma copy_elems_ok:
  assumes "list_all2 (\<lambda>x v. val h x = Some v) xs vs" and "a < length h" and "h ! a = mk ys"
    and "\<forall>x \<in> set xs. a \<notin> refs h x" and "i + length xs = length ys"
  shows "\<exists>h' zs. copy_elems mk copy a xs i ys h = Some h' \<and> length h \<le> length h' \<and>
    (\<forall>b < length h. b \<noteq> a \<longrightarrow> h' ! b = h ! b) \<and> h' ! a = mk (take i ys @ zs) \<and> length zs = length xs \<and>
    list_all2 (\<lambda>z v. val h' z = Some v) zs vs \<and> (\<forall>z \<in> set zs. refs h' z \<subseteq> {length h..<length h'})"
  using assms
proof (induction xs arbitrary: i ys h vs)
  case Nil
  then show ?case by auto
next
  case (Cons x xs)
  from Cons.prems(1) obtain v vs' where vs: "vs = v # vs'" and v: "val h x = Some v"
    and rest: "list_all2 (\<lambda>x v. val h x = Some v) xs vs'" by (auto simp: list_all2_Cons1)
  from copied [OF v] obtain y h1 where c: "copy x h = Some (y, h1)" and p: "prefix h h1"
    and y: "val h1 y = Some v" "refs h1 y \<subseteq> {length h..<length h1}" by blast
  let ?ys = "ys[i := y]" and ?h = "h1[a := mk (ys[i := y])]"
  have h: "length h \<le> length ?h" "\<And>b. b < length h \<Longrightarrow> b \<noteq> a \<Longrightarrow> ?h ! b = h ! b" "?h ! a = mk ?ys" "a < length ?h"
    using p Cons.prems(2) by (auto simp: prefix_def nth_append)
  have same: "val ?h z = Some w \<and> refs ?h z = refs h z" if "val h z = Some w" "a \<notin> refs h z" for z w
  proof (intro refs_local [OF that(1)] ballI)
    fix b assume "b \<in> refs h z"
    with refs_valid [OF that(1)] that(2) have "b < length h" "b \<noteq> a" by auto
    with h(1,2) show "b < length ?h \<and> ?h ! b = h ! b" by auto
  qed
  have "list_all2 (\<lambda>x v. val ?h x = Some v) xs vs'"
    by (rule list.rel_mono_strong [OF rest]) (use same Cons.prems(4) in simp)
  moreover have "\<forall>z \<in> set xs. a \<notin> refs ?h z"
  proof
    fix z assume z: "z \<in> set xs"
    with rest obtain w where "val h z = Some w" by (auto simp: list_all2_conv_all_nth in_set_conv_nth)
    with same [of z w] z Cons.prems(4) show "a \<notin> refs ?h z" by simp
  qed
  moreover have "Suc i + length xs = length ?ys" using Cons.prems(5) by simp
  ultimately obtain h' zs where ih: "copy_elems mk copy a xs (Suc i) ?ys ?h = Some h'" "length ?h \<le> length h'"
      "\<forall>b < length ?h. b \<noteq> a \<longrightarrow> h' ! b = ?h ! b" "h' ! a = mk (take (Suc i) ?ys @ zs)" "length zs = length xs"
      "list_all2 (\<lambda>z v. val h' z = Some v) zs vs'" "\<forall>z \<in> set zs. refs h' z \<subseteq> {length ?h..<length h'}"
    using Cons.IH [of ?h vs' ?ys "Suc i"] h by blast
  have y1: "val ?h y = Some v \<and> refs ?h y = refs h1 y"
    using y p Cons.prems(2) by (intro refs_local) (auto simp: prefix_def)
  with y have "\<forall>b \<in> refs ?h y. b < length h' \<and> h' ! b = ?h ! b"
    using ih(2,3) Cons.prems(2) by auto
  with y1 have y': "val h' y = Some v \<and> refs h' y = refs h1 y" using refs_local by blast
  show ?case
  proof (intro exI conjI)
    show "copy_elems mk copy a (x # xs) i ys h = Some h'" using c ih(1) by simp
    show "length h \<le> length h'" using h(1) ih(2) by simp
    show "\<forall>b < length h. b \<noteq> a \<longrightarrow> h' ! b = h ! b" using h(1,2) ih(3) by auto
    show "h' ! a = mk (take i ys @ (y # zs))"
      using ih(4) Cons.prems(5) by (simp add: take_Suc_conv_app_nth)
    show "length (y # zs) = length (x # xs)" using ih(5) by simp
    show "list_all2 (\<lambda>z v. val h' z = Some v) (y # zs) vs" using ih(6) y' vs by simp
    show "\<forall>z \<in> set (y # zs). refs h' z \<subseteq> {length h..<length h'}"
      using ih(2,7) y' y(2) h(1) by (auto; fastforce)
  qed
qed

end


section \<open>Composition\<close>

text \<open>Copying two parts one after the other, and copying a struct by its parts.\<close>

definition copy_pair ::
    "('a \<Rightarrow> ('m, 'l, 'x) store \<Rightarrow> ('a \<times> ('m, 'l, 'x) store) option) \<Rightarrow>
     ('b \<Rightarrow> ('m, 'l, 'x) store \<Rightarrow> ('b \<times> ('m, 'l, 'x) store) option) \<Rightarrow>
     'a \<times> 'b \<Rightarrow> ('m, 'l, 'x) store \<Rightarrow> (('a \<times> 'b) \<times> ('m, 'l, 'x) store) option" where
  "copy_pair f g p h =
     Option.bind (f (fst p) h) (\<lambda>(x, h). Option.bind (g (snd p) h) (\<lambda>(y, h). Some ((x, y), h)))"

definition pair_refs ::
    "(('m, 'l, 'x) store \<Rightarrow> 'a \<Rightarrow> addr set) \<Rightarrow> (('m, 'l, 'x) store \<Rightarrow> 'b \<Rightarrow> addr set) \<Rightarrow>
     ('m, 'l, 'x) store \<Rightarrow> 'a \<times> 'b \<Rightarrow> addr set" where
  "pair_refs r q h p = r h (fst p) \<union> q h (snd p)"

definition pair_val ::
    "(('m, 'l, 'x) store \<Rightarrow> 'a \<Rightarrow> 'v option) \<Rightarrow> (('m, 'l, 'x) store \<Rightarrow> 'b \<Rightarrow> 'u option) \<Rightarrow>
     ('m, 'l, 'x) store \<Rightarrow> 'a \<times> 'b \<Rightarrow> ('v \<times> 'u) option" where
  "pair_val v u h p = Option.bind (v h (fst p)) (\<lambda>x. Option.bind (u h (snd p)) (\<lambda>y. Some (x, y)))"

lemma pair_val_Some: "pair_val v u h p = Some w \<longleftrightarrow> v h (fst p) = Some (fst w) \<and> u h (snd p) = Some (snd w)"
  by (cases w) (auto simp: pair_val_def bind_eq_Some_conv)

lemma deep_copy_pair:
  assumes f: "deep_copy f r v" and g: "deep_copy g q u"
  shows "deep_copy (copy_pair f g) (pair_refs r q) (pair_val v u)"
proof
  fix h p w
  assume val: "pair_val v u h p = Some w"
  then have vals: "v h (fst p) = Some (fst w)" "u h (snd p) = Some (snd w)" by (simp_all add: pair_val_Some)
  show "pair_refs r q h p \<subseteq> {..<length h}"
    using deep_copy.refs_valid [OF f vals(1)] deep_copy.refs_valid [OF g vals(2)] by (simp add: pair_refs_def)
  show "pair_val v u h' p = Some w \<and> pair_refs r q h' p = pair_refs r q h p"
    if "\<forall>a \<in> pair_refs r q h p. a < length h' \<and> h' ! a = h ! a" for h'
    using that deep_copy.refs_local [OF f vals(1), of h'] deep_copy.refs_local [OF g vals(2), of h']
    by (simp add: pair_refs_def pair_val_Some)
  from deep_copy.copied [OF f vals(1)] obtain x h1 where x: "f (fst p) h = Some (x, h1)" "prefix h h1"
    "v h1 x = Some (fst w)" "r h1 x \<subseteq> {length h..<length h1}" by blast
  from deep_copy.val_prefix [OF g vals(2) x(2)] have "u h1 (snd p) = Some (snd w)" by simp
  from deep_copy.copied [OF g this] obtain y h2 where y: "g (snd p) h1 = Some (y, h2)" "prefix h1 h2"
    "u h2 y = Some (snd w)" "q h2 y \<subseteq> {length h1..<length h2}" by blast
  from deep_copy.val_prefix [OF f x(3) y(2)] have x2: "v h2 x = Some (fst w)" "r h2 x = r h1 x" by simp_all
  from x(2) y(2) have "length h \<le> length h1" "length h1 \<le> length h2" "prefix h h2"
    by (auto dest: prefix_length_le intro: prefix_order.trans)
  with x y x2 show "\<exists>y h'. copy_pair f g p h = Some (y, h') \<and> prefix h h' \<and> pair_val v u h' y = Some w \<and>
      pair_refs r q h' y \<subseteq> {length h..<length h'}"
    by (intro exI [of _ "(x, y)"] exI [of _ h2]) (fastforce simp: copy_pair_def pair_val_Some pair_refs_def)
qed

lemma deep_copy_image:
  assumes c: "deep_copy f r v" and put: "\<And>y x. proj (put y x) = y"
    and val: "\<And>h x. val h x = map_option (F x) (v h (proj x))" and F: "\<And>y x w. F (put y x) w = F x w"
    and refs: "\<And>h x. refs h x = r h (proj x)"
    and copy: "\<And>x h. copy x h = map_option (\<lambda>(y, h). (put y x, h)) (f (proj x) h)"
  shows "deep_copy copy refs val"
proof
  fix h x w
  assume "val h x = Some w"
  then obtain w0 where w0: "v h (proj x) = Some w0" "w = F x w0" by (auto simp: val)
  show "refs h x \<subseteq> {..<length h}" using deep_copy.refs_valid [OF c w0(1)] by (simp add: refs)
  show "val h' x = Some w \<and> refs h' x = refs h x" if "\<forall>a \<in> refs h x. a < length h' \<and> h' ! a = h ! a" for h'
    using that deep_copy.refs_local [OF c w0(1), of h'] w0(2) by (simp add: refs val)
  from deep_copy.copied [OF c w0(1)] w0(2)
  show "\<exists>y h'. copy x h = Some (y, h') \<and> prefix h h' \<and> val h' y = Some w \<and> refs h' y \<subseteq> {length h..<length h'}"
    by (force simp: copy val refs put F)
qed

section \<open>Slices\<close>

lemma elems_local:
  assumes "elems of_cell h s = Some xs" and "\<forall>a \<in> slice_refs s. a < length h' \<and> h' ! a = h ! a"
  shows "elems of_cell h' s = Some xs"
  using assms by (cases s) (auto simp: load_def split: if_splits)

lemma elems_valid: "elems of_cell h s = Some xs \<Longrightarrow> slice_refs s \<subseteq> {..<length h}"
  by (cases s) (auto simp: load_def bind_eq_Some_conv split: if_splits)

lemma elems_whole:
  assumes "a < length h" and "of_cell (h ! a) = Some xs" and "n = length xs"
  shows "elems of_cell h (Slice a 0 n) = Some xs"
  using assms by (simp add: load_def)

interpretation strings: deep_copy copy_strings "\<lambda>h. slice_refs" "elems strings_of"
proof
  fix h :: "('a, 'b, 'c) store" and s xs
  assume xs: "elems strings_of h s = Some xs"
  show "slice_refs s \<subseteq> {..<length h}" by (rule elems_valid [OF xs])
  show "\<exists>y h'. copy_strings s h = Some (y, h') \<and> prefix h h' \<and> elems strings_of h' y = Some xs \<and>
      slice_refs y \<subseteq> {length h..<length h'}"
  proof (cases "s = NilSlice")
    case False
    with xs show ?thesis by (simp add: copy_strings_def alloc_def load_def)
  qed (use xs in \<open>simp add: copy_strings_def\<close>)
qed (auto intro: elems_local)

text \<open>A slice of elements that refer to memory themselves.\<close>

definition elem_refs ::
    "(('m, 'l, 'x) cell \<Rightarrow> 'a list option) \<Rightarrow> (('m, 'l, 'x) store \<Rightarrow> 'a \<Rightarrow> addr set) \<Rightarrow>
     ('m, 'l, 'x) store \<Rightarrow> slice \<Rightarrow> addr set" where
  "elem_refs of_cell refs h s = slice_refs s \<union>
     (case elems of_cell h s of None \<Rightarrow> {} | Some xs \<Rightarrow> \<Union> (refs h ` set xs))"

definition slice_val ::
    "(('m, 'l, 'x) cell \<Rightarrow> 'a list option) \<Rightarrow> (('m, 'l, 'x) store \<Rightarrow> 'a \<Rightarrow> 'v option) \<Rightarrow>
     ('m, 'l, 'x) store \<Rightarrow> slice \<Rightarrow> 'v list option" where
  "slice_val of_cell val h s = Option.bind (elems of_cell h s) (\<lambda>xs. those (map (val h) xs))"

locale slice_copy = deep_copy copy refs val
  for copy :: "'a \<Rightarrow> ('m, 'l, 'x) store \<Rightarrow> ('a \<times> ('m, 'l, 'x) store) option"
    and refs :: "('m, 'l, 'x) store \<Rightarrow> 'a \<Rightarrow> addr set"
    and val :: "('m, 'l, 'x) store \<Rightarrow> 'a \<Rightarrow> 'v option" +
  fixes mk :: "'a list \<Rightarrow> ('m, 'l, 'x) cell" and of_cell :: "('m, 'l, 'x) cell \<Rightarrow> 'a list option" and zero :: 'a
  assumes of_mk: "of_cell (mk xs) = Some xs"
begin

lemma those_Some: "those (map f xs) = Some vs \<longleftrightarrow> list_all2 (\<lambda>x v. f x = Some v) xs vs"
  by (induction xs arbitrary: vs) (auto simp: list_all2_Cons1 split: option.splits)

lemma slice_val_Some:
  "slice_val of_cell val h s = Some vs \<longleftrightarrow>
     (\<exists>xs. elems of_cell h s = Some xs \<and> list_all2 (\<lambda>x v. val h x = Some v) xs vs)"
  by (auto simp: slice_val_def bind_eq_Some_conv those_Some)

lemma slice_copied:
  assumes "slice_val of_cell val h s = Some vs"
  shows "\<exists>y h'. copy_slice mk of_cell zero copy s h = Some (y, h') \<and> prefix h h' \<and>
    slice_val of_cell val h' y = Some vs \<and> elem_refs of_cell refs h' y \<subseteq> {length h..<length h'}"
proof (cases "s = NilSlice")
  case True
  with assms show ?thesis by (simp add: copy_slice_def slice_val_def elem_refs_def)
next
  case False
  from assms obtain xs where xs: "elems of_cell h s = Some xs" and vs: "list_all2 (\<lambda>x v. val h x = Some v) xs vs"
    unfolding slice_val_Some by blast
  let ?ys = "replicate (length xs) zero"
  let ?h = "h @ [mk ?ys]" and ?a = "length h"
  have p: "prefix h ?h" by simp
  have val: "val ?h x = Some v \<and> refs ?h x = refs h x" if "val h x = Some v" for x v
    by (rule val_prefix [OF that p])
  have old: "list_all2 (\<lambda>x v. val ?h x = Some v) xs vs"
    by (rule list.rel_mono_strong [OF vs]) (use val in simp)
  moreover have "\<forall>x \<in> set xs. ?a \<notin> refs ?h x"
  proof
    fix x assume "x \<in> set xs"
    with vs obtain v where "val h x = Some v" by (auto simp: list_all2_conv_all_nth in_set_conv_nth)
    with refs_valid [OF this] val [OF this] show "?a \<notin> refs ?h x" by auto
  qed
  ultimately obtain h' zs where c: "copy_elems mk copy ?a xs 0 ?ys ?h = Some h'" "length ?h \<le> length h'"
      "\<forall>b < length ?h. b \<noteq> ?a \<longrightarrow> h' ! b = ?h ! b" "h' ! ?a = mk (take 0 ?ys @ zs)" "length zs = length xs"
      "list_all2 (\<lambda>z v. val h' z = Some v) zs vs" "\<forall>z \<in> set zs. refs h' z \<subseteq> {length ?h..<length h'}"
    using copy_elems_ok [where xs = xs and vs = vs and h = ?h and a = ?a and mk = mk and ys = ?ys and i = 0] by auto
  have e: "elems of_cell h' (Slice ?a 0 (length xs)) = Some zs"
    by (rule elems_whole) (use c in \<open>simp_all add: of_mk\<close>)
  have "prefix h h'"
  proof -
    have "take (length h) h' = h"
      using c(2,3) by (intro nth_equalityI) (auto simp: nth_append)
    then show ?thesis by (metis take_is_prefix)
  qed
  moreover have "slice_val of_cell val h' (Slice ?a 0 (length xs)) = Some vs"
    unfolding slice_val_Some using e c(6) by blast
  moreover have "elem_refs of_cell refs h' (Slice ?a 0 (length xs)) \<subseteq> {length h..<length h'}"
    using e c(2,7) by (fastforce simp: elem_refs_def)
  ultimately show ?thesis
    using False xs c(1) by (simp add: copy_slice_def alloc_def Let_def)
qed

lemma slice_local:
  assumes vs: "slice_val of_cell val h s = Some vs" and same: "\<forall>a \<in> elem_refs of_cell refs h s. a < length h' \<and> h' ! a = h ! a"
  shows "slice_val of_cell val h' s = Some vs \<and> elem_refs of_cell refs h' s = elem_refs of_cell refs h s"
proof -
  from vs obtain xs where xs: "elems of_cell h s = Some xs" and v: "list_all2 (\<lambda>x v. val h x = Some v) xs vs"
    unfolding slice_val_Some by blast
  have el: "elems of_cell h' s = Some xs"
    by (rule elems_local [OF xs]) (use same in \<open>simp add: elem_refs_def\<close>)
  have each: "val h' x = Some w \<and> refs h' x = refs h x" if "x \<in> set xs" "val h x = Some w" for x w
    using same xs that by (intro refs_local) (auto simp: elem_refs_def)
  have "list_all2 (\<lambda>x v. val h' x = Some v) xs vs"
    by (rule list.rel_mono_strong [OF v]) (use each in simp)
  moreover have "refs h' x = refs h x" if "x \<in> set xs" for x
    using v each [OF that] that by (auto simp: list_all2_conv_all_nth in_set_conv_nth)
  ultimately show ?thesis
    using xs el by (auto simp: slice_val_Some elem_refs_def)
qed

lemma slice_valid:
  assumes "slice_val of_cell val h s = Some vs"
  shows "elem_refs of_cell refs h s \<subseteq> {..<length h}"
proof -
  from assms obtain xs where xs: "elems of_cell h s = Some xs" and v: "list_all2 (\<lambda>x v. val h x = Some v) xs vs"
    unfolding slice_val_Some by blast
  have "refs h x \<subseteq> {..<length h}" if "x \<in> set xs" for x
    using v that refs_valid by (fastforce simp: list_all2_conv_all_nth in_set_conv_nth)
  with elems_valid [OF xs] xs show ?thesis by (auto simp: elem_refs_def)
qed

lemma slice_deep_copy: "deep_copy (copy_slice mk of_cell zero copy) (elem_refs of_cell refs) (slice_val of_cell val)"
  by unfold_locales (rule slice_valid slice_local slice_copied; assumption)+

end


section \<open>The objects of the API\<close>

record meta_value =
  mv_Namespace :: string
  mv_Name :: string
  mv_Generation :: int
  mv_Finalizers :: "string list"
  mv_Deleting :: bool

definition time_val :: "('m, 'l, 'x) store \<Rightarrow> addr \<Rightarrow> int option" where
  "time_val h a = Option.bind (load h a) time_of"

definition opt_val :: "('a \<Rightarrow> 'b option) \<Rightarrow> 'a option \<Rightarrow> 'b option option" where
  "opt_val f p = (case p of None \<Rightarrow> Some None | Some x \<Rightarrow> map_option Some (f x))"

definition status_refs :: "('m, 'l, 'x) store \<Rightarrow> mem_status \<Rightarrow> addr set" where
  "status_refs h s = set_option (ms_LastReconcileTime s) \<union> slice_refs (ms_Conditions s)"

definition status_value :: "mem_status \<Rightarrow> int option \<times> Condition list \<Rightarrow> WorkloadIdentityBindingStatus" where
  "status_value s p =
     \<lparr>st_Phase = ms_Phase s, st_ServiceAccountID = ms_ServiceAccountID s,
      st_FederatedIdentityID = ms_FederatedIdentityID s, st_ProviderID = ms_ProviderID s,
      st_PolicyID = ms_PolicyID s, st_OrganisationID = ms_OrganisationID s,
      st_ProjectID = ms_ProjectID s, st_ObservedGeneration = ms_ObservedGeneration s,
      st_LastReconcileTime = fst p, st_Conditions = snd p\<rparr>"

definition status_val :: "('m, 'l, 'x) store \<Rightarrow> mem_status \<Rightarrow> WorkloadIdentityBindingStatus option" where
  "status_val h s =
     map_option (status_value s)
       (pair_val (\<lambda>h. opt_val (time_val h)) (elems conditions_of) h (ms_LastReconcileTime s, ms_Conditions s))"

text \<open>
  The value of a binding: its type, all of its metadata, and the binding as the rest of the
  development sees it.
\<close>

definition binding_refs ::
    "(('m, 'l, 'x) store \<Rightarrow> 'm \<Rightarrow> addr set) \<Rightarrow> ('m, 'l, 'x) store \<Rightarrow> 'm mem_binding \<Rightarrow> addr set" where
  "binding_refs meta_refs h b =
     meta_refs h (mb_ObjectMeta b) \<union> slice_refs (mb_Scopes b) \<union> status_refs h (mb_Status b)"

definition binding_value ::
    "'m mem_binding \<Rightarrow> 'v meta_value_scheme \<times> string list \<times> WorkloadIdentityBindingStatus \<Rightarrow>
     (string \<times> string) \<times> 'v meta_value_scheme \<times> WorkloadIdentityBinding" where
  "binding_value b p =
     (case p of (m, scopes, st) \<Rightarrow>
       (mb_TypeMeta b, m,
         \<lparr>wib_Namespace = mv_Namespace m, wib_Name = mv_Name m, wib_Generation = mv_Generation m,
           wib_Finalizers = mv_Finalizers m, wib_Deleting = mv_Deleting m,
           wib_ServiceAccountName = mb_ServiceAccountName b, wib_PolicyRef = mb_PolicyRef b,
           wib_RoleRef = mb_RoleRef b, wib_Scopes = scopes, wib_NameOverride = mb_NameOverride b,
           wib_DeleteResources = mb_DeleteResources b,
           wib_IdentityConfigMap = mb_IdentityConfigMap b, wib_Status = st\<rparr>))"

definition binding_val ::
    "(('m, 'l, 'x) store \<Rightarrow> 'm \<Rightarrow> 'v meta_value_scheme option) \<Rightarrow> ('m, 'l, 'x) store \<Rightarrow> 'm mem_binding \<Rightarrow>
     ((string \<times> string) \<times> 'v meta_value_scheme \<times> WorkloadIdentityBinding) option" where
  "binding_val meta_val h b =
     map_option (binding_value b)
       (pair_val meta_val (pair_val (elems strings_of) status_val) h (mb_ObjectMeta b, mb_Scopes b, mb_Status b))"

definition list_refs ::
    "(('m, 'l, 'x) store \<Rightarrow> 'm \<Rightarrow> addr set) \<Rightarrow> (('m, 'l, 'x) store \<Rightarrow> 'l \<Rightarrow> addr set) \<Rightarrow>
     ('m, 'l, 'x) store \<Rightarrow> 'l mem_list \<Rightarrow> addr set" where
  "list_refs meta_refs lmeta_refs h l =
     lmeta_refs h (ml_ListMeta l) \<union> elem_refs bindings_of (binding_refs meta_refs) h (ml_Items l)"

definition list_val ::
    "(('m, 'l, 'x) store \<Rightarrow> 'm \<Rightarrow> 'v meta_value_scheme option) \<Rightarrow> (('m, 'l, 'x) store \<Rightarrow> 'l \<Rightarrow> 'u option) \<Rightarrow>
     ('m, 'l, 'x) store \<Rightarrow> 'l mem_list \<Rightarrow>
     ((string \<times> string) \<times> 'u \<times> ((string \<times> string) \<times> 'v meta_value_scheme \<times> WorkloadIdentityBinding) list) option" where
  "list_val meta_val lmeta_val h l =
     map_option (Pair (ml_TypeMeta l))
       (pair_val lmeta_val (slice_val bindings_of (binding_val meta_val)) h (ml_ListMeta l, ml_Items l))"

text \<open>The documented behaviour of the copying functions of \<^verbatim>\<open>apimachinery\<close>.\<close>

locale object_copies =
  fixes cp :: "('m, 'l, 'x) copiers"
    and meta_refs :: "('m, 'l, 'x) store \<Rightarrow> 'm \<Rightarrow> addr set"
    and meta_val :: "('m, 'l, 'x) store \<Rightarrow> 'm \<Rightarrow> 'v meta_value_scheme option"
    and lmeta_refs :: "('m, 'l, 'x) store \<Rightarrow> 'l \<Rightarrow> addr set"
    and lmeta_val :: "('m, 'l, 'x) store \<Rightarrow> 'l \<Rightarrow> 'u option"
  assumes meta_copies: "deep_copy (\<lambda>m h. Some (cp_ObjectMeta cp m h)) meta_refs meta_val"
    and lmeta_copies: "deep_copy (\<lambda>m h. Some (cp_ListMeta cp m h)) lmeta_refs lmeta_val"
    and time_copies: "deep_copy (\<lambda>a h. Some (cp_Time cp a h)) (\<lambda>h a. {a}) time_val"
    and condition_copies: "deep_copy (\<lambda>x h. Some (cp_Condition cp x h)) (\<lambda>h x. {}) (\<lambda>h x. Some x)"

sublocale object_copies \<subseteq> meta: deep_copy "\<lambda>m h. Some (cp_ObjectMeta cp m h)" meta_refs meta_val
  by (rule meta_copies)

sublocale object_copies \<subseteq> lmeta: deep_copy "\<lambda>m h. Some (cp_ListMeta cp m h)" lmeta_refs lmeta_val
  by (rule lmeta_copies)

sublocale object_copies \<subseteq> time: deep_copy "\<lambda>a h. Some (cp_Time cp a h)" "\<lambda>h a. {a}" time_val
  by (rule time_copies)

sublocale object_copies \<subseteq> conds: slice_copy "\<lambda>x h. Some (cp_Condition cp x h)" "\<lambda>h x. {}" "\<lambda>h x. Some x"
    Conditions conditions_of zero_condition
  by (intro slice_copy.intro condition_copies) (simp add: slice_copy_axioms_def)

context object_copies
begin

lemma those_Some_id: "those (map Some xs) = Some xs"
  by (induction xs) simp_all

lemma conds_eq: "elem_refs conditions_of (\<lambda>h x. {}) = (\<lambda>h s. slice_refs s)"
  "slice_val conditions_of (\<lambda>h x. Some x) = elems conditions_of"
  by (auto simp: fun_eq_iff elem_refs_def slice_val_def those_Some_id split: option.splits)

lemmas conditions_copy = conds.slice_deep_copy [unfolded conds_eq, folded copy_conditions_def]

lemma optional_time: "deep_copy (copy_time cp) (\<lambda>h. set_option) (\<lambda>h. opt_val (time_val h))"
proof
  fix h :: "('m, 'l, 'x) store" and p t
  assume val: "opt_val (time_val h) p = Some t"
  then show "set_option p \<subseteq> {..<length h}"
    by (cases p) (auto simp: opt_val_def time_val_def load_def split: if_splits)
  show "opt_val (time_val h') p = Some t \<and> set_option p = set_option p"
    if "\<forall>a \<in> set_option p. a < length h' \<and> h' ! a = h ! a" for h' :: "('m, 'l, 'x) store"
    using val that by (cases p) (auto simp: opt_val_def time_val_def load_def split: if_splits)
  show "\<exists>q h'. copy_time cp p h = Some (q, h') \<and> prefix h h' \<and> opt_val (time_val h') q = Some t \<and>
      set_option q \<subseteq> {length h..<length h'}"
  proof (cases p)
    case None
    with val show ?thesis by (simp add: copy_time_def opt_val_def)
  next
    case (Some a)
    with val obtain n where "time_val h a = Some n" "t = Some n" by (auto simp: opt_val_def)
    with time.copied [OF this(1)] Some show ?thesis
      by (auto simp: copy_time_def opt_val_def split: prod.splits)
  qed
qed

end

sublocale object_copies \<subseteq> conditions: deep_copy "copy_conditions cp" "\<lambda>h. slice_refs" "elems conditions_of"
  by (rule conditions_copy)

sublocale object_copies \<subseteq> otime: deep_copy "copy_time cp" "\<lambda>h. set_option" "\<lambda>h. opt_val (time_val h)"
  by (rule optional_time)

sublocale object_copies \<subseteq> status: deep_copy "DeepCopyInto_Status cp" status_refs status_val
proof (rule deep_copy_image [OF deep_copy_pair [OF optional_time conditions_copy],
    where proj = "\<lambda>s. (ms_LastReconcileTime s, ms_Conditions s)" and F = status_value
      and put = "\<lambda>(t, cs) s. s\<lparr>ms_LastReconcileTime := t, ms_Conditions := cs\<rparr>"])
qed (auto simp: status_refs_def pair_refs_def DeepCopyInto_Status_def copy_pair_def status_val_def
    status_value_def Let_def split: Option.bind_splits)

sublocale object_copies \<subseteq> binding: deep_copy "DeepCopyInto_Binding cp" "binding_refs meta_refs" "binding_val meta_val"
proof (rule deep_copy_image [OF deep_copy_pair [OF meta_copies
        deep_copy_pair [OF strings.deep_copy_axioms status.deep_copy_axioms]],
    where proj = "\<lambda>b. (mb_ObjectMeta b, mb_Scopes b, mb_Status b)" and F = binding_value
      and put = "\<lambda>(m, s, st) b. b\<lparr>mb_ObjectMeta := m, mb_Scopes := s, mb_Status := st\<rparr>"])
qed (auto simp: binding_refs_def pair_refs_def DeepCopyInto_Binding_def copy_pair_def binding_val_def
    binding_value_def Let_def Un_assoc split: Option.bind_splits prod.splits)

sublocale object_copies \<subseteq> items: slice_copy "DeepCopyInto_Binding cp" "binding_refs meta_refs" "binding_val meta_val"
    Bindings bindings_of "zero_binding cp"
  by (intro slice_copy.intro binding.deep_copy_axioms) (simp add: slice_copy_axioms_def)

sublocale object_copies \<subseteq> list: deep_copy "DeepCopyInto_List cp" "list_refs meta_refs lmeta_refs" "list_val meta_val lmeta_val"
proof (rule deep_copy_image [OF deep_copy_pair [OF lmeta_copies items.slice_deep_copy],
    where proj = "\<lambda>l. (ml_ListMeta l, ml_Items l)" and F = "\<lambda>l. Pair (ml_TypeMeta l)"
      and put = "\<lambda>(m, s) l. l\<lparr>ml_ListMeta := m, ml_Items := s\<rparr>"])
qed (auto simp: list_refs_def pair_refs_def DeepCopyInto_List_def copy_pair_def list_val_def copy_items_def Let_def
    split: Option.bind_splits prod.splits)


section \<open>Pointers to objects\<close>

definition pointer_refs ::
    "(('m, 'l, 'x) cell \<Rightarrow> 'a option) \<Rightarrow> (('m, 'l, 'x) store \<Rightarrow> 'a \<Rightarrow> addr set) \<Rightarrow>
     ('m, 'l, 'x) store \<Rightarrow> addr \<Rightarrow> addr set" where
  "pointer_refs of_cell refs h a =
     insert a (case Option.bind (load h a) of_cell of None \<Rightarrow> {} | Some x \<Rightarrow> refs h x)"

definition pointer_val ::
    "(('m, 'l, 'x) cell \<Rightarrow> 'a option) \<Rightarrow> (('m, 'l, 'x) store \<Rightarrow> 'a \<Rightarrow> 'v option) \<Rightarrow>
     ('m, 'l, 'x) store \<Rightarrow> addr \<Rightarrow> 'v option" where
  "pointer_val of_cell val h a = Option.bind (Option.bind (load h a) of_cell) (val h)"

context deep_copy
begin

lemma pointer_val_Some:
  "pointer_val of_cell val h a = Some v \<longleftrightarrow> a < length h \<and> (\<exists>x. of_cell (h ! a) = Some x \<and> val h x = Some v)"
  by (auto simp: pointer_val_def load_def bind_eq_Some_conv)

lemma pointer_refs_at: "a < length h \<Longrightarrow> of_cell (h ! a) = Some x \<Longrightarrow> pointer_refs of_cell refs h a = insert a (refs h x)"
  by (simp add: pointer_refs_def load_def)

lemma pointer_valid: "pointer_val of_cell val h a = Some v \<Longrightarrow> pointer_refs of_cell refs h a \<subseteq> {..<length h}"
  using refs_valid by (fastforce simp: pointer_val_Some pointer_refs_at)

lemma pointer_local:
  assumes "pointer_val of_cell val h a = Some v"
    and "\<forall>c \<in> pointer_refs of_cell refs h a. c < length h' \<and> h' ! c = h ! c"
  shows "pointer_val of_cell val h' a = Some v"
proof -
  from assms(1) obtain x where x: "a < length h" "of_cell (h ! a) = Some x" "val h x = Some v"
    by (auto simp: pointer_val_Some)
  with assms(2) have "a < length h'" "h' ! a = h ! a" "val h' x = Some v"
    using refs_local [OF x(3), of h'] by (simp_all add: pointer_refs_at)
  with x(2) show ?thesis by (auto simp: pointer_val_Some)
qed

lemma new_copied:
  assumes val: "pointer_val of_cell val h a = Some v" and of_mk: "\<And>y. of_cell (mk y) = Some y"
  shows "\<exists>b h'. copy_new mk of_cell zero copy (Some a) h = Some (Some b, h') \<and> prefix h h' \<and>
    pointer_val of_cell val h' b = Some v \<and> pointer_refs of_cell refs h' b \<subseteq> {length h..<length h'}"
proof -
  from val obtain x where x: "a < length h" "of_cell (h ! a) = Some x" "val h x = Some v"
    by (auto simp: pointer_val_Some)
  let ?h = "h @ [mk zero]" and ?b = "length h"
  from val_prefix [OF x(3)] have "val ?h x = Some v" by simp
  from copied [OF this] obtain y h1 where y: "copy x ?h = Some (y, h1)" "prefix ?h h1" "val h1 y = Some v"
    "refs h1 y \<subseteq> {length ?h..<length h1}" by blast
  let ?h' = "h1[?b := mk y]"
  from y(2) have b: "?b < length h1" and old: "prefix h ?h'"
    by (auto simp: prefix_def list_update_append)
  have "val ?h' y = Some v \<and> refs ?h' y = refs h1 y"
    using y(4) by (intro refs_local [OF y(3)]) auto
  with b of_mk have "pointer_val of_cell val ?h' ?b = Some v"
    and r: "pointer_refs of_cell refs ?h' ?b = insert ?b (refs h1 y)"
    by (auto simp: pointer_val_Some pointer_refs_at)
  moreover from r y(4) b have "pointer_refs of_cell refs ?h' ?b \<subseteq> {length h..<length ?h'}" by auto
  ultimately show ?thesis
    using x y(1) old by (simp add: copy_new_def load_def alloc_def)
qed

end

context object_copies
begin

lemmas binding_copied = binding.new_copied [where of_cell = binding_of and mk = BindingAt, simplified]
lemmas list_copied = list.new_copied [where of_cell = list_of and mk = ListAt, simplified]

lemma copy_independent:
  assumes val: "pointer_val binding_of (binding_val meta_val) h a = Some v"
    and copy: "DeepCopy_Binding cp (Some a) h = Some (Some b, h')"
  shows "\<forall>c < length h. c < length h'' \<and> h'' ! c = h' ! c \<Longrightarrow> pointer_val binding_of (binding_val meta_val) h'' a = Some v"
    and "\<forall>c \<in> {length h..<length h'}. c < length h'' \<and> h'' ! c = h' ! c \<Longrightarrow>
      pointer_val binding_of (binding_val meta_val) h'' b = Some v"
proof -
  from binding_copied [OF val, of "zero_binding cp"] copy
  have p: "prefix h h'" and b: "pointer_val binding_of (binding_val meta_val) h' b = Some v"
    "pointer_refs binding_of (binding_refs meta_refs) h' b \<subseteq> {length h..<length h'}"
    by (auto simp: DeepCopy_Binding_def)
  show "pointer_val binding_of (binding_val meta_val) h'' a = Some v" if "\<forall>c < length h. c < length h'' \<and> h'' ! c = h' ! c"
    using binding.pointer_valid [OF val] that binding.prefix_nth [OF p] by (intro binding.pointer_local [OF val]) auto
  show "pointer_val binding_of (binding_val meta_val) h'' b = Some v"
    if "\<forall>c \<in> {length h..<length h'}. c < length h'' \<and> h'' ! c = h' ! c"
    using b(2) that by (intro binding.pointer_local [OF b(1)]) blast
qed

end

section \<open>A concrete memory\<close>

text \<open>Metadata with a slice of finalizers, copied in the way of the generated code.\<close>

record demo_meta =
  dm_Namespace :: string
  dm_Name :: string
  dm_Finalizers :: slice

type_synonym demo_store = "(demo_meta, unit, unit) store"

definition demo_meta_val :: "demo_store \<Rightarrow> demo_meta \<Rightarrow> meta_value option" where
  "demo_meta_val h m =
     map_option (\<lambda>fs. \<lparr>mv_Namespace = dm_Namespace m, mv_Name = dm_Name m, mv_Generation = 1,
       mv_Finalizers = fs, mv_Deleting = False\<rparr>) (elems strings_of h (dm_Finalizers m))"

definition demo_copiers :: "(demo_meta, unit, unit) copiers" where
  "demo_copiers = \<lparr>
     cp_ObjectMeta = (\<lambda>m h. case copy_strings (dm_Finalizers m) h of
         None \<Rightarrow> (m, h) | Some (s, h) \<Rightarrow> (m\<lparr>dm_Finalizers := s\<rparr>, h)),
     cp_ListMeta = (\<lambda>m h. (m, h)),
     cp_Time = (\<lambda>a h. case load h a of None \<Rightarrow> (a, h) | Some v \<Rightarrow> alloc v h),
     cp_Condition = (\<lambda>x h. (x, h)),
     cp_ObjectMeta0 = \<lparr>dm_Namespace = [], dm_Name = [], dm_Finalizers = NilSlice\<rparr>,
     cp_ListMeta0 = ()\<rparr>"

interpretation demo: object_copies demo_copiers "\<lambda>h m. slice_refs (dm_Finalizers m)" demo_meta_val
    "\<lambda>h m. {}" "\<lambda>h (m :: unit). Some m"
proof (rule object_copies.intro)
  show "deep_copy (\<lambda>m h. Some (cp_ObjectMeta demo_copiers m h)) (\<lambda>h m. slice_refs (dm_Finalizers m)) demo_meta_val"
  proof
    fix h and m :: demo_meta and v
    assume "demo_meta_val h m = Some v"
    then obtain fs where fs: "elems strings_of h (dm_Finalizers m) = Some fs" and v: "v = \<lparr>mv_Namespace = dm_Namespace m,
        mv_Name = dm_Name m, mv_Generation = 1, mv_Finalizers = fs, mv_Deleting = False\<rparr>"
      by (auto simp: demo_meta_val_def)
    show "slice_refs (dm_Finalizers m) \<subseteq> {..<length h}" by (rule elems_valid [OF fs])
    show "demo_meta_val h' m = Some v \<and> slice_refs (dm_Finalizers m) = slice_refs (dm_Finalizers m)"
      if "\<forall>a \<in> slice_refs (dm_Finalizers m). a < length h' \<and> h' ! a = h ! a" for h'
      using elems_local [OF fs that] v by (simp add: demo_meta_val_def)
    from strings.copied [OF fs] v
    show "\<exists>y h'. Some (cp_ObjectMeta demo_copiers m h) = Some (y, h') \<and> prefix h h' \<and> demo_meta_val h' y = Some v \<and>
        slice_refs (dm_Finalizers y) \<subseteq> {length h..<length h'}"
      by (auto simp: demo_copiers_def demo_meta_val_def)
  qed
  show "deep_copy (\<lambda>a h. Some (cp_Time demo_copiers a h)) (\<lambda>h a. {a}) time_val"
    by unfold_locales
      (auto simp: demo_copiers_def time_val_def load_def alloc_def bind_eq_Some_conv split: if_splits)
qed (unfold_locales, auto simp: demo_copiers_def)

definition demo_item :: "demo_meta mem_binding" where
  "demo_item = \<lparr>mb_TypeMeta = (''WorkloadIdentityBinding'', ''iam.thalassa.cloud/v1beta1''),
     mb_ObjectMeta = \<lparr>dm_Namespace = ''ns'', dm_Name = ''b'', dm_Finalizers = Slice 0 1 1\<rparr>,
     mb_ServiceAccountName = ''app'', mb_PolicyRef = ''obs-write'', mb_RoleRef = [],
     mb_Scopes = Slice 0 0 1, mb_NameOverride = [], mb_DeleteResources = True,
     mb_IdentityConfigMap = False,
     mb_Status = zero_status\<lparr>ms_Phase := ''Ready'', ms_LastReconcileTime := Some 1, ms_Conditions := Slice 2 0 1\<rparr>\<rparr>"

text \<open>The scopes and the finalizers share an array, as slices of one array may.\<close>

definition demo_memory :: demo_store where
  "demo_memory = [Strings [''api:read'', ''f''], Time 100, Conditions [zero_condition\<lparr>cond_Type := ''Ready''\<rparr>],
     BindingAt demo_item, Bindings [demo_item],
     ListAt \<lparr>ml_TypeMeta = ([], []), ml_ListMeta = (), ml_Items = Slice 4 0 1\<rparr>]"

definition demo_item_value :: "(string \<times> string) \<times> meta_value \<times> WorkloadIdentityBinding" where
  "demo_item_value = the (pointer_val binding_of (binding_val demo_meta_val) demo_memory 3)"

lemma demo_item_there:
  "binding_val demo_meta_val demo_memory demo_item = Some demo_item_value"
  "pointer_val binding_of (binding_val demo_meta_val) demo_memory 3 = Some demo_item_value"
  by (simp_all add: demo_item_value_def pointer_val_def load_def demo_memory_def binding_val_def pair_val_def
      demo_meta_val_def demo_item_def status_val_def opt_val_def time_val_def zero_status_def)

lemma demo_list_there:
  "pointer_val list_of (list_val demo_meta_val (\<lambda>h m. Some m)) demo_memory 5 = Some (([], []), (), [demo_item_value])"
proof -
  have "load demo_memory 5 = Some (ListAt \<lparr>ml_TypeMeta = ([], []), ml_ListMeta = (), ml_Items = Slice 4 0 1\<rparr>)"
    "elems bindings_of demo_memory (Slice 4 0 1) = Some [demo_item]"
    by (simp_all add: demo_memory_def load_def)
  then show ?thesis
    by (simp add: pointer_val_def list_val_def pair_val_def slice_val_def demo_item_there)
qed

section \<open>Properties\<close>

text \<open>
  C25: a deep copy is a copy: \<^verbatim>\<open>DeepCopy\<close> of a binding, and of a list of bindings, returns a
  pointer to an object of the same value (type, metadata, scopes with their order, status with
  its time and conditions), in memory that was not in use before, and writes to no memory that
  was.
\<close>

theorem deep_copies:
  assumes "object_copies cp meta_refs meta_val lmeta_refs lmeta_val"
    and "pointer_val binding_of (binding_val meta_val) h a = Some v"
    and "pointer_val list_of (list_val meta_val lmeta_val) h l = Some u"
  shows "(\<exists>b h'. DeepCopy_Binding cp (Some a) h = Some (Some b, h') \<and> prefix h h' \<and>
      pointer_val binding_of (binding_val meta_val) h' b = Some v \<and>
      pointer_refs binding_of (binding_refs meta_refs) h' b \<subseteq> {length h..<length h'}) \<and>
    (\<exists>b h'. DeepCopy_List cp (Some l) h = Some (Some b, h') \<and> prefix h h' \<and>
      pointer_val list_of (list_val meta_val lmeta_val) h' b = Some u \<and>
      pointer_refs list_of (list_refs meta_refs lmeta_refs) h' b \<subseteq> {length h..<length h'})"
  unfolding DeepCopy_Binding_def DeepCopy_List_def
  using object_copies.binding_copied [OF assms(1,2)] object_copies.list_copied [OF assms(1,3)] by blast

theorem deep_copies_witness:
  "\<exists>b h'. DeepCopy_List demo_copiers (Some 5) demo_memory = Some (Some b, h') \<and>
     pointer_val list_of (list_val demo_meta_val (\<lambda>h m. Some m)) h' b = Some (([], []), (), [demo_item_value])"
  using deep_copies [OF demo.object_copies_axioms demo_item_there(2) demo_list_there] by blast

text \<open>
  C26: a copy and its original are independent: whatever is written later to the memory of the
  copy (or to memory allocated after it), the original keeps its value, and whatever is
  written to the memory that existed before the copy, the copy keeps its.
\<close>

theorem copies_independent:
  assumes "object_copies cp meta_refs meta_val lmeta_refs lmeta_val"
    and "pointer_val binding_of (binding_val meta_val) h a = Some v"
    and "DeepCopy_Binding cp (Some a) h = Some (Some b, h')"
  shows "((\<forall>c < length h. c < length ha \<and> ha ! c = h' ! c) \<longrightarrow>
      pointer_val binding_of (binding_val meta_val) ha a = Some v) \<and>
    ((\<forall>c \<in> {length h..<length h'}. c < length hb \<and> hb ! c = h' ! c) \<longrightarrow>
      pointer_val binding_of (binding_val meta_val) hb b = Some v)"
  using object_copies.copy_independent [OF assms] by blast

text \<open>A controller that renames the account in its copy does not touch the cached binding.\<close>

theorem copies_independent_witness:
  "\<exists>b h'. DeepCopy_Binding demo_copiers (Some 3) demo_memory = Some (Some b, h') \<and>
     pointer_val binding_of (binding_val demo_meta_val) (h'[b := BindingAt (zero_binding demo_copiers)]) 3 =
       Some demo_item_value"
proof -
  from demo.binding_copied [OF demo_item_there(2), of "zero_binding demo_copiers"]
  obtain b h' where copy: "DeepCopy_Binding demo_copiers (Some 3) demo_memory = Some (Some b, h')"
    and "prefix demo_memory h'"
    and "pointer_refs binding_of (binding_refs (\<lambda>h m. slice_refs (dm_Finalizers m))) h' b \<subseteq>
      {length demo_memory..<length h'}"
    by (auto simp: DeepCopy_Binding_def)
  moreover from this(3) have "length demo_memory \<le> b" by (simp add: pointer_refs_def)
  moreover from \<open>prefix demo_memory h'\<close> have "length demo_memory \<le> length h'" by (rule prefix_length_le)
  ultimately show ?thesis
    using copies_independent [OF demo.object_copies_axioms demo_item_there(2) copy,
        where ha = "h'[b := BindingAt (zero_binding demo_copiers)]"] by auto
qed

end
