(* ===== verification/KeyTests.thy ===== *)
theory KeyTests
  imports Subject
begin

text \<open>
  The resource key of a concrete input, evaluated by the simplifier on the model of SHA-256, and
  with it \<^verbatim>\<open>TestResourceKeyStable\<close> of \<^verbatim>\<open>internal/wif/subject_test.go\<close>. That the test's key of
  another namespace differs is not evaluated: one hash takes the simplifier minutes.
\<close>

lemma key_of_ns:
  "ResourceKey ''ns'' ''sa'' ''system:serviceaccount:ns:sa'' ''https://oidc.example'' = ''64c822570a94972b''"
  by code_simp

lemma TestResourceKeyStable:
  "ResourceKey ''ns'' ''sa'' ''system:serviceaccount:ns:sa'' ''https://oidc.example/'' =
     ResourceKey ''ns'' ''sa'' ''system:serviceaccount:ns:sa'' ''https://oidc.example''"
  "length (ResourceKey ''ns'' ''sa'' ''system:serviceaccount:ns:sa'' ''https://oidc.example/'') = 16"
proof -
  have "NormalizeIssuer ''https://oidc.example/'' = NormalizeIssuer ''https://oidc.example''" by code_simp
  then show same: "ResourceKey ''ns'' ''sa'' ''system:serviceaccount:ns:sa'' ''https://oidc.example/'' =
     ResourceKey ''ns'' ''sa'' ''system:serviceaccount:ns:sa'' ''https://oidc.example''"
    by (simp add: ResourceKey_def key_input_def)
  show "length (ResourceKey ''ns'' ''sa'' ''system:serviceaccount:ns:sa'' ''https://oidc.example/'') = 16"
    by (simp add: same key_of_ns)
qed

end
