(* ===== verification/Steps.thy ===== *)
theory Steps
  imports BindingReconcile
begin

text \<open>
  A small logic for what every run of a program respects: relations between the world before
  and after, shown call by call. It is used to keep an invariant of the cluster through a
  reconciliation whose calls may fail.
\<close>

section \<open>Steps that every call respects\<close>

text \<open>
  A program goes \<open>via\<close> a relation of worlds when its run always relates the world before to
  the world after. For a reflexive and transitive relation it is enough that the calls do.
\<close>

definition via :: "('w \<Rightarrow> 'w \<Rightarrow> bool) \<Rightarrow> ('a, 'w) prog \<Rightarrow> bool" where
  "via R m \<longleftrightarrow> (\<forall>w. R w (snd (m w)))"

named_theorems via_intros \<open>introduction rules for what a program respects\<close>

lemma viaD: "via R m \<Longrightarrow> m w = (r, w') \<Longrightarrow> R w w'"
  by (metis via_def snd_conv)

lemma snd_call [simp]: "snd (call f w) = snd (f w)"
  by (simp add: call_def split: prod.splits sum.splits)

lemma via_call: "(\<And>w. R w (snd (f w))) \<Longrightarrow> via R (call f)"
  by (simp add: via_def)

locale transitions =
  fixes R :: "'w \<Rightarrow> 'w \<Rightarrow> bool"
  assumes step_refl: "R w w" and step_trans: "R u v \<Longrightarrow> R v w \<Longrightarrow> R u w"
begin

lemma via_okE [via_intros]: "via R (okE x)"
  by (simp add: via_def okE_def step_refl)

lemma via_failE [via_intros]: "via R (failE e)"
  by (simp add: via_def failE_def step_refl)

lemma via_finish [via_intros]: "via R (finish obs err)"
  by (simp add: finish_def via_okE)

lemma via_checkE [via_intros]: "via R (checkE r)"
  by (cases r) (simp_all add: via_def checkE_def okE_def failE_def step_refl)

lemma via_derefE [via_intros]: "via R (derefE p)"
  by (cases p) (simp_all add: via_def derefE_def okE_def panicE_def step_refl)

lemma via_bindE [via_intros]:
  assumes "via R m" and "\<And>x. via R (h x)"
  shows "via R (bindE m h)"
  unfolding via_def
proof
  fix w
  obtain r v where run: "m w = (r, v)" by fastforce
  from viaD [OF assms(1) run] have "R w v" .
  with run show "R w (snd (bindE m h w))"
    using assms(2) by (cases r) (auto simp: bindE_def via_def intro: step_trans)
qed

lemma via_tryE [via_intros]:
  assumes "via R m" and "\<And>x. via R (h x)"
  shows "via R (tryE m h)"
  unfolding via_def
proof
  fix w
  obtain r v where run: "m w = (r, v)" by fastforce
  from viaD [OF assms(1) run] have "R w v" .
  with run show "R w (snd (tryE m h w))"
    using assms(2) by (cases r) (auto simp: tryE_def via_def intro: step_trans)
qed

lemma via_wrapE [via_intros]: "via R m \<Longrightarrow> via R (wrapE t m)"
  unfolding wrapE_def by (auto intro!: via_tryE via_failE via_okE split: sum.splits)

lemma via_delete_loop [via_intros]: "(\<And>i. via R (del i)) \<Longrightarrow> via R (delete_loop del s bs)"
  by (induction bs) (auto intro!: via_okE via_bindE)

lemma via_nowE: "(\<And>w. R w (snd (kc_now k w))) \<Longrightarrow> via R (nowE k)"
  by (simp add: via_def nowE_def split: prod.splits) (metis snd_conv)

lemma via_syncE: "(\<And>f w. R w (snd (CreateOrUpdateConfigMap k cm f w))) \<Longrightarrow> via R (syncE k cm f)"
  unfolding via_def syncE_def by (auto split: prod.splits sum.splits) (metis snd_conv)+

end

text \<open>Keeping a predicate is such a relation.\<close>

definition keeping :: "('w \<Rightarrow> bool) \<Rightarrow> 'w \<Rightarrow> 'w \<Rightarrow> bool" where
  "keeping J w w' \<longleftrightarrow> (J w \<longrightarrow> J w')"

interpretation keeping: transitions "keeping J" for J
  by unfold_locales (auto simp: keeping_def)

end
