(* ===== verification/Lifecycle.thy ===== *)
theory Lifecycle
  imports Steps AnnotationController EnsureStore IdentityChannel
begin

text \<open>
  The life of a cluster: users create, edit and delete bindings and service accounts, others
  work in the IAM organisation, and the two controllers reconcile whatever they are asked to, in
  any order and any number of times, while API calls fail or lose their answers. Users and
  others also act in the middle of a reconciliation, before and after each of its calls. The
  invariant is that no account of the controllers outlives what it was made for.
\<close>

section \<open>Ownership\<close>

text \<open>
  An account belongs to a workload when it has the ownership labels the controllers compute for
  it. A binding is bound to a service account while it has the controller's finalizer; a service
  account is guarded while it has the one of the controller of annotated accounts.
\<close>

definition owned :: "string \<Rightarrow> string \<Rightarrow> string \<Rightarrow> ServiceAccount \<Rightarrow> bool" where
  "owned iss ns sa s \<longleftrightarrow>
     (case BuildKubernetesSubject ns sa of
        Inl _ \<Rightarrow> False
      | Inr subject \<Rightarrow>
          LabelsMatch (sa_Labels s) (OwnershipLabels (ResourceKey ns sa subject iss) ns sa))"

definition bound :: "WorkloadIdentityBinding option \<Rightarrow> string option" where
  "bound x =
     (case x of
        None \<Rightarrow> None
      | Some b \<Rightarrow> if BindingFinalizerName \<in> set (wib_Finalizers b) then Some (wib_ServiceAccountName b) else None)"

definition guarded :: "KubeServiceAccount option \<Rightarrow> bool" where
  "guarded x = (case x of None \<Rightarrow> False | Some s \<Rightarrow> FinalizerName \<in> set (ksa_Finalizers s))"

lemma bound_Some: "bound x = Some sa \<longleftrightarrow>
  (\<exists>b. x = Some b \<and> wib_ServiceAccountName b = sa \<and> BindingFinalizerName \<in> set (wib_Finalizers b))"
  by (auto simp: bound_def split: option.splits)

lemma guarded_iff: "guarded x \<longleftrightarrow> (\<exists>s. x = Some s \<and> FinalizerName \<in> set (ksa_Finalizers s))"
  by (auto simp: guarded_def split: option.splits)

text \<open>What a world stores, by namespace and name.\<close>

record 'w views =
  v_prov :: "'w \<Rightarrow> FederatedIdentityProvider list"
  v_accts :: "'w \<Rightarrow> ServiceAccount list"
  v_wibs :: "'w \<Rightarrow> string \<times> string \<Rightarrow> WorkloadIdentityBinding option"
  v_ksas :: "'w \<Rightarrow> string \<times> string \<Rightarrow> KubeServiceAccount option"

type_synonym holding = "(string \<times> string \<Rightarrow> string option) \<times> (string \<times> string \<Rightarrow> bool)"

definition holders :: "'w views \<Rightarrow> 'w \<Rightarrow> holding" where
  "holders v w = (\<lambda>key. bound (v_wibs v w key), \<lambda>key. guarded (v_ksas v w key))"

definition held :: "holding \<Rightarrow> string \<Rightarrow> string \<Rightarrow> bool" where
  "held H ns sa \<longleftrightarrow> (\<exists>n. fst H (ns, n) = Some sa) \<or> snd H (ns, sa)"

definition owned_by :: "'w views \<Rightarrow> string \<Rightarrow> string \<Rightarrow> string \<Rightarrow> 'w \<Rightarrow> ServiceAccount multiset" where
  "owned_by v iss ns sa w = filter_mset (owned iss ns sa) (mset (v_accts v w))"

section \<open>Users and others\<close>

text \<open>
  Bindings ask for the deletion of their resources, and so do service accounts that are enabled
  or guarded.
\<close>

definition well_named :: "string \<times> string \<Rightarrow> WorkloadIdentityBinding \<Rightarrow> bool" where
  "well_named key b \<longleftrightarrow> wib_Namespace b = fst key \<and> wib_Name b = snd key \<and> wib_DeleteResources b"

definition well_annotated :: "KubeServiceAccount \<Rightarrow> bool" where
  "well_annotated s \<longleftrightarrow>
     (IsEnabled (ksa_Annotations s) \<or> FinalizerName \<in> set (ksa_Finalizers s) \<longrightarrow> DeleteResources (ksa_Annotations s))"

definition wellformed :: "'w views \<Rightarrow> 'w \<Rightarrow> bool" where
  "wellformed v w \<longleftrightarrow> (\<forall>key b. v_wibs v w key = Some b \<longrightarrow> well_named key b) \<and>
     (\<forall>key s. v_ksas v w key = Some s \<longrightarrow> well_annotated s)"

text \<open>
  What users and others may do: anything that leaves the provider of the cluster, adds or
  removes no finalizer of the controllers (so an object with one does not disappear), does not
  rename the service account of a binding that has one, keeps asking for deletions, and makes no
  account with the labels of the controllers.
\<close>

definition calm :: "'w views \<Rightarrow> string \<Rightarrow> 'w \<Rightarrow> 'w \<Rightarrow> bool" where
  "calm v iss w w' \<longleftrightarrow> v_prov v w' = v_prov v w \<and> holders v w' = holders v w \<and>
     (wellformed v w \<longrightarrow> wellformed v w') \<and>
     (\<forall>ns sa. owned_by v iss ns sa w' \<subseteq># owned_by v iss ns sa w)"

interpretation calm: transitions "calm v iss" for v iss
proof
  fix a b d
  assume "calm v iss a b" and "calm v iss b d"
  then show "calm v iss a d"
    unfolding calm_def by (metis subset_mset.order_trans)
qed (simp add: calm_def)

section \<open>A cluster whose calls may fail\<close>

text \<open>
  The effects of the calls that change what is of interest here. A call that returns an error
  may still have had its effect. An update stores the object it is given, or removes it when it
  has no finalizer left.
\<close>

definition amid :: "('w \<Rightarrow> 'w \<Rightarrow> bool) \<Rightarrow> ('w \<Rightarrow> 'w \<Rightarrow> bool) \<Rightarrow> 'w \<Rightarrow> 'w \<Rightarrow> bool" where
  "amid E A w w' \<longleftrightarrow> (\<exists>u x. E w u \<and> A u x \<and> E x w')"

definition account_made :: "'w views \<Rightarrow> smap \<Rightarrow> 'w \<Rightarrow> 'w \<Rightarrow> bool" where
  "account_made v labels u x \<longleftrightarrow> v_prov v x = v_prov v u \<and> v_wibs v x = v_wibs v u \<and> v_ksas v x = v_ksas v u \<and>
     (mset (v_accts v x) = mset (v_accts v u) \<or>
      (\<exists>s. sa_Labels s = labels \<and> mset (v_accts v x) = add_mset s (mset (v_accts v u))))"

definition account_gone :: "'w views \<Rightarrow> string \<Rightarrow> bool \<Rightarrow> 'w \<Rightarrow> 'w \<Rightarrow> bool" where
  "account_gone v i ok u x \<longleftrightarrow> v_prov v x = v_prov v u \<and> v_wibs v x = v_wibs v u \<and> v_ksas v x = v_ksas v u \<and>
     (v_accts v x = filter (\<lambda>s. sa_Identity s \<noteq> i) (v_accts v u) \<or> \<not> ok \<and> v_accts v x = v_accts v u)"

definition updates_wib :: "'w views \<Rightarrow> WorkloadIdentityBinding \<Rightarrow> 'w \<Rightarrow> 'w \<Rightarrow> bool" where
  "updates_wib v b u x \<longleftrightarrow> v_prov v x = v_prov v u \<and> v_accts v x = v_accts v u \<and> v_ksas v x = v_ksas v u \<and>
     (v_wibs v x = v_wibs v u \<or>
      (\<exists>neu. v_wibs v x = (v_wibs v u)((wib_Namespace b, wib_Name b) := neu) \<and>
         (neu = None \<and> wib_Finalizers b = [] \<or> (\<exists>st. neu = Some (b\<lparr>wib_Status := st\<rparr>)))))"

definition updates_ksa :: "'w views \<Rightarrow> KubeServiceAccount \<Rightarrow> 'w \<Rightarrow> 'w \<Rightarrow> bool" where
  "updates_ksa v s u x \<longleftrightarrow> v_prov v x = v_prov v u \<and> v_accts v x = v_accts v u \<and> v_wibs v x = v_wibs v u \<and>
     (v_ksas v x = v_ksas v u \<or>
      (\<exists>neu. v_ksas v x = (v_ksas v u)((ksa_Namespace s, ksa_Name s) := neu) \<and>
         (neu = None \<and> ksa_Finalizers s = [] \<or> neu = Some s)))"

definition reads :: "'w views \<Rightarrow> ('w \<Rightarrow> bool) \<Rightarrow> 'w \<Rightarrow> 'w \<Rightarrow> bool" where
  "reads v P u x \<longleftrightarrow> x = u \<and> P u"

text \<open>The clients of a cluster in which users and others act before and after every call.\<close>

locale cluster =
  fixes c :: "'w iam_client" and k :: "'w kube_client" and v :: "'w views" and iss :: string
  assumes quiet_calls:
      "calm v iss w (snd (ListFederatedIdentityProviders c l w))"
      "calm v iss w (snd (ListServiceAccounts c l w))"
      "calm v iss w (snd (ListFederatedIdentities c l w))"
      "calm v iss w (snd (GetOrganisationRole c i w))"
      "calm v iss w (snd (ListOrganisationRoles c w))"
      "calm v iss w (snd (ListRoleBindings c i w))"
      "calm v iss w (snd (ListIamPolicies c w))"
      "calm v iss w (snd (GetIamPolicy c i w))"
      "calm v iss w (snd (ListIamPolicyBindings c i w))"
      "calm v iss w (snd (CreateFederatedIdentity c fq w))"
      "calm v iss w (snd (UpdateFederatedIdentity c i uq w))"
      "calm v iss w (snd (DeleteFederatedIdentity c i w))"
      "calm v iss w (snd (CreateRoleBinding c i bq w))"
      "calm v iss w (snd (DeleteRoleBinding c i j w))"
      "calm v iss w (snd (CreateIamPolicyBinding c i bq w))"
      "calm v iss w (snd (DeleteIamPolicyBinding c i j w))"
      "calm v iss w (snd (GetServiceAccount k ns n w))"
      "calm v iss w (snd (GetBinding k ns n w))"
      "calm v iss w (snd (UpdateBindingStatus k b w))"
      "calm v iss w (snd (CreateOrUpdateConfigMap k cm f w))"
      "calm v iss w (snd (kc_now k w))"
    and providers_listed: "ListFederatedIdentityProviders c l w = (Inr ps, w') \<Longrightarrow>
      filter (\<lambda>p. LabelsMatch (idp_Labels p) l) ps = filter (\<lambda>p. LabelsMatch (idp_Labels p) l) (v_prov v w)"
    and accounts_listed: "ListServiceAccounts c l w = (Inr xs, w') \<Longrightarrow>
      amid (calm v iss) (reads v (\<lambda>u. filter (\<lambda>s. LabelsMatch (sa_Labels s) l) xs =
        filter (\<lambda>s. LabelsMatch (sa_Labels s) l) (v_accts v u))) w w'"
    and account_created: "CreateServiceAccount c q w = (r, w') \<Longrightarrow>
      amid (calm v iss) (account_made v (csa_Labels q)) w w'"
    and account_deleted: "DeleteServiceAccount c i w = (dr, w') \<Longrightarrow>
      amid (calm v iss) (account_gone v i (dr = Inr ())) w w'"
    and binding_read: "GetBinding k ns n w = (Inr b, w') \<Longrightarrow>
      amid (calm v iss) (reads v (\<lambda>u. v_wibs v u (ns, n) = Some b)) w w'"
    and account_read: "GetServiceAccount k ns n w = (Inr s, w') \<Longrightarrow>
      ksa_Namespace s = ns \<and> ksa_Name s = n \<and>
      amid (calm v iss) (reads v (\<lambda>u. v_ksas v u (ns, n) = Some s)) w w'"
    and binding_updated: "UpdateBinding k b w = (ur, w') \<Longrightarrow> amid (calm v iss) (updates_wib v b) w w'"
    and account_updated: "UpdateServiceAccount k s w = (sr, w') \<Longrightarrow> amid (calm v iss) (updates_ksa v s) w w'"
    and finalizers: "finalizer_laws k"

section \<open>The life cycle\<close>

text \<open>The cluster has one provider with an issuer.\<close>

definition served :: "string \<Rightarrow> string \<Rightarrow> 'w views \<Rightarrow> 'w \<Rightarrow> bool" where
  "served cl iss v w \<longleftrightarrow> iss \<noteq> [] \<and> wellformed v w \<and>
     (\<exists>p. matching_providers (TrimSpace cl) (v_prov v w) = [p] \<and> NormalizeIssuer (idp_ProviderIssuer p) = iss)"

inductive lifecycle ::
    "'w iam_client \<Rightarrow> 'w kube_client \<Rightarrow> Config \<Rightarrow> 'w views \<Rightarrow> string \<Rightarrow> 'w \<Rightarrow> bool"
  for c k cfg v iss where
  start: "served (cfg_ClusterIdentity cfg) iss v w \<Longrightarrow>
    \<forall>s \<in> set (v_accts v w). \<forall>ns sa. \<not> owned iss ns sa s \<Longrightarrow> lifecycle c k cfg v iss w"
| user: "lifecycle c k cfg v iss w \<Longrightarrow> calm v iss w w' \<Longrightarrow> lifecycle c k cfg v iss w'"
| binding: "lifecycle c k cfg v iss w \<Longrightarrow> lifecycle c k cfg v iss (snd (ReconcileBinding c k cfg ns n w))"
| account: "lifecycle c k cfg v iss w \<Longrightarrow> lifecycle c k cfg v iss (snd (ReconcileServiceAccount c k cfg ns n w))"

section \<open>The invariant\<close>

definition tidy :: "string \<Rightarrow> string \<Rightarrow> 'w views \<Rightarrow> 'w \<Rightarrow> bool" where
  "tidy cl iss v w \<longleftrightarrow> served cl iss v w \<and>
     (\<forall>ns sa. size (owned_by v iss ns sa w) \<le> 1 \<and>
        (owned_by v iss ns sa w \<noteq> {#} \<longrightarrow> held (holders v w) ns sa))"

lemma owned_by_empty: "owned_by v iss ns sa w = {#} \<longleftrightarrow> (\<forall>s \<in> set (v_accts v w). \<not> owned iss ns sa s)"
  unfolding owned_by_def mset_filter [symmetric] by (auto simp: filter_empty_conv)

lemma calm_gone: "calm v iss w w' \<Longrightarrow> owned_by v iss ns sa w = {#} \<Longrightarrow> owned_by v iss ns sa w' = {#}"
  by (metis calm_def subset_mset.le_zero_eq)

lemma tidy_calm:
  assumes "tidy cl iss v w" and "calm v iss w w'"
  shows "tidy cl iss v w'"
proof -
  have sub: "owned_by v iss ns sa w' \<subseteq># owned_by v iss ns sa w" for ns sa
    using assms(2) by (simp add: calm_def)
  have "size (owned_by v iss ns sa w') \<le> 1" for ns sa
    using size_mset_mono [OF sub [of ns sa]] assms(1) by (auto simp: tidy_def intro: le_trans)
  moreover have "held (holders v w') ns sa" if "owned_by v iss ns sa w' \<noteq> {#}" for ns sa
  proof -
    from that sub [of ns sa] have "owned_by v iss ns sa w \<noteq> {#}" by auto
    with assms show ?thesis by (simp add: tidy_def calm_def)
  qed
  ultimately show ?thesis
    using assms by (simp add: tidy_def served_def calm_def)
qed

text \<open>The invariant, and which finalizers are in place.\<close>

definition steady :: "string \<Rightarrow> string \<Rightarrow> 'w views \<Rightarrow> holding \<Rightarrow> 'w \<Rightarrow> bool" where
  "steady cl iss v H w \<longleftrightarrow> tidy cl iss v w \<and> holders v w = H"

lemma calm_steady: "via (calm v iss) m \<Longrightarrow> via (keeping (steady cl iss v H)) m"
  unfolding via_def keeping_def steady_def by (metis calm_def tidy_calm)

end
