(* ===== verification/LifecycleInv.thy ===== *)
theory LifecycleInv
  imports Lifecycle
begin

text \<open>
  Every step of the life cycle keeps its invariant: the calls that are no more than what others
  may do (\<open>calm\<close>), the creation and the deletion of an account, and the updates that add or remove
  a finalizer, each with others acting before and after it.
\<close>

section \<open>Every step keeps the invariant\<close>

lemma get_other: "k' \<noteq> k \<Longrightarrow> get (fmupd k x a) k' = get a k'" "k' \<noteq> k \<Longrightarrow> get (fmdrop k a) k' = get a k'"
  by (simp_all add: get_def)

text \<open>What the controllers write on a service account leaves the switches of the user alone.\<close>

definition keeps_switches :: "(smap \<Rightarrow> smap) \<Rightarrow> bool" where
  "keeps_switches f \<longleftrightarrow> (\<forall>a. get (f a) AnnotationEnabled = get a AnnotationEnabled \<and>
     get (f a) AnnotationDeleteResources = get a AnnotationDeleteResources)"

lemma keeps_switches_well:
  "keeps_switches f \<Longrightarrow> well_annotated (s\<lparr>ksa_Annotations := f (ksa_Annotations s)\<rparr>) \<longleftrightarrow> well_annotated s"
  by (simp add: keeps_switches_def well_annotated_def IsEnabled_def DeleteResources_def)

lemmas annotation_names = AnnotationEnabled_def AnnotationDeleteResources_def AnnotationStatus_def
  AnnotationLastReconcile_def AnnotationLastError_def AnnotationServiceAccountID_def
  AnnotationFederatedIdentityID_def AnnotationProviderID_def AnnotationPolicyID_def
  AnnotationOrganisationID_def AnnotationProjectID_def

lemma switches_kept:
  "keeps_switches (identity_annotations x y z)"
  "keeps_switches (\<lambda>a. status_annotations a st e r t)"
  "keeps_switches (\<lambda>a. snd (clear_loop identity_keys a b))"
proof -
  show "keeps_switches (identity_annotations x y z)"
    by (simp add: keeps_switches_def identity_annotations_def get_other annotation_names Let_def)
  show "keeps_switches (\<lambda>a. status_annotations a st e r t)"
    by (simp add: keeps_switches_def status_annotations_def get_other annotation_names Let_def split: option.split)
  show "keeps_switches (\<lambda>a. snd (clear_loop identity_keys a b))"
    by (simp add: keeps_switches_def clear_loop_get identity_keys_def annotation_names)
qed

context cluster
begin

lemma calm_self: "calm v iss w w"
  by (rule calm.step_refl)

lemma calm_then: "calm v iss u w \<Longrightarrow> calm v iss w x \<Longrightarrow> calm v iss u x"
  by (rule calm.step_trans)

lemma calm_calls [via_intros]:
  "via (calm v iss) (call (ListFederatedIdentityProviders c l))"
  "via (calm v iss) (call (ListServiceAccounts c l))"
  "via (calm v iss) (call (ListFederatedIdentities c l))"
  "via (calm v iss) (call (GetOrganisationRole c i))"
  "via (calm v iss) (call (ListOrganisationRoles c))"
  "via (calm v iss) (call (ListRoleBindings c i))"
  "via (calm v iss) (call (ListIamPolicies c))"
  "via (calm v iss) (call (GetIamPolicy c i))"
  "via (calm v iss) (call (ListIamPolicyBindings c i))"
  "via (calm v iss) (call (CreateFederatedIdentity c fq))"
  "via (calm v iss) (call (UpdateFederatedIdentity c i uq))"
  "via (calm v iss) (call (DeleteFederatedIdentity c i))"
  "via (calm v iss) (call (CreateRoleBinding c i bq))"
  "via (calm v iss) (call (DeleteRoleBinding c i j))"
  "via (calm v iss) (call (CreateIamPolicyBinding c i bq))"
  "via (calm v iss) (call (DeleteIamPolicyBinding c i j))"
  "via (calm v iss) (call (GetServiceAccount k ns n))"
  "via (calm v iss) (call (GetBinding k ns n))"
  "via (calm v iss) (call (UpdateBindingStatus k b))"
  "via (calm v iss) (nowE k)"
  "via (calm v iss) (syncE k cm f)"
  by (simp_all add: via_def quiet_calls calm.via_nowE [unfolded via_def] calm.via_syncE [unfolded via_def])

text \<open>Deleting an account is nothing that others may not do.\<close>

lemma account_gone_calm:
  assumes "account_gone v i ok u x"
  shows "calm v iss u x"
proof -
  from assms have "mset (v_accts v x) \<subseteq># mset (v_accts v u)"
    by (auto simp: account_gone_def mset_filter multiset_filter_subset)
  then have "owned_by v iss ns sa x \<subseteq># owned_by v iss ns sa u" for ns sa
    by (simp add: owned_by_def multiset_filter_mono)
  with assms show ?thesis by (simp add: account_gone_def calm_def holders_def wellformed_def)
qed

lemma calm_delete [via_intros]: "via (calm v iss) (call (DeleteServiceAccount c i))"
proof (rule via_call)
  fix w
  obtain r w' where run: "DeleteServiceAccount c i w = (r, w')" by fastforce
  from account_deleted [OF run] show "calm v iss w (snd (DeleteServiceAccount c i w))"
    by (auto simp: run amid_def dest!: account_gone_calm intro: calm_then)
qed

lemma calm_lookups [via_intros]:
  "via (calm v iss) (findByLabelsSA c l)"
  "via (calm v iss) (findByLabelsFI c l)"
  "via (calm v iss) (resolveIamPolicy c ref)"
  "via (calm v iss) (resolveOrganisationRole c ref)"
  "via (calm v iss) (FindProviderByClusterID c cl)"
  unfolding findByLabelsSA_def findByLabelsFI_def resolveIamPolicy_def resolveOrganisationRole_def
    FindProviderByClusterID_def Let_def
  by (auto intro!: via_intros split: sum.splits option.splits prod.splits)

lemma calm_ensures [via_intros]:
  "via (calm v iss) (ensureFederatedIdentity c p so n sub scopes auds l)"
  "via (calm v iss) (ensurePolicyStep c inp s key l res)"
  "via (calm v iss) (ensureRoleStep c inp s key l)"
  unfolding ensureFederatedIdentity_def ensurePolicyStep_def ensureRoleStep_def ensurePolicyBinding_def
    ensureRoleBinding_def hasPolicyBindingForSA_def hasRoleBindingForSA_def Let_def
  by (auto intro!: via_intros split: sum.splits option.splits)

lemma calm_deletes [via_intros]:
  "via (calm v iss) (deletePolicyStep c ref so)"
  "via (calm v iss) (deleteRoleStep c ref so)"
  unfolding deletePolicyStep_def deleteRoleStep_def deletePolicyBindingForSA_def deleteRoleBindingForSA_def
  by (auto intro!: via_intros split: sum.splits option.splits)

lemma calm_Delete [via_intros]: "via (calm v iss) (DeleteWorkloadIdentity c ns sa i role pol)"
  unfolding DeleteWorkloadIdentity_def Let_def
  by (auto intro!: via_intros split: sum.splits option.splits)

lemma calm_deleteCloudResources [via_intros]:
  "via (calm v iss) (deleteCloudResources c cfg d)"
  "via (calm v iss) (deleteCloudResourcesSA c cfg s)"
  unfolding deleteCloudResources_def deleteCloudResourcesSA_def Let_def
  by (auto intro!: via_intros split: sum.splits option.splits)

subsection \<open>Writing annotations\<close>

text \<open>A write of a service account with the controller's finalizer as it is.\<close>

lemma updates_ksa_quiet:
  assumes "updates_ksa v s x y" and "guarded (v_ksas v x (ksa_Namespace s, ksa_Name s)) = guarded (Some s)"
  shows "v_prov v y = v_prov v x" and "holders v y = holders v x" and "owned_by v iss ns sa y = owned_by v iss ns sa x"
    and "wellformed v x \<Longrightarrow> well_annotated s \<Longrightarrow> wellformed v y"
proof -
  from assms(1) have same: "v_prov v y = v_prov v x" "v_accts v y = v_accts v x" "v_wibs v y = v_wibs v x"
    by (simp_all add: updates_ksa_def)
  from assms(1) consider "v_ksas v y = v_ksas v x"
    | neu where "v_ksas v y = (v_ksas v x)((ksa_Namespace s, ksa_Name s) := neu)"
        "neu = None \<and> ksa_Finalizers s = [] \<or> neu = Some s"
    unfolding updates_ksa_def by blast
  then have "(\<lambda>key. guarded (v_ksas v y key)) = (\<lambda>key. guarded (v_ksas v x key)) \<and>
    (wellformed v x \<longrightarrow> well_annotated s \<longrightarrow> wellformed v y)"
  proof cases
    case 1
    then show ?thesis by (simp add: wellformed_def same)
  next
    case 2
    then have "guarded neu = guarded (Some s)" by (auto simp: guarded_def)
    with 2 assms(2) show ?thesis by (auto simp: fun_eq_iff wellformed_def same split: if_splits)
  qed
  with same show "v_prov v y = v_prov v x" "holders v y = holders v x" "owned_by v iss ns sa y = owned_by v iss ns sa x"
    "wellformed v x \<Longrightarrow> well_annotated s \<Longrightarrow> wellformed v y"
    by (simp_all add: holders_def owned_by_def)
qed

text \<open>
  An account that was read and is written back with other annotations keeps its finalizers,
  although others may have changed it in between.
\<close>

lemma calm_rewrite:
  assumes "GetServiceAccount k ns n w = (Inr s, w1)" and "calm v iss w1 w2" and "keeps_switches f"
  shows "calm v iss w (snd (UpdateServiceAccount k (s\<lparr>ksa_Annotations := f (ksa_Annotations s)\<rparr>) w2))"
proof -
  let ?s = "s\<lparr>ksa_Annotations := f (ksa_Annotations s)\<rparr>"
  from account_read [OF assms(1)] obtain u where names: "ksa_Namespace s = ns" "ksa_Name s = n"
    and u: "calm v iss w u" "calm v iss u w1" "v_ksas v u (ns, n) = Some s"
    by (auto simp: amid_def reads_def)
  obtain r w' where run: "UpdateServiceAccount k ?s w2 = (r, w')" by fastforce
  from account_updated [OF run] obtain x y where xy: "calm v iss w2 x" "updates_ksa v ?s x y" "calm v iss y w'"
    by (auto simp: amid_def)
  from u(2) assms(2) xy(1) have ux: "calm v iss u x" by (blast intro: calm_then)
  have "guarded (v_ksas v x (ns, n)) = guarded (Some s)"
    using ux u(3) by (auto simp: calm_def holders_def fun_eq_iff)
  then have held: "guarded (v_ksas v x (ksa_Namespace ?s, ksa_Name ?s)) = guarded (Some ?s)"
    by (simp add: names guarded_def)
  note quiet = updates_ksa_quiet [OF xy(2) held]
  have wx: "calm v iss w x" by (rule calm_then [OF u(1) ux])
  have "wellformed v w \<Longrightarrow> well_annotated s"
    using u(1,3) unfolding calm_def wellformed_def by blast
  with wx quiet assms(3) have "calm v iss w y"
    by (simp add: calm_def keeps_switches_well)
  from calm_then [OF this xy(3)] show ?thesis by (simp add: run)
qed

lemma via_rewrite:
  assumes "\<And>s. h s = bindE m (\<lambda>y. call (UpdateServiceAccount k (s\<lparr>ksa_Annotations := f y (ksa_Annotations s)\<rparr>)))"
    and "via (calm v iss) m" and "\<And>y. keeps_switches (f y)"
  shows "via (calm v iss) (bindE (call (GetServiceAccount k ns n)) h)"
  unfolding via_def
proof
  fix w
  obtain g w1 where got: "call (GetServiceAccount k ns n) w = (g, w1)" by fastforce
  from viaD [OF calm_calls(17) got] have w1: "calm v iss w w1" .
  show "calm v iss w (snd (bindE (call (GetServiceAccount k ns n)) h w))"
  proof (cases g)
    case (Ok s)
    obtain y w2 where m: "m w1 = (y, w2)" by fastforce
    note w2 = viaD [OF assms(2) m]
    from got Ok have "GetServiceAccount k ns n w = (Inr s, w1)" by (simp add: call_ok)
    from calm_rewrite [OF this w2 assms(3)] calm_then [OF w1 w2] got Ok m show ?thesis
      by (cases y) (simp_all add: bindE_def assms(1))
  qed (use got w1 in \<open>simp_all add: bindE_def\<close>)
qed

lemma bindE_okE [simp]: "bindE (okE x) h = h x"
  by (simp add: fun_eq_iff bindE_def okE_def)

lemma calm_annotate [via_intros]: "via (calm v iss) (annotateServiceAccountIdentity k sa x y z)"
  unfolding annotateServiceAccountIdentity_def
  by (rule via_rewrite [where m = "okE ()" and f = "\<lambda>_. identity_annotations x y z"])
    (simp_all add: calm.via_okE switches_kept)

lemma calm_patchStatus [via_intros]: "via (calm v iss) (patchStatus k sa st e r)"
  unfolding patchStatus_def
  by (rule via_rewrite [where m = "nowE k" and f = "\<lambda>t a. status_annotations a st e r (format_RFC3339 t)"])
    (simp_all add: calm_calls switches_kept)

lemma calm_clear [via_intros]: "via (calm v iss) (clearServiceAccountIdentityAnnotations k ns n)"
  unfolding via_def
proof
  fix w
  obtain g w1 where got: "call (GetServiceAccount k ns n) w = (g, w1)" by fastforce
  from viaD [OF calm_calls(17) got] have w1: "calm v iss w w1" .
  show "calm v iss w (snd (clearServiceAccountIdentityAnnotations k ns n w))"
  proof (cases g)
    case (Ok s)
    from got Ok have "GetServiceAccount k ns n w = (Inr s, w1)" by (simp add: call_ok)
    from calm_rewrite [OF this calm_self switches_kept(3) [of False]] w1 got Ok show ?thesis
      by (auto simp: clearServiceAccountIdentityAnnotations_def tryE_def okE_def split: prod.splits)
  qed (use got w1 in \<open>simp_all add: clearServiceAccountIdentityAnnotations_def tryE_def okE_def failE_def\<close>)
qed

lemma calm_kube [via_intros]:
  "via (calm v iss) (syncIdentityConfigMap k obj d x y z)"
  "via (calm v iss) (patchBindingStatus k obj obs)"
  unfolding syncIdentityConfigMap_def patchBindingStatus_def Let_def
  by (auto intro!: via_intros split: sum.splits prod.splits)

lemma calm_publish [via_intros]: "via (calm v iss) (publishIdentity k cfg obj d sa res)"
  unfolding publishIdentity_def Let_def
  by (auto intro!: via_intros split: sum.splits)

subsection \<open>Making an account\<close>

lemma account_made_steady:
  assumes "steady cl iss v H u" and "account_made v l u x" and "held H ns sa"
    and none: "\<And>ns' sa' s. sa_Labels s = l \<Longrightarrow> owned iss ns' sa' s \<Longrightarrow>
      ns' = ns \<and> sa' = sa \<and> owned_by v iss ns sa u = {#}"
  shows "steady cl iss v H x"
proof -
  from assms(2) have same: "v_prov v x = v_prov v u" "v_wibs v x = v_wibs v u" "v_ksas v x = v_ksas v u"
    by (simp_all add: account_made_def)
  then have H: "holders v x = H" and served: "served cl iss v x"
    using assms(1) by (simp_all add: holders_def steady_def tidy_def served_def wellformed_def)
  have "size (owned_by v iss ns' sa' x) \<le> 1 \<and> (owned_by v iss ns' sa' x \<noteq> {#} \<longrightarrow> held H ns' sa')" for ns' sa'
  proof -
    from assms(2) consider "owned_by v iss ns' sa' x = owned_by v iss ns' sa' u"
      | s where "sa_Labels s = l" "mset (v_accts v x) = add_mset s (mset (v_accts v u))"
      by (auto simp: account_made_def owned_by_def)
    then show ?thesis
    proof cases
      case 1
      with assms(1) show ?thesis by (auto simp: steady_def tidy_def)
    next
      case 2
      show ?thesis
      proof (cases "owned iss ns' sa' s")
        case True
        from none [OF 2(1) True] 2(2) True assms(3) show ?thesis by (simp add: owned_by_def)
      next
        case False
        with 2(2) have "owned_by v iss ns' sa' x = owned_by v iss ns' sa' u" by (simp add: owned_by_def)
        with assms(1) show ?thesis by (auto simp: steady_def tidy_def)
      qed
    qed
  qed
  with H served show ?thesis by (simp add: steady_def tidy_def)
qed

lemma steady_calm: "steady cl iss v H w \<Longrightarrow> calm v iss w w' \<Longrightarrow> steady cl iss v H w'"
  unfolding steady_def by (metis calm_def tidy_calm)

lemma steady_create_account:
  assumes "findByLabelsSA c l w = (Ok None, w1)" and "l = OwnershipLabels key ns sa"
    and "steady cl iss v H w" and "held H ns sa"
  shows "steady cl iss v H (snd (call (CreateServiceAccount c (sa_create_request n sub ns sa l)) w1))"
proof -
  from assms(1) obtain xs where list: "ListServiceAccounts c l w = (Inr xs, w1)"
    and none: "find (\<lambda>s. LabelsMatch (sa_Labels s) l) xs = None"
    by (auto simp: findByLabelsSA_def bindE_ok okE_ok call_ok)
  from accounts_listed [OF list] obtain u where u: "calm v iss w u" "calm v iss u w1"
    and same: "filter (\<lambda>s. LabelsMatch (sa_Labels s) l) xs = filter (\<lambda>s. LabelsMatch (sa_Labels s) l) (v_accts v u)"
    by (auto simp: amid_def reads_def)
  from none have "filter (\<lambda>s. LabelsMatch (sa_Labels s) l) xs = []"
    by (simp add: find_None_iff filter_empty_conv)
  from trans [OF same [symmetric] this] have fresh: "\<forall>s \<in> set (v_accts v u). \<not> LabelsMatch (sa_Labels s) l"
    by (simp add: filter_empty_conv)
  obtain r w' where run: "CreateServiceAccount c (sa_create_request n sub ns sa l) w1 = (r, w')" by fastforce
  from account_created [OF run] obtain x y where xy: "calm v iss w1 x" "account_made v l x y" "calm v iss y w'"
    by (auto simp: amid_def sa_create_request_def)
  have ux: "calm v iss u x" by (rule calm_then [OF u(2) xy(1)])
  have "ns' = ns \<and> sa' = sa \<and> owned_by v iss ns sa x = {#}" if "sa_Labels s = l" "owned iss ns' sa' s" for ns' sa' s
  proof -
    from that have "ns' = ns \<and> sa' = sa \<and> owned_by v iss ns sa u = {#}"
      using fresh
      by (auto simp: owned_by_empty owned_def assms(2) OwnershipLabels_match_eq split: sum.splits)
    with calm_gone [OF ux] show ?thesis by blast
  qed
  moreover have "steady cl iss v H x"
    using assms(3) u(1) ux by (blast intro: steady_calm)
  ultimately have "steady cl iss v H y" using xy(2) assms(4) by (blast intro: account_made_steady)
  with xy(3) show ?thesis by (simp add: run steady_calm)
qed

lemma steady_ensureServiceAccount:
  assumes "l = OwnershipLabels key ns sa" and "held H ns sa"
  shows "via (keeping (steady cl iss v H)) (ensureServiceAccount c n sub ns sa l)"
  unfolding via_def keeping_def
proof (intro allI impI)
  fix w
  assume inv: "steady cl iss v H w"
  obtain r w1 where find: "findByLabelsSA c l w = (r, w1)" by fastforce
  from viaD [OF calm_lookups(1) find] inv have w1: "steady cl iss v H w1" by (simp add: steady_calm)
  show "steady cl iss v H (snd (ensureServiceAccount c n sub ns sa l w))"
  proof (cases "r = Ok None")
    case True
    with steady_create_account [OF _ assms(1) inv assms(2)] find show ?thesis
      by (simp add: ensureServiceAccount_def bindE_def)
  next
    case False
    with w1 find show ?thesis
      by (cases r) (auto simp: ensureServiceAccount_def bindE_def okE_def)
  qed
qed

lemma steady_Ensure:
  assumes "held H (in_Namespace inp) (in_ServiceAccount inp)"
  shows "via (keeping (steady cl iss v H)) (EnsureWorkloadIdentity c inp)"
  unfolding EnsureWorkloadIdentity_def Let_def
  by (auto intro!: keeping.via_checkE keeping.via_bindE keeping.via_failE keeping.via_okE keeping.via_derefE
    steady_ensureServiceAccount [OF refl assms] calm_lookups [THEN calm_steady] calm_ensures [THEN calm_steady]
    split: sum.splits)

subsection \<open>Deleting an account\<close>

lemma matching_labels:
  "matching_providers cl ps =
     filter (\<lambda>p. LabelsMatch (idp_Labels p) (fmap_of_list [(LabelKubernetesClusterID, cl)])) ps"
  unfolding matching_providers_def by (subst LabelsMatch_list) simp_all

lemma provider_is_found:
  assumes "served cl iss v w" and "FindProviderByClusterID c cl w = (r, w')"
  shows "r = Ok p \<Longrightarrow> NormalizeIssuer (idp_ProviderIssuer p) = iss"
    and "r = Err e \<Longrightarrow> asProviderNotReady e = None"
proof -
  let ?l = "fmap_of_list [(LabelKubernetesClusterID, TrimSpace cl)]"
  from assms(1) obtain p0 where p0: "matching_providers (TrimSpace cl) (v_prov v w) = [p0]"
    and iss: "NormalizeIssuer (idp_ProviderIssuer p0) = iss" by (auto simp: served_def)
  have listed: "matching_providers (TrimSpace cl) ps = [p0]"
    if "ListFederatedIdentityProviders c ?l w = (Inr ps, u)" for ps u
    using providers_listed [OF that] p0 by (simp add: matching_labels)
  show "r = Ok p \<Longrightarrow> NormalizeIssuer (idp_ProviderIssuer p) = iss"
    using assms(2) listed iss by (auto simp: FindProvider_ok)
  show "asProviderNotReady e = None" if "r = Err e"
  proof (cases "TrimSpace cl = []")
    case True
    with assms(2) that show ?thesis by (auto simp: FindProviderByClusterID_def failE_def)
  next
    case False
    obtain lr u where run: "ListFederatedIdentityProviders c ?l w = (lr, u)" by fastforce
    show ?thesis
    proof (cases lr)
      case (Inl e')
      with False run assms(2) that show ?thesis
        by (auto simp: FindProviderByClusterID_def Let_def bindE_def call_def)
    next
      case (Inr ps)
      with FindProvider_run [OF False run [unfolded Inr]] listed run assms(2) that show ?thesis by simp
    qed
  qed
qed

text \<open>At some moment of the listing, the account found was the first of the workload.\<close>

lemma owned_listed:
  assumes "findByLabelsSA c l w = (Ok so, w')" and "BuildKubernetesSubject ns sa = Inr sub"
    and "l = OwnershipLabels (ResourceKey ns sa sub iss) ns sa"
  shows "\<exists>u. calm v iss w u \<and> calm v iss u w' \<and>
    (case so of None \<Rightarrow> owned_by v iss ns sa u = {#}
     | Some s \<Rightarrow> s \<in> set (v_accts v u) \<and> owned iss ns sa s)"
proof -
  have own: "owned iss ns sa = (\<lambda>s. LabelsMatch (sa_Labels s) l)"
    by (simp add: fun_eq_iff owned_def assms(2,3))
  from assms(1) obtain xs where list: "ListServiceAccounts c l w = (Inr xs, w')"
    and so: "so = find (\<lambda>s. LabelsMatch (sa_Labels s) l) xs"
    by (auto simp: findByLabelsSA_def bindE_ok okE_ok call_ok)
  from accounts_listed [OF list] obtain u where u: "calm v iss w u" "calm v iss u w'"
    and same: "filter (\<lambda>s. LabelsMatch (sa_Labels s) l) xs = filter (\<lambda>s. LabelsMatch (sa_Labels s) l) (v_accts v u)"
    by (auto simp: amid_def reads_def)
  from same so have "so = (case filter (owned iss ns sa) (v_accts v u) of [] \<Rightarrow> None | x # _ \<Rightarrow> Some x)"
    by (simp add: find_filter own)
  moreover have "x \<in> set (v_accts v u) \<and> owned iss ns sa x" if "filter (owned iss ns sa) (v_accts v u) = x # r" for x r
    using arg_cong [OF that, of "\<lambda>l. x \<in> set l"] by simp
  ultimately have "case so of None \<Rightarrow> owned_by v iss ns sa u = {#}
     | Some s \<Rightarrow> s \<in> set (v_accts v u) \<and> owned iss ns sa s"
    by (cases "filter (owned iss ns sa) (v_accts v u)") (simp_all add: owned_by_empty filter_empty_conv)
  with u show ?thesis by blast
qed

lemma owned_deleted:
  assumes "call (DeleteServiceAccount c (sa_Identity s)) w = (Ok (), w')"
    and "s \<in> set (v_accts v u)" and "owned iss ns sa s" and "size (owned_by v iss ns sa u) \<le> 1"
    and "calm v iss u w"
  shows "owned_by v iss ns sa w' = {#}"
proof -
  from assms(1) have "DeleteServiceAccount c (sa_Identity s) w = (Inr (), w')" by (simp add: call_ok)
  from account_deleted [OF this] obtain x y where xy: "calm v iss w x" "calm v iss y w'"
    and del: "v_accts v y = filter (\<lambda>x. sa_Identity x \<noteq> sa_Identity s) (v_accts v x)"
    by (auto simp: amid_def account_gone_def)
  from assms(2,3) have "s \<in># owned_by v iss ns sa u" by (simp add: owned_by_def)
  with assms(4) have one: "owned_by v iss ns sa u = {#s#}"
    by (metis add_mset_remove_trivial_eq le_zero_eq mset_subset_eq_single size_eq_0_iff_empty size_add_mset
        Suc_le_mono One_nat_def insert_DiffM)
  have "owned_by v iss ns sa x \<subseteq># {#s#}"
    using calm_then [OF assms(5) xy(1)] one unfolding calm_def by metis
  then have "z = s" if "z \<in> set (v_accts v x)" "owned iss ns sa z" for z
  proof -
    from that have "z \<in># owned_by v iss ns sa x" by (simp add: owned_by_def)
    with \<open>owned_by v iss ns sa x \<subseteq># {#s#}\<close> show ?thesis by (auto dest: mset_subset_eqD)
  qed
  with del have "owned_by v iss ns sa y = {#}" by (auto simp: owned_by_empty)
  from calm_gone [OF xy(2) this] show ?thesis .
qed

lemma Delete_clears:
  assumes "tidy cl iss v w"
    and "DeleteWorkloadIdentity c ns sa iss role pol w = (Ok (), w')"
  shows "owned_by v iss ns sa w' = {#}"
proof -
  from assms(2) obtain sub where sub: "BuildKubernetesSubject ns sa = Inr sub"
    by (auto simp: DeleteWorkloadIdentity_def failE_ok split: sum.splits)
  define want where "want = OwnershipLabels (ResourceKey ns sa sub iss) ns sa"
  from assms(2) sub obtain fo w1 w2 so w3 w4 w5 u1 u2 u3 where
    f: "findByLabelsFI c want w = (Ok fo, w1)"
    and df: "(case fo of None \<Rightarrow> okE () | Some f \<Rightarrow> wrapE ''delete federated identity''
      (call (DeleteFederatedIdentity c (fi_Identity f)))) w1 = (Ok u1, w2)"
    and s: "findByLabelsSA c want w2 = (Ok so, w3)"
    and p: "deletePolicyStep c pol so w3 = (Ok u2, w4)"
    and r: "deleteRoleStep c role so w4 = (Ok u3, w5)"
    and ds: "(case so of None \<Rightarrow> okE () | Some s \<Rightarrow> wrapE ''delete service account''
      (call (DeleteServiceAccount c (sa_Identity s)))) w5 = (Ok (), w')"
    by (auto simp: DeleteWorkloadIdentity_def Let_def bindE_ok want_def)
  have "via (calm v iss) (case fo of None \<Rightarrow> okE () | Some f \<Rightarrow>
      wrapE ''delete federated identity'' (call (DeleteFederatedIdentity c (fi_Identity f))))"
    by (auto intro!: via_intros split: option.splits)
  from viaD [OF this df] viaD [OF calm_lookups(2) f] have w2: "calm v iss w w2"
    by (blast intro: calm_then)
  have w5: "calm v iss w3 w5"
    by (rule calm_then [OF viaD [OF calm_deletes(1) p] viaD [OF calm_deletes(2) r]])
  from owned_listed [OF s sub want_def] obtain u where u: "calm v iss w2 u" "calm v iss u w3"
    and found: "case so of None \<Rightarrow> owned_by v iss ns sa u = {#}
      | Some s \<Rightarrow> s \<in> set (v_accts v u) \<and> owned iss ns sa s" by blast
  have u5: "calm v iss u w5" by (rule calm_then [OF u(2) w5])
  show ?thesis
  proof (cases so)
    case None
    with ds found calm_gone [OF u5] show ?thesis by (simp add: okE_ok)
  next
    case (Some x)
    with ds have "call (DeleteServiceAccount c (sa_Identity x)) w5 = (Ok (), w')" by (simp add: wrapE_ok)
    moreover have "tidy cl iss v u" using tidy_calm [OF assms(1) calm_then [OF w2 u(1)]] .
    then have "size (owned_by v iss ns sa u) \<le> 1" by (simp add: tidy_def)
    ultimately show ?thesis using owned_deleted [of x w5 w' u ns sa] found Some u5 by simp
  qed
qed

lemma deleteCloudResources_clears:
  assumes "tidy (cfg_ClusterIdentity cfg) iss v w"
    and "deleteCloudResources c cfg d w = (Ok (), w')"
  shows "owned_by v iss (des_Namespace d) (des_ServiceAccount d) w' = {#}"
proof -
  from assms(1) have served: "served (cfg_ClusterIdentity cfg) iss v w" by (simp add: tidy_def)
  obtain r w1 where find: "FindProviderByClusterID c (cfg_ClusterIdentity cfg) w = (r, w1)" by fastforce
  note got = provider_is_found [OF served find]
  have w1: "tidy (cfg_ClusterIdentity cfg) iss v w1"
    by (rule tidy_calm [OF assms(1) viaD [OF calm_lookups(5) find]])
  show ?thesis
  proof (cases r)
    case (Ok p)
    from served have "iss \<noteq> []" by (simp add: served_def)
    with got(1) [OF Ok] Ok find assms(2) obtain role pol where
      "DeleteWorkloadIdentity c (des_Namespace d) (des_ServiceAccount d) iss role pol w1 = (Ok (), w')"
      by (auto simp: deleteCloudResources_def tryE_def Let_def)
    from Delete_clears [OF w1 this] show ?thesis .
  next
    case (Err e)
    with got(2) find assms(2) show ?thesis by (auto simp: deleteCloudResources_def tryE_def failE_ok)
  next
    case Panic
    with find assms(2) show ?thesis by (auto simp: deleteCloudResources_def tryE_def)
  qed
qed

lemma deleteCloudResourcesSA_clears:
  assumes "tidy (cfg_ClusterIdentity cfg) iss v w"
    and "deleteCloudResourcesSA c cfg s w = (Ok (), w')"
  shows "owned_by v iss (ksa_Namespace s) (ksa_Name s) w' = {#}"
proof -
  from assms(1) have served: "served (cfg_ClusterIdentity cfg) iss v w" by (simp add: tidy_def)
  from assms(2) obtain p w1 where find: "FindProviderByClusterID c (cfg_ClusterIdentity cfg) w = (Ok p, w1)"
    and rest: "NormalizeIssuer (idp_ProviderIssuer p) \<noteq> []"
      "\<exists>role pol. DeleteWorkloadIdentity c (ksa_Namespace s) (ksa_Name s) (NormalizeIssuer (idp_ProviderIssuer p))
        role pol w1 = (Ok (), w')"
    by (auto simp: deleteCloudResourcesSA_def bindE_ok wrapE_ok Let_def failE_ok split: if_splits)
  have w1: "tidy (cfg_ClusterIdentity cfg) iss v w1"
    by (rule tidy_calm [OF assms(1) viaD [OF calm_lookups(5) find]])
  from rest(2) Delete_clears [OF w1] show ?thesis
    using provider_is_found(1) [OF served find refl] by metis
qed

subsection \<open>Adding and removing the finalizers\<close>

text \<open>
  The update that adds or removes a finalizer of an object read before: others have not touched
  this finalizer since. Removing it needs the workload to have no account any more, unless
  something else holds it.
\<close>

lemma tidy_holders:
  assumes "tidy cl iss v u" and "v_prov v x = v_prov v u" "v_accts v x = v_accts v u" and "wellformed v x"
    and "\<And>ns sa. held (holders v u) ns sa \<Longrightarrow> held (holders v x) ns sa \<or> owned_by v iss ns sa u = {#}"
  shows "tidy cl iss v x"
proof -
  have own: "owned_by v iss ns sa x = owned_by v iss ns sa u" for ns sa
    by (simp add: owned_by_def assms(3))
  from assms show ?thesis by (auto simp: tidy_def served_def own)
qed

lemma finalizer_update_wib:
  assumes inv: "tidy cl iss v w" and at: "fst (holders v w) (ns, n) = bound (Some obj)"
    and named: "well_named (ns, n) obj"
    and upd: "call (UpdateBinding k (obj\<lparr>wib_Finalizers := fs\<rparr>)) w = (r, w')"
    and gone: "BindingFinalizerName \<notin> set fs \<Longrightarrow> owned_by v iss ns (wib_ServiceAccountName obj) w = {#}"
  shows "tidy cl iss v w'"
proof -
  let ?b = "obj\<lparr>wib_Finalizers := fs\<rparr>"
  from upd obtain ur where "UpdateBinding k ?b w = (ur, w')"
    by (auto simp: call_def split: prod.splits sum.splits)
  from binding_updated [OF this] obtain x y where xy: "calm v iss w x" "updates_wib v ?b x y" "calm v iss y w'"
    by (auto simp: amid_def)
  note x = tidy_calm [OF inv xy(1)]
  from xy(2) named have same: "v_prov v y = v_prov v x" "v_accts v y = v_accts v x" "v_ksas v y = v_ksas v x"
    and wibs: "v_wibs v y = v_wibs v x \<or> (\<exists>neu. v_wibs v y = (v_wibs v x)((ns, n) := neu) \<and>
      (neu = None \<and> fs = [] \<or> (\<exists>st. neu = Some (?b\<lparr>wib_Status := st\<rparr>))))"
    by (simp_all add: updates_wib_def well_named_def)
  have at_x: "bound (v_wibs v x (ns, n)) = bound (Some obj)"
    using at xy(1) by (auto simp: calm_def holders_def fun_eq_iff)
  show ?thesis
  proof (cases "v_wibs v y = v_wibs v x")
    case True
    with same have "holders v y = holders v x" "wellformed v y \<longleftrightarrow> wellformed v x"
      by (simp_all add: holders_def wellformed_def)
    with x same have "tidy cl iss v y" by (auto simp: tidy_def served_def owned_by_def)
    from tidy_calm [OF this xy(3)] show ?thesis .
  next
    case False
    with wibs obtain neu where neu: "v_wibs v y = (v_wibs v x)((ns, n) := neu)"
      "neu = None \<and> fs = [] \<or> (\<exists>st. neu = Some (?b\<lparr>wib_Status := st\<rparr>))" by blast
    then have new: "bound neu = (if BindingFinalizerName \<in> set fs then Some (wib_ServiceAccountName obj) else None)"
      by (auto simp: bound_def)
    have "tidy cl iss v y"
    proof (rule tidy_holders [OF x same(1,2)])
      have "well_named (ns, n) b'" if "neu = Some b'" for b'
        using neu(2) that named by (auto simp: well_named_def)
      with x neu(1) same show "wellformed v y"
        by (auto simp: tidy_def served_def wellformed_def)
      fix ns' sa
      assume held: "held (holders v x) ns' sa"
      show "held (holders v y) ns' sa \<or> owned_by v iss ns' sa x = {#}"
      proof (cases "BindingFinalizerName \<notin> set fs \<and> ns' = ns \<and> sa = wib_ServiceAccountName obj")
        case True
        with calm_gone [OF xy(1) gone] show ?thesis by simp
      next
        case False
        have "\<exists>n'. bound (v_wibs v y (ns', n')) = Some sa" if n': "bound (v_wibs v x (ns', n')) = Some sa" for n'
        proof (cases "(ns', n') = (ns, n)")
          case True
          with n' at_x have "bound (Some obj) = Some sa" by simp
          then have "sa = wib_ServiceAccountName obj" by (simp add: bound_def split: if_splits)
          with False True have "bound neu = Some sa" by (simp add: new)
          with neu(1) True show ?thesis by (intro exI [of _ n']) simp
        next
          case False
          with neu(1) n' show ?thesis by (intro exI [of _ n']) auto
        qed
        with held same(3) show ?thesis by (auto simp: held_def holders_def)
      qed
    qed
    from tidy_calm [OF this xy(3)] show ?thesis .
  qed
qed

lemma finalizer_update_ksa:
  assumes inv: "tidy cl iss v w" and at: "snd (holders v w) (ns, n) = guarded (Some s)"
    and names: "ksa_Namespace s = ns" "ksa_Name s = n" and well: "well_annotated (s\<lparr>ksa_Finalizers := fs\<rparr>)"
    and upd: "call (UpdateServiceAccount k (s\<lparr>ksa_Finalizers := fs\<rparr>)) w = (r, w')"
    and gone: "FinalizerName \<notin> set fs \<Longrightarrow> owned_by v iss ns n w = {#}"
  shows "tidy cl iss v w'"
proof -
  let ?s = "s\<lparr>ksa_Finalizers := fs\<rparr>"
  from upd obtain ur where "UpdateServiceAccount k ?s w = (ur, w')"
    by (auto simp: call_def split: prod.splits sum.splits)
  from account_updated [OF this] obtain x y where xy: "calm v iss w x" "updates_ksa v ?s x y" "calm v iss y w'"
    by (auto simp: amid_def)
  note x = tidy_calm [OF inv xy(1)]
  from xy(2) names have same: "v_prov v y = v_prov v x" "v_accts v y = v_accts v x" "v_wibs v y = v_wibs v x"
    and ksas: "v_ksas v y = v_ksas v x \<or> (\<exists>neu. v_ksas v y = (v_ksas v x)((ns, n) := neu) \<and>
      (neu = None \<and> fs = [] \<or> neu = Some ?s))"
    by (simp_all add: updates_ksa_def)
  show ?thesis
  proof (cases "v_ksas v y = v_ksas v x")
    case True
    with same have "holders v y = holders v x" "wellformed v y \<longleftrightarrow> wellformed v x"
      by (simp_all add: holders_def wellformed_def)
    with x same have "tidy cl iss v y" by (auto simp: tidy_def served_def owned_by_def)
    from tidy_calm [OF this xy(3)] show ?thesis .
  next
    case False
    with ksas obtain neu where neu: "v_ksas v y = (v_ksas v x)((ns, n) := neu)"
      "neu = None \<and> fs = [] \<or> neu = Some ?s" by blast
    then have new: "guarded neu \<longleftrightarrow> FinalizerName \<in> set fs"
      by (auto simp: guarded_def)
    have "tidy cl iss v y"
    proof (rule tidy_holders [OF x same(1,2)])
      have "well_annotated s'" if "neu = Some s'" for s'
        using neu(2) that well by auto
      with x neu(1) same show "wellformed v y"
        by (auto simp: tidy_def served_def wellformed_def)
      fix ns' sa
      assume held: "held (holders v x) ns' sa"
      show "held (holders v y) ns' sa \<or> owned_by v iss ns' sa x = {#}"
      proof (cases "FinalizerName \<notin> set fs \<and> ns' = ns \<and> sa = n")
        case True
        with calm_gone [OF xy(1) gone] show ?thesis by simp
      next
        case False
        with held same(3) neu(1) new show ?thesis by (auto simp: held_def holders_def)
      qed
    qed
    from tidy_calm [OF this xy(3)] show ?thesis .
  qed
qed

subsection \<open>The reconcilers\<close>

lemma reconcileDeletion_tidy:
  assumes inv: "tidy (cfg_ClusterIdentity cfg) iss v w"
    and at: "fst (holders v w) (ns, n) = bound (Some obj)" and named: "well_named (ns, n) obj"
  shows "tidy (cfg_ClusterIdentity cfg) iss v (snd (reconcileDeletion c k cfg obj (desired_of obj) w))"
    (is "?tidy (snd ?run)")
proof -
  let ?d = "desired_of obj"
  from named have d: "des_Namespace ?d = ns" "des_ServiceAccount ?d = wib_ServiceAccountName obj" "des_DeleteResources ?d"
    by (simp_all add: desired_of_def well_named_def)
  obtain r1 w1 where clear: "clearServiceAccountIdentityAnnotations k (des_Namespace ?d) (des_ServiceAccount ?d) w
      = (r1, w1)" by fastforce
  obtain r2 w2 where del: "deleteCloudResources c cfg ?d w1 = (r2, w2)" by fastforce
  note w1 = viaD [OF calm_clear clear] and w2 = viaD [OF calm_deleteCloudResources(1) del]
  note t1 = tidy_calm [OF inv w1]
  note t2 = tidy_calm [OF t1 w2]
  have at2: "fst (holders v w2) (ns, n) = bound (Some obj)"
    using at w1 w2 by (simp add: calm_def)
  obtain r3 w3 where upd: "call (UpdateBinding k (obj\<lparr>wib_Finalizers :=
      kc_RemoveFinalizer k (wib_Finalizers obj) BindingFinalizerName\<rparr>)) w2 = (r3, w3)" by fastforce
  have t3: "?tidy w3" if "r2 = Ok ()"
    using finalizer_update_wib [OF t2 at2 named upd] deleteCloudResources_clears [OF t1 del [unfolded that]] d by simp
  from t1 t2 t3 show ?thesis
    by (cases r1; cases r2; cases r3)
      (simp_all add: reconcileDeletion_def tryE_def clear del upd d(3) finish_def okE_def)
qed

lemma reconcileBinding_tidy:
  assumes inv: "tidy (cfg_ClusterIdentity cfg) iss v w"
    and at: "fst (holders v w) (ns, n) = bound (Some obj)" and named: "well_named (ns, n) obj"
    and fin: "fin \<longleftrightarrow> kc_ContainsFinalizer k (wib_Finalizers obj) BindingFinalizerName"
  shows "tidy (cfg_ClusterIdentity cfg) iss v (snd (reconcileBinding c k cfg obj (desired_of obj) fin w))"
    (is "?tidy (snd ?run)")
proof -
  consider "wib_Deleting obj" "\<not> fin" | "wib_Deleting obj" fin | "\<not> wib_Deleting obj" "\<not> fin"
    | "\<not> wib_Deleting obj" fin by blast
  then show ?thesis
  proof cases
    case 1
    with inv show ?thesis by (simp add: reconcileBinding_def finish_def okE_def)
  next
    case 2
    with reconcileDeletion_tidy [OF inv at named] show ?thesis by (simp add: reconcileBinding_def)
  next
    case 3
    obtain r w' where upd: "call (UpdateBinding k (obj\<lparr>wib_Finalizers :=
        kc_AddFinalizer k (wib_Finalizers obj) BindingFinalizerName\<rparr>)) w = (r, w')" by fastforce
    have "?tidy w'"
      by (rule finalizer_update_wib [OF inv at named upd]) (use finalizers in \<open>simp add: finalizer_laws_def\<close>)
    with inv 3 upd show ?thesis
      by (cases r) (simp_all add: reconcileBinding_def tryE_def finish_def okE_def)
  next
    case 4
    let ?H = "holders v w" let ?J = "steady (cfg_ClusterIdentity cfg) iss v ?H"
    from inv have J: "?J w" by (simp add: steady_def)
    from 4 fin finalizers have "bound (Some obj) = Some (wib_ServiceAccountName obj)"
      by (simp add: finalizer_laws_def bound_def)
    with at have "held ?H ns (wib_ServiceAccountName obj)" by (auto simp: held_def)
    then have "via (keeping ?J) (EnsureWorkloadIdentity c (desired_input cfg (desired_of obj) scopes))" for scopes
      using named by (intro steady_Ensure) (simp add: desired_input_def desired_of_def well_named_def)
    with 4 have "via (keeping ?J) (reconcileBinding c k cfg obj (desired_of obj) fin)"
      unfolding reconcileBinding_def
      by (auto intro!: keeping.via_tryE keeping.via_okE keeping.via_finish calm_calls(17) [THEN calm_steady]
          calm_publish [THEN calm_steady] split: sum.splits option.splits)
    with J show ?thesis by (simp add: via_def keeping_def steady_def)
  qed
qed

lemma ReconcileBinding_tidy:
  assumes inv: "tidy (cfg_ClusterIdentity cfg) iss v w"
  shows "tidy (cfg_ClusterIdentity cfg) iss v (snd (ReconcileBinding c k cfg ns n w))" (is "?tidy (snd _)")
proof -
  obtain g w1 where got: "call (GetBinding k ns n) w = (g, w1)" by fastforce
  note w1 = tidy_calm [OF inv viaD [OF calm_calls(18) got]]
  show ?thesis
  proof (cases "\<exists>b. g = Ok b \<and> watched cfg (wib_Namespace b)")
    case False
    with got w1 show ?thesis
      by (cases g) (auto simp: ReconcileBinding_def tryE_def okE_def split: if_splits)
  next
    case True
    then obtain b where b: "g = Ok b" "watched cfg (wib_Namespace b)" by blast
    with got have "GetBinding k ns n w = (Inr b, w1)" by (simp add: call_ok)
    from binding_read [OF this] obtain u where u: "calm v iss w u" "calm v iss u w1" "v_wibs v u (ns, n) = Some b"
      by (auto simp: amid_def reads_def)
    from u(2,3) have at: "fst (holders v w1) (ns, n) = bound (Some b)" by (simp add: calm_def holders_def)
    from tidy_calm [OF inv u(1)] u(3) have named: "well_named (ns, n) b"
      by (auto simp: tidy_def served_def wellformed_def)
    let ?fin = "kc_ContainsFinalizer k (wib_Finalizers b) BindingFinalizerName"
    let ?rest = "\<lambda>(result, obs, err). case obs of None \<Rightarrow> okE (result, err)
      | Some obs \<Rightarrow> tryE (patchBindingStatus k b obs) (\<lambda>r. case r of
          Inl statusErr \<Rightarrow> if err = None then okE (no_requeue, Some statusErr) else okE (result, err)
        | Inr _ \<Rightarrow> okE (result, err))"
    have run: "ReconcileBinding c k cfg ns n w = bindE (reconcileBinding c k cfg b (desired_of b) ?fin) ?rest w1"
      using got b by (simp add: ReconcileBinding_def tryE_def)
    have rest: "via (calm v iss) (?rest x)" for x
      by (auto intro!: via_intros split: prod.splits option.splits sum.splits)
    obtain o2 w2 where rec: "reconcileBinding c k cfg b (desired_of b) ?fin w1 = (o2, w2)" by fastforce
    from reconcileBinding_tidy [OF w1 at named refl] rec have w2: "?tidy w2" by simp
    show ?thesis
    proof (cases o2)
      case (Ok x)
      obtain r w' where last: "?rest x w2 = (r, w')" by fastforce
      from tidy_calm [OF w2 viaD [OF rest last]] Ok rec last show ?thesis by (simp add: run bindE_def)
    qed (use w2 rec in \<open>simp_all add: run bindE_def\<close>)
  qed
qed

lemma via_ignoreE: "via (keeping J) m \<Longrightarrow> via (keeping J) h \<Longrightarrow> via (keeping J) (ignoreE m h)"
  unfolding ignoreE_def by (rule keeping.via_tryE)

lemma calm_ignoreE [via_intros]: "via (calm v iss) m \<Longrightarrow> via (calm v iss) h \<Longrightarrow> via (calm v iss) (ignoreE m h)"
  unfolding ignoreE_def by (rule calm.via_tryE)

lemma releaseServiceAccount_tidy:
  assumes inv: "tidy (cfg_ClusterIdentity cfg) iss v w"
    and at: "snd (holders v w) (ksa_Namespace s, ksa_Name s) = guarded (Some s)"
    and well: "well_annotated s" "FinalizerName \<in> set (ksa_Finalizers s)"
  shows "tidy (cfg_ClusterIdentity cfg) iss v (snd (releaseServiceAccount c k cfg s w))" (is "?tidy (snd _)")
proof -
  from well have wants: "DeleteResources (ksa_Annotations s)" by (simp add: well_annotated_def)
  obtain r1 w1 where del: "deleteCloudResourcesSA c cfg s w = (r1, w1)" by fastforce
  note w1 = viaD [OF calm_deleteCloudResources(2) del]
  note t1 = tidy_calm [OF inv w1]
  let ?fs = "kc_RemoveFinalizer k (ksa_Finalizers s) FinalizerName"
  show ?thesis
  proof (cases r1)
    case (Ok x)
    obtain r2 w2 where upd: "call (UpdateServiceAccount k (s\<lparr>ksa_Finalizers := ?fs\<rparr>)) w1 = (r2, w2)" by fastforce
    from at w1 have at1: "snd (holders v w1) (ksa_Namespace s, ksa_Name s) = guarded (Some s)"
      by (simp add: calm_def)
    from del Ok have "deleteCloudResourcesSA c cfg s w = (Ok (), w1)" by simp
    note gone = deleteCloudResourcesSA_clears [OF inv this]
    have "well_annotated (s\<lparr>ksa_Finalizers := ?fs\<rparr>)" using wants by (simp add: well_annotated_def)
    from finalizer_update_ksa [OF t1 at1 refl refl this upd gone] have "?tidy w2" .
    with Ok del upd wants show ?thesis
      by (cases r2) (simp_all add: releaseServiceAccount_def dropFinalizer_def tryE_def okE_def)
  next
    case (Err e)
    let ?m = "ignoreE (patchStatus k s StatusError (Error e) None) (okE (no_requeue, Some e))"
    have quiet: "via (calm v iss) ?m" by (intro via_intros)
    obtain r2 w2 where m: "?m w1 = (r2, w2)" by fastforce
    from tidy_calm [OF t1 viaD [OF quiet m]] Err del wants m show ?thesis
      by (simp add: releaseServiceAccount_def tryE_def)
  next
    case Panic
    with del wants t1 show ?thesis by (simp add: releaseServiceAccount_def tryE_def)
  qed
qed

lemma ensureAnnotated_steady:
  assumes "held H (ksa_Namespace s) (ksa_Name s)"
  shows "via (keeping (steady cl iss v H)) (ensureAnnotated c k cfg s)"
  unfolding ensureAnnotated_def Let_def
  by (auto intro!: via_ignoreE keeping.via_tryE keeping.via_okE calm_patchStatus [THEN calm_steady] steady_Ensure
      simp: annotation_input_def assms split: sum.splits option.splits)

lemma ReconcileServiceAccount_tidy:
  assumes inv: "tidy (cfg_ClusterIdentity cfg) iss v w"
  shows "tidy (cfg_ClusterIdentity cfg) iss v (snd (ReconcileServiceAccount c k cfg ns n w))" (is "?tidy (snd _)")
proof -
  obtain g w1 where got: "call (GetServiceAccount k ns n) w = (g, w1)" by fastforce
  note w1 = tidy_calm [OF inv viaD [OF calm_calls(17) got]]
  show ?thesis
  proof (cases g)
    case (Ok s)
    with got have "GetServiceAccount k ns n w = (Inr s, w1)" by (simp add: call_ok)
    from account_read [OF this] obtain u where names: "ksa_Namespace s = ns" "ksa_Name s = n"
      and u: "calm v iss w u" "calm v iss u w1" "v_ksas v u (ns, n) = Some s"
      by (auto simp: amid_def reads_def)
    from u(2,3) have at: "snd (holders v w1) (ns, n) = guarded (Some s)" by (simp add: calm_def holders_def)
    from tidy_calm [OF inv u(1)] u(3) have well: "well_annotated s"
      by (auto simp: tidy_def served_def wellformed_def)
    have has: "kc_ContainsFinalizer k fs f \<longleftrightarrow> f \<in> set fs" "set (kc_AddFinalizer k fs f) = insert f (set fs)" for fs f
      using finalizers by (simp_all add: finalizer_laws_def)
    have release: "?tidy (snd (releaseServiceAccount c k cfg s w1))" if "FinalizerName \<in> set (ksa_Finalizers s)"
      using releaseServiceAccount_tidy [OF w1 _ well that] at by (simp add: names)
    have add: "?tidy (snd (call (UpdateServiceAccount k (s\<lparr>ksa_Finalizers :=
        kc_AddFinalizer k (ksa_Finalizers s) FinalizerName\<rparr>)) w1))" if "IsEnabled (ksa_Annotations s)"
      by (rule finalizer_update_ksa [OF w1 at names _ prod.collapse [symmetric]])
        (use that well in \<open>simp_all add: well_annotated_def has\<close>)
    have ensure: "?tidy (snd (ensureAnnotated c k cfg s w1))" if "FinalizerName \<in> set (ksa_Finalizers s)"
    proof -
      from at that have "held (holders v w1) (ksa_Namespace s) (ksa_Name s)"
        by (simp add: held_def names guarded_def)
      from ensureAnnotated_steady [OF this, of "cfg_ClusterIdentity cfg" cfg] w1 show ?thesis
        unfolding via_def keeping_def steady_def by blast
    qed
    have "ReconcileServiceAccount c k cfg ns n w =
      (if cfg_WatchNamespaces cfg \<noteq> [] \<and> \<not> contains (cfg_WatchNamespaces cfg) (ksa_Namespace s) then okE (no_requeue, None)
       else if ksa_Deleting s then
         (if FinalizerName \<notin> set (ksa_Finalizers s) then okE (no_requeue, None) else releaseServiceAccount c k cfg s)
       else if \<not> IsEnabled (ksa_Annotations s) then
         (if FinalizerName \<in> set (ksa_Finalizers s) then releaseServiceAccount c k cfg s else okE (no_requeue, None))
       else if FinalizerName \<notin> set (ksa_Finalizers s) then
         tryE (call (UpdateServiceAccount k (s\<lparr>ksa_Finalizers :=
             kc_AddFinalizer k (ksa_Finalizers s) FinalizerName\<rparr>)))
           (\<lambda>r. case r of Inl err \<Rightarrow> okE (no_requeue, Some err)
            | Inr _ \<Rightarrow> okE (\<lparr>rr_Requeue = True, rr_RequeueAfter = 0\<rparr>, None))
       else ensureAnnotated c k cfg s) w1"
      using got Ok by (simp add: ReconcileServiceAccount_def tryE_def has Let_def)
    moreover have "snd (tryE m (\<lambda>r. case r of Inl e \<Rightarrow> okE (a e) | Inr _ \<Rightarrow> okE b) w1) = snd (m w1)" for m :: "(unit, 'w) prog" and a and b :: "reconcile_result \<times> error option"
      by (simp add: tryE_def okE_def split: prod.splits result.splits)
    ultimately show ?thesis
      using w1 release add ensure by (simp add: okE_def)
  qed (use got w1 in \<open>simp_all add: ReconcileServiceAccount_def tryE_def okE_def\<close>)
qed

lemma lifecycle_tidy:
  assumes "lifecycle c k cfg v iss w"
  shows "tidy (cfg_ClusterIdentity cfg) iss v w"
  using assms
proof induction
  case (start w)
  then have "owned_by v iss ns sa w = {#}" for ns sa by (simp add: owned_by_empty)
  with start show ?case by (simp add: tidy_def)
next
  case (user w w')
  then show ?case by (blast intro: tidy_calm)
next
  case (binding w ns n)
  then show ?case by (blast intro: ReconcileBinding_tidy)
next
  case (account w ns n)
  then show ?case by (blast intro: ReconcileServiceAccount_tidy)
qed

end

end
