(* ===== verification/Meddling.thy ===== *)
theory Meddling
  imports LifecycleInv
begin

text \<open>
  Others acting in the middle of a reconciliation, as clients: the world carries a script of
  edits, and every call performs the next edit before it and one more after it, as long as the
  edit is one that others may make. The clients of any cluster stay those of a cluster then.
\<close>

type_synonym 'w scripted = "'w \<times> ('w \<Rightarrow> 'w) list"

definition act :: "('w \<Rightarrow> 'w \<Rightarrow> bool) \<Rightarrow> 'w scripted \<Rightarrow> 'w scripted" where
  "act E p = (case p of (w, []) \<Rightarrow> (w, []) | (w, e # es) \<Rightarrow> (if E w (e w) then e w else w, es))"

definition meddle :: "('w \<Rightarrow> 'w \<Rightarrow> bool) \<Rightarrow> ('w \<Rightarrow> 'r \<times> 'w) \<Rightarrow> 'w scripted \<Rightarrow> 'r \<times> 'w scripted" where
  "meddle E f p =
     (case act E p of (w, es) \<Rightarrow>
      case f w of (r, w) \<Rightarrow> (r, act E (w, es)))"

definition meddled_iam :: "('w \<Rightarrow> 'w \<Rightarrow> bool) \<Rightarrow> 'w iam_client \<Rightarrow> 'w scripted iam_client" where
  "meddled_iam E c = \<lparr>
     ic_consts = ic_consts c,
     ListFederatedIdentityProviders = (\<lambda>l. meddle E (ListFederatedIdentityProviders c l)),
     ListServiceAccounts = (\<lambda>l. meddle E (ListServiceAccounts c l)),
     CreateServiceAccount = (\<lambda>q. meddle E (CreateServiceAccount c q)),
     DeleteServiceAccount = (\<lambda>i. meddle E (DeleteServiceAccount c i)),
     ListFederatedIdentities = (\<lambda>l. meddle E (ListFederatedIdentities c l)),
     CreateFederatedIdentity = (\<lambda>q. meddle E (CreateFederatedIdentity c q)),
     UpdateFederatedIdentity = (\<lambda>i q. meddle E (UpdateFederatedIdentity c i q)),
     DeleteFederatedIdentity = (\<lambda>i. meddle E (DeleteFederatedIdentity c i)),
     GetOrganisationRole = (\<lambda>i. meddle E (GetOrganisationRole c i)),
     ListOrganisationRoles = meddle E (ListOrganisationRoles c),
     ListRoleBindings = (\<lambda>i. meddle E (ListRoleBindings c i)),
     CreateRoleBinding = (\<lambda>i q. meddle E (CreateRoleBinding c i q)),
     DeleteRoleBinding = (\<lambda>i j. meddle E (DeleteRoleBinding c i j)),
     ListIamPolicies = meddle E (ListIamPolicies c),
     GetIamPolicy = (\<lambda>i. meddle E (GetIamPolicy c i)),
     ListIamPolicyBindings = (\<lambda>i. meddle E (ListIamPolicyBindings c i)),
     CreateIamPolicyBinding = (\<lambda>i q. meddle E (CreateIamPolicyBinding c i q)),
     DeleteIamPolicyBinding = (\<lambda>i j. meddle E (DeleteIamPolicyBinding c i j))\<rparr>"

definition meddled_kube :: "('w \<Rightarrow> 'w \<Rightarrow> bool) \<Rightarrow> 'w kube_client \<Rightarrow> 'w scripted kube_client" where
  "meddled_kube E k = \<lparr>
     GetServiceAccount = (\<lambda>ns n. meddle E (GetServiceAccount k ns n)),
     UpdateServiceAccount = (\<lambda>s. meddle E (UpdateServiceAccount k s)),
     GetBinding = (\<lambda>ns n. meddle E (GetBinding k ns n)),
     UpdateBinding = (\<lambda>b. meddle E (UpdateBinding k b)),
     UpdateBindingStatus = (\<lambda>b. meddle E (UpdateBindingStatus k b)),
     CreateOrUpdateConfigMap = (\<lambda>cm f. meddle E (CreateOrUpdateConfigMap k cm f)),
     kc_SetOwner = kc_SetOwner k,
     kc_ContainsFinalizer = kc_ContainsFinalizer k,
     kc_AddFinalizer = kc_AddFinalizer k,
     kc_RemoveFinalizer = kc_RemoveFinalizer k,
     kc_now = meddle E (kc_now k)\<rparr>"

definition first_views :: "'w views \<Rightarrow> 'w scripted views" where
  "first_views v = \<lparr>v_prov = v_prov v \<circ> fst, v_accts = v_accts v \<circ> fst, v_wibs = v_wibs v \<circ> fst,
     v_ksas = v_ksas v \<circ> fst\<rparr>"

lemma first_calm [simp]: "calm (first_views v) iss p q \<longleftrightarrow> calm v iss (fst p) (fst q)"
  by (simp add: calm_def holders_def wellformed_def owned_by_def first_views_def)

lemma act_calm: "calm v iss (fst p) (fst (act (calm v iss) p))"
  by (simp add: act_def calm.step_refl split: prod.splits list.splits)

lemma meddle_run:
  assumes "meddle (calm v iss) f p = (r, q)"
  shows "\<exists>w w'. f w = (r, w') \<and> calm v iss (fst p) w \<and> calm v iss w' (fst q)"
proof -
  obtain w es where a: "act (calm v iss) p = (w, es)" by fastforce
  obtain r' w' where f: "f w = (r', w')" by fastforce
  from assms a f have "r' = r" and q: "q = act (calm v iss) (w', es)" by (simp_all add: meddle_def)
  with f act_calm [of v iss p] act_calm [of v iss "(w', es)"] a show ?thesis by auto
qed

lemma meddle_calm:
  assumes "\<And>w. calm v iss w (snd (f w))"
  shows "calm v iss (fst p) (fst (snd (meddle (calm v iss) f p)))"
proof -
  obtain r q where run: "meddle (calm v iss) f p = (r, q)" by (rule prod.exhaust)
  from meddle_run [OF run] obtain w w' where w: "f w = (r, w')" "calm v iss (fst p) w" "calm v iss w' (fst q)" by blast
  from assms [of w] w(1) have "calm v iss w w'" by simp
  from calm.step_trans [OF w(2) calm.step_trans [OF this w(3)]] show ?thesis by (simp add: run)
qed

text \<open>What happens amid a call happens amid the meddled call.\<close>

lemma meddle_amid:
  assumes "meddle (calm v iss) f p = (r, q)" and "\<And>w w'. f w = (r, w') \<Longrightarrow> amid (calm v iss) A w w'"
    and "\<And>u x. A u x \<Longrightarrow> B (u, []) (x, [])"
  shows "amid (calm (first_views v) iss) B p q"
proof -
  from meddle_run [OF assms(1)] obtain w w' where w: "f w = (r, w')" "calm v iss (fst p) w" "calm v iss w' (fst q)" by blast
  from assms(2) [OF w(1)] obtain u x where ux: "calm v iss w u" "A u x" "calm v iss x w'"
    by (auto simp: amid_def)
  have "calm v iss (fst p) u" "calm v iss x (fst q)"
    by (rule calm.step_trans [OF w(2) ux(1)], rule calm.step_trans [OF ux(3) w(3)])
  with assms(3) [OF ux(2)] show ?thesis
    unfolding amid_def by (intro exI [of _ "(u, [])"] exI [of _ "(x, [])"]) simp
qed

lemma first_effects:
  "account_made v l u x \<Longrightarrow> account_made (first_views v) l (u, []) (x, [])"
  "account_gone v i ok u x \<Longrightarrow> account_gone (first_views v) i ok (u, []) (x, [])"
  "updates_wib v b u x \<Longrightarrow> updates_wib (first_views v) b (u, []) (x, [])"
  "updates_ksa v s u x \<Longrightarrow> updates_ksa (first_views v) s (u, []) (x, [])"
  by (simp_all add: account_made_def account_gone_def updates_wib_def updates_ksa_def first_views_def)

lemma meddled_sel [simp]:
  "ListFederatedIdentityProviders (meddled_iam E c) l = meddle E (ListFederatedIdentityProviders c l)"
  "ListServiceAccounts (meddled_iam E c) l = meddle E (ListServiceAccounts c l)"
  "CreateServiceAccount (meddled_iam E c) q = meddle E (CreateServiceAccount c q)"
  "DeleteServiceAccount (meddled_iam E c) i = meddle E (DeleteServiceAccount c i)"
  "GetBinding (meddled_kube E k) ns n = meddle E (GetBinding k ns n)"
  "GetServiceAccount (meddled_kube E k) ns n = meddle E (GetServiceAccount k ns n)"
  "UpdateBinding (meddled_kube E k) b = meddle E (UpdateBinding k b)"
  "UpdateServiceAccount (meddled_kube E k) s = meddle E (UpdateServiceAccount k s)"
  by (simp_all add: meddled_iam_def meddled_kube_def)

lemma first_reads:
  assumes "reads v P u x" and "P u \<longleftrightarrow> Q (u, [])"
  shows "reads (first_views v) Q (u, []) (x, [])"
  using assms by (auto simp: reads_def)

theorem meddled_cluster:
  assumes "cluster c k v iss"
  shows "cluster (meddled_iam (calm v iss) c) (meddled_kube (calm v iss) k) (first_views v) iss"
    (is "cluster ?c ?k ?v iss")
proof
  note quiet = cluster.quiet_calls [OF assms]
  fix p q l i j ns n b s cm f fq uq bq cq r xs ps ur sr dr
  show "calm ?v iss p (snd (ListFederatedIdentityProviders ?c l p))"
    "calm ?v iss p (snd (ListServiceAccounts ?c l p))"
    "calm ?v iss p (snd (ListFederatedIdentities ?c l p))"
    "calm ?v iss p (snd (GetOrganisationRole ?c i p))"
    "calm ?v iss p (snd (ListOrganisationRoles ?c p))"
    "calm ?v iss p (snd (ListRoleBindings ?c i p))"
    "calm ?v iss p (snd (ListIamPolicies ?c p))"
    "calm ?v iss p (snd (GetIamPolicy ?c i p))"
    "calm ?v iss p (snd (ListIamPolicyBindings ?c i p))"
    "calm ?v iss p (snd (CreateFederatedIdentity ?c fq p))"
    "calm ?v iss p (snd (UpdateFederatedIdentity ?c i uq p))"
    "calm ?v iss p (snd (DeleteFederatedIdentity ?c i p))"
    "calm ?v iss p (snd (CreateRoleBinding ?c i bq p))"
    "calm ?v iss p (snd (DeleteRoleBinding ?c i j p))"
    "calm ?v iss p (snd (CreateIamPolicyBinding ?c i bq p))"
    "calm ?v iss p (snd (DeleteIamPolicyBinding ?c i j p))"
    "calm ?v iss p (snd (GetServiceAccount ?k ns n p))"
    "calm ?v iss p (snd (GetBinding ?k ns n p))"
    "calm ?v iss p (snd (UpdateBindingStatus ?k b p))"
    "calm ?v iss p (snd (CreateOrUpdateConfigMap ?k cm f p))"
    "calm ?v iss p (snd (kc_now ?k p))"
    by (simp_all add: meddled_iam_def meddled_kube_def meddle_calm quiet)
  show "finalizer_laws ?k"
    using cluster.finalizers [OF assms] by (simp add: finalizer_laws_def meddled_kube_def)
  show "filter (\<lambda>p. LabelsMatch (idp_Labels p) l) ps = filter (\<lambda>p. LabelsMatch (idp_Labels p) l) (v_prov ?v p)"
    if "ListFederatedIdentityProviders ?c l p = (Inr ps, q)"
  proof -
    from meddle_run [OF that [unfolded meddled_sel]] obtain w w' where
      w: "ListFederatedIdentityProviders c l w = (Inr ps, w')" "calm v iss (fst p) w" by blast
    from cluster.providers_listed [OF assms w(1)] w(2) show ?thesis by (simp add: calm_def first_views_def)
  qed
  show "amid (calm ?v iss) (reads ?v (\<lambda>u. filter (\<lambda>s. LabelsMatch (sa_Labels s) l) xs =
      filter (\<lambda>s. LabelsMatch (sa_Labels s) l) (v_accts ?v u))) p q"
    if "ListServiceAccounts ?c l p = (Inr xs, q)"
  proof (rule meddle_amid [OF that [unfolded meddled_sel]])
    show "amid (calm v iss) (reads v (\<lambda>u. filter (\<lambda>s. LabelsMatch (sa_Labels s) l) xs =
        filter (\<lambda>s. LabelsMatch (sa_Labels s) l) (v_accts v u))) w w'"
      if "ListServiceAccounts c l w = (Inr xs, w')" for w w' by (rule cluster.accounts_listed [OF assms that])
  qed (rule first_reads, assumption, simp add: first_views_def)
  show "amid (calm ?v iss) (account_made ?v (csa_Labels cq)) p q" if "CreateServiceAccount ?c cq p = (r, q)"
    by (rule meddle_amid [OF that [unfolded meddled_sel]], erule cluster.account_created [OF assms], erule first_effects(1))
  show "amid (calm ?v iss) (account_gone ?v i (dr = Inr ())) p q" if "DeleteServiceAccount ?c i p = (dr, q)"
    by (rule meddle_amid [OF that [unfolded meddled_sel]], erule cluster.account_deleted [OF assms], erule first_effects(2))
  show "amid (calm ?v iss) (reads ?v (\<lambda>u. v_wibs ?v u (ns, n) = Some b)) p q" if "GetBinding ?k ns n p = (Inr b, q)"
  proof (rule meddle_amid [OF that [unfolded meddled_sel]])
    show "amid (calm v iss) (reads v (\<lambda>u. v_wibs v u (ns, n) = Some b)) w w'"
      if "GetBinding k ns n w = (Inr b, w')" for w w' by (rule cluster.binding_read [OF assms that])
  qed (rule first_reads, assumption, simp add: first_views_def)
  show "ksa_Namespace s = ns \<and> ksa_Name s = n \<and> amid (calm ?v iss) (reads ?v (\<lambda>u. v_ksas ?v u (ns, n) = Some s)) p q"
    if "GetServiceAccount ?k ns n p = (Inr s, q)"
  proof (intro conjI)
    from meddle_run [OF that [unfolded meddled_sel]] obtain w w' where "GetServiceAccount k ns n w = (Inr s, w')"
      by blast
    from cluster.account_read [OF assms this] show "ksa_Namespace s = ns" "ksa_Name s = n" by simp_all
    show "amid (calm ?v iss) (reads ?v (\<lambda>u. v_ksas ?v u (ns, n) = Some s)) p q"
    proof (rule meddle_amid [OF that [unfolded meddled_sel]])
      show "amid (calm v iss) (reads v (\<lambda>u. v_ksas v u (ns, n) = Some s)) w w'"
        if "GetServiceAccount k ns n w = (Inr s, w')" for w w' using cluster.account_read [OF assms that] by simp
    qed (rule first_reads, assumption, simp add: first_views_def)
  qed
  show "amid (calm ?v iss) (updates_wib ?v b) p q" if "UpdateBinding ?k b p = (ur, q)"
    by (rule meddle_amid [OF that [unfolded meddled_sel]], erule cluster.binding_updated [OF assms], erule first_effects(3))
  show "amid (calm ?v iss) (updates_ksa ?v s) p q" if "UpdateServiceAccount ?k s p = (sr, q)"
    by (rule meddle_amid [OF that [unfolded meddled_sel]], erule cluster.account_updated [OF assms], erule first_effects(4))
qed

end
