(* ===== verification/KeptAccounts.thy ===== *)
theory KeptAccounts
  imports Steps BindingController EnsureStore
begin

text \<open>
  What a reconciliation of a binding does to accounts of other workloads, in a cluster where
  nobody else touches the accounts meanwhile. Any call may return an error here too.
\<close>

definition same :: "('w \<Rightarrow> 'a) \<Rightarrow> 'w \<Rightarrow> 'w \<Rightarrow> bool" where
  "same view w w' \<longleftrightarrow> view w' = view w"

interpretation same: transitions "same view" for view
  by unfold_locales (simp_all add: same_def)

locale account_store =
  fixes c :: "'w iam_client" and k :: "'w kube_client"
    and vsas :: "'w \<Rightarrow> ServiceAccount list"
    and vwibs :: "'w \<Rightarrow> string \<times> string \<Rightarrow> WorkloadIdentityBinding option"
  assumes others_leave:
      "vsas (snd (ListFederatedIdentityProviders c l w)) = vsas w"
      "vsas (snd (ListServiceAccounts c l w)) = vsas w"
      "vsas (snd (ListFederatedIdentities c l w)) = vsas w"
      "vsas (snd (GetOrganisationRole c i w)) = vsas w"
      "vsas (snd (ListOrganisationRoles c w)) = vsas w"
      "vsas (snd (ListRoleBindings c i w)) = vsas w"
      "vsas (snd (ListIamPolicies c w)) = vsas w"
      "vsas (snd (GetIamPolicy c i w)) = vsas w"
      "vsas (snd (ListIamPolicyBindings c i w)) = vsas w"
      "vsas (snd (CreateFederatedIdentity c fq w)) = vsas w"
      "vsas (snd (UpdateFederatedIdentity c i uq w)) = vsas w"
      "vsas (snd (DeleteFederatedIdentity c i w)) = vsas w"
      "vsas (snd (CreateRoleBinding c i bq w)) = vsas w"
      "vsas (snd (DeleteRoleBinding c i j w)) = vsas w"
      "vsas (snd (CreateIamPolicyBinding c i bq w)) = vsas w"
      "vsas (snd (DeleteIamPolicyBinding c i j w)) = vsas w"
      "vsas (snd (GetServiceAccount k ns n w)) = vsas w"
      "vsas (snd (UpdateServiceAccount k sa w)) = vsas w"
      "vsas (snd (GetBinding k ns n w)) = vsas w"
      "vsas (snd (UpdateBindingStatus k b w)) = vsas w"
      "vsas (snd (CreateOrUpdateConfigMap k cm f w)) = vsas w"
      "vsas (snd (kc_now k w)) = vsas w"
      "vsas (snd (UpdateBinding k b w)) = vsas w"
    and accounts_listed: "ListServiceAccounts c l w = (Inr xs, w') \<Longrightarrow>
      filter (\<lambda>s. LabelsMatch (sa_Labels s) l) xs = filter (\<lambda>s. LabelsMatch (sa_Labels s) l) (vsas w)"
    and account_created: "CreateServiceAccount c q w = (r, w') \<Longrightarrow> set (vsas w) \<subseteq> set (vsas w')"
    and account_deleted: "DeleteServiceAccount c i w = (dr, w') \<Longrightarrow>
      vsas w' = filter (\<lambda>s. sa_Identity s \<noteq> i) (vsas w) \<or> vsas w' = vsas w"
    and binding_read: "GetBinding k ns n w = (Inr b, w') \<Longrightarrow> vwibs w (ns, n) = Some b"
begin

lemma same_calls [via_intros]:
  "via (same vsas) (call (ListFederatedIdentityProviders c l))"
  "via (same vsas) (call (ListServiceAccounts c l))"
  "via (same vsas) (call (ListFederatedIdentities c l))"
  "via (same vsas) (call (GetOrganisationRole c i))"
  "via (same vsas) (call (ListOrganisationRoles c))"
  "via (same vsas) (call (ListRoleBindings c i))"
  "via (same vsas) (call (ListIamPolicies c))"
  "via (same vsas) (call (GetIamPolicy c i))"
  "via (same vsas) (call (ListIamPolicyBindings c i))"
  "via (same vsas) (call (CreateFederatedIdentity c fq))"
  "via (same vsas) (call (UpdateFederatedIdentity c i uq))"
  "via (same vsas) (call (DeleteFederatedIdentity c i))"
  "via (same vsas) (call (CreateRoleBinding c i bq))"
  "via (same vsas) (call (DeleteRoleBinding c i j))"
  "via (same vsas) (call (CreateIamPolicyBinding c i bq))"
  "via (same vsas) (call (DeleteIamPolicyBinding c i j))"
  "via (same vsas) (call (GetServiceAccount k ns n))"
  "via (same vsas) (call (UpdateServiceAccount k sa))"
  "via (same vsas) (call (GetBinding k ns n))"
  "via (same vsas) (call (UpdateBindingStatus k b))"
  "via (same vsas) (call (UpdateBinding k b))"
  "via (same vsas) (nowE k)"
  "via (same vsas) (syncE k cm f)"
  by (simp_all add: via_def same_def others_leave same.via_nowE [unfolded via_def same_def]
      same.via_syncE [unfolded via_def same_def])

lemma same_lookups [via_intros]:
  "via (same vsas) (findByLabelsSA c l)"
  "via (same vsas) (findByLabelsFI c l)"
  "via (same vsas) (resolveIamPolicy c ref)"
  "via (same vsas) (resolveOrganisationRole c ref)"
  "via (same vsas) (FindProviderByClusterID c cl)"
  unfolding findByLabelsSA_def findByLabelsFI_def resolveIamPolicy_def resolveOrganisationRole_def
    FindProviderByClusterID_def Let_def
  by (auto intro!: via_intros split: sum.splits option.splits prod.splits)

lemma same_ensures [via_intros]:
  "via (same vsas) (ensureFederatedIdentity c p so n sub scopes auds l)"
  "via (same vsas) (ensurePolicyStep c inp s key l res)"
  "via (same vsas) (ensureRoleStep c inp s key l)"
  "via (same vsas) (deletePolicyStep c ref so)"
  "via (same vsas) (deleteRoleStep c ref so)"
  unfolding ensureFederatedIdentity_def ensurePolicyStep_def ensureRoleStep_def ensurePolicyBinding_def
    ensureRoleBinding_def hasPolicyBindingForSA_def hasRoleBindingForSA_def
    deletePolicyStep_def deleteRoleStep_def deletePolicyBindingForSA_def deleteRoleBindingForSA_def Let_def
  by (auto intro!: via_intros split: sum.splits option.splits)

lemma same_kube [via_intros]:
  "via (same vsas) (clearServiceAccountIdentityAnnotations k ns n)"
  "via (same vsas) (patchBindingStatus k obj obs)"
  "via (same vsas) (publishIdentity k cfg obj d sa res)"
  unfolding clearServiceAccountIdentityAnnotations_def annotateServiceAccountIdentity_def publishIdentity_def
    syncIdentityConfigMap_def patchBindingStatus_def Let_def
  by (auto intro!: via_intros split: sum.splits prod.splits)

lemma ReconcileBinding_run:
  assumes "ReconcileBinding c k cfg ns n w = (r, w')"
  shows "same vsas w w' \<or> (\<exists>b w1 fin. vwibs w (ns, n) = Some b \<and>
    fin = kc_ContainsFinalizer k (wib_Finalizers b) BindingFinalizerName \<and> same vsas w w1 \<and>
    same vsas (snd (reconcileBinding c k cfg b (desired_of b) fin w1)) w')"
proof -
  obtain g w1 where got: "call (GetBinding k ns n) w = (g, w1)" by fastforce
  note f1 = viaD [OF same_calls(19) got]
  show ?thesis
  proof (cases "\<exists>b. g = Ok b \<and> watched cfg (wib_Namespace b)")
    case False
    with got assms have "w' = w1"
      by (cases g) (auto simp: ReconcileBinding_def tryE_def okE_def split: if_splits)
    with f1 show ?thesis by simp
  next
    case True
    then obtain b where b: "g = Ok b" "watched cfg (wib_Namespace b)" by blast
    with got have "GetBinding k ns n w = (Inr b, w1)" by (simp add: call_ok)
    note read = binding_read [OF this]
    let ?fin = "kc_ContainsFinalizer k (wib_Finalizers b) BindingFinalizerName"
    let ?rest = "\<lambda>(result, obs, err). case obs of None \<Rightarrow> okE (result, err)
      | Some obs \<Rightarrow> tryE (patchBindingStatus k b obs) (\<lambda>r. case r of
          Inl statusErr \<Rightarrow> if err = None then okE (no_requeue, Some statusErr) else okE (result, err)
        | Inr _ \<Rightarrow> okE (result, err))"
    have run: "ReconcileBinding c k cfg ns n w = bindE (reconcileBinding c k cfg b (desired_of b) ?fin) ?rest w1"
      using got b by (simp add: ReconcileBinding_def tryE_def)
    have rest: "via (same vsas) (?rest x)" for x
      by (auto intro!: via_intros split: prod.splits option.splits sum.splits)
    obtain o2 w2 where rec: "reconcileBinding c k cfg b (desired_of b) ?fin w1 = (o2, w2)" by fastforce
    have "same vsas w2 w'"
    proof (cases o2)
      case (Ok x)
      with assms rec have "?rest x w2 = (r, w')" by (simp add: run bindE_def)
      with viaD [OF rest this] show ?thesis by simp
    qed (use assms rec in \<open>simp_all add: run bindE_def same_def\<close>)
    with read f1 rec show ?thesis by (metis snd_conv)
  qed
qed

subsection \<open>Accounts of other workloads\<close>

lemma keeping_bindE_known:
  assumes "via (keeping J) m" and "\<And>x w w'. J w \<Longrightarrow> m w = (Ok x, w') \<Longrightarrow> via (keeping J) (h x)"
  shows "via (keeping J) (bindE m h)"
  unfolding via_def keeping_def
proof (intro allI impI)
  fix w assume "J w"
  obtain r v where run: "m w = (r, v)" by fastforce
  from viaD [OF assms(1) run] \<open>J w\<close> have "J v" by (simp add: keeping_def)
  with assms(2) [OF \<open>J w\<close>] run show "J (snd (bindE m h w))"
    by (cases r) (auto simp: bindE_def via_def keeping_def)
qed

text \<open>The account \<open>s\<close> is stored, and told apart by its identity.\<close>

definition stored :: "ServiceAccount \<Rightarrow> 'w \<Rightarrow> bool" where
  "stored s w \<longleftrightarrow> distinct (map sa_Identity (vsas w)) \<and> s \<in> set (vsas w)"

lemma same_stored:
  "via (same vsas) m \<Longrightarrow> via (keeping (stored s)) m"
  "via (same vsas) m \<Longrightarrow> via (keeping (\<lambda>w. s \<in> set (vsas w))) m"
  unfolding via_def keeping_def stored_def same_def by auto

lemma create_stored: "via (keeping (\<lambda>w. s \<in> set (vsas w))) (call (CreateServiceAccount c q))"
  using account_created by (intro via_call) (metis keeping_def prod.collapse subsetD)

lemma delete_stored:
  assumes "get (sa_Labels s) LabelK8sServiceAccount \<noteq> name"
  shows "via (keeping (stored s)) (DeleteWorkloadIdentity c ns name iss role pol)"
proof -
  have other: "via (keeping (stored s)) (call (DeleteServiceAccount c (sa_Identity x)))"
    if "findByLabelsSA c (OwnershipLabels key ns name) w = (Ok (Some x), w')" "stored s w" for key x w w'
  proof (cases "sa_Identity x = sa_Identity s")
    case False
    have "stored s (snd (DeleteServiceAccount c (sa_Identity x) v))" if "stored s v" for v
      using that False account_deleted [OF prod.collapse [symmetric], of "sa_Identity x" v]
      by (auto simp: stored_def distinct_map_filter)
    then show ?thesis by (simp add: via_def keeping_def)
  next
    case True
    from that(1) obtain xs where list: "ListServiceAccounts c (OwnershipLabels key ns name) w = (Inr xs, w')"
      and found: "find (\<lambda>s. LabelsMatch (sa_Labels s) (OwnershipLabels key ns name)) xs = Some x"
      by (auto simp: findByLabelsSA_def bindE_ok okE_ok call_ok)
    from find_Some_in [OF found]
    have "x \<in> set (filter (\<lambda>s. LabelsMatch (sa_Labels s) (OwnershipLabels key ns name)) xs)" by simp
    then have x: "x \<in> set (vsas w)" "LabelsMatch (sa_Labels x) (OwnershipLabels key ns name)"
      unfolding accounts_listed [OF list] by simp_all
    with that(2) True have "x = s" by (auto simp: stored_def distinct_map inj_on_def)
    with x assms show ?thesis by (simp add: LabelsMatch_ownership)
  qed
  show ?thesis
    unfolding DeleteWorkloadIdentity_def Let_def
    by (auto intro!: keeping.via_bindE keeping.via_okE keeping.via_failE keeping.via_wrapE
        keeping_bindE_known [where m = "findByLabelsSA c x" for x]
        same_lookups [THEN same_stored(1)] same_ensures [THEN same_stored(1)]
        same_calls(12) [THEN same_stored(1)] other split: sum.splits option.splits)
qed


lemma reconcile_stored:
  assumes "get (sa_Labels s) LabelK8sServiceAccount \<noteq> wib_ServiceAccountName b"
    and "stored s w"
  shows "s \<in> set (vsas (snd (reconcileBinding c k cfg b (desired_of b) fin w)))"
proof (cases "wib_Deleting b")
  case True
  have name: "des_ServiceAccount (desired_of b) = wib_ServiceAccountName b" by (simp add: desired_of_def)
  have "via (keeping (stored s)) (deleteCloudResources c cfg (desired_of b))"
    unfolding deleteCloudResources_def Let_def name
    by (auto simp: assms(1) intro!: keeping.via_tryE keeping.via_okE keeping.via_failE delete_stored
        same_lookups [THEN same_stored(1)] split: sum.splits option.splits)
  then have "via (keeping (stored s)) (reconcileBinding c k cfg b (desired_of b) fin)"
    unfolding reconcileBinding_def reconcileDeletion_def
    by (auto simp: True intro!: keeping.via_tryE keeping.via_okE keeping.via_finish same_calls(21) [THEN same_stored(1)]
        same_kube(1) [THEN same_stored(1)] split: sum.splits)
  with assms(2) show ?thesis by (simp add: via_def keeping_def stored_def)
next
  case False
  have "via (keeping (\<lambda>w. s \<in> set (vsas w))) (EnsureWorkloadIdentity c inp)" for inp
    unfolding EnsureWorkloadIdentity_def ensureServiceAccount_def Let_def
    by (auto intro!: keeping.via_checkE keeping.via_bindE keeping.via_failE keeping.via_okE keeping.via_derefE
        create_stored same_lookups [THEN same_stored(2)] same_ensures [THEN same_stored(2)]
        split: sum.splits option.splits)
  with False have "via (keeping (\<lambda>w. s \<in> set (vsas w))) (reconcileBinding c k cfg b (desired_of b) fin)"
    unfolding reconcileBinding_def
    by (auto intro!: keeping.via_tryE keeping.via_okE keeping.via_finish same_calls(21) [THEN same_stored(2)]
        same_calls(17) [THEN same_stored(2)] same_kube(3) [THEN same_stored(2)]
        split: sum.splits option.splits)
  with assms(2) show ?thesis by (simp add: via_def keeping_def stored_def)
qed

lemma other_account_kept:
  assumes "vwibs w (ns, n) = Some b" and "stored s w"
    and "get (sa_Labels s) LabelK8sServiceAccount \<noteq> wib_ServiceAccountName b"
  shows "s \<in> set (vsas (snd (ReconcileBinding c k cfg ns n w)))"
proof -
  obtain r w' where run: "ReconcileBinding c k cfg ns n w = (r, w')" by fastforce
  from ReconcileBinding_run [OF run] show ?thesis
  proof (elim disjE exE conjE)
    fix b' w1 fin
    assume "vwibs w (ns, n) = Some b'" and f: "same vsas w w1"
        "same vsas (snd (reconcileBinding c k cfg b' (desired_of b') fin w1)) w'"
    with assms(1) have "b' = b" by simp
    with reconcile_stored [OF assms(3), of w1] assms(2) f show ?thesis
      by (simp add: run stored_def same_def)
  qed (use assms(2) in \<open>simp add: run stored_def same_def\<close>)
qed

end

end
