(* ===== verification/LifecycleProps.thy ===== *)
theory LifecycleProps
  imports Meddling KeptAccounts BindingReady
begin

text \<open>
  The properties of the life cycle of a cluster, and the in-memory APIs as an instance of the
  interfaces they rest on, also with others acting between their calls.
\<close>

section \<open>The in-memory APIs as such a cluster\<close>

lemma fake_update_keeps:
  "fakeUpdateFederatedIdentity i uq w = (r, v) \<Longrightarrow> providers v = providers w \<and> sas v = sas w"
  by (auto simp: fakeUpdateFederatedIdentity_def Let_def split: option.splits prod.splits)

definition mem_views :: "world views" where
  "mem_views = \<lparr>v_prov = (\<lambda>w. providers (w_iam w)), v_accts = (\<lambda>w. sas (w_iam w)), v_wibs = w_wibs,
     v_ksas = (\<lambda>w (ns, n). map_option (\<lambda>s. s\<lparr>ksa_Namespace := ns, ksa_Name := n\<rparr>) (w_sas w (ns, n)))\<rparr>"

lemma mem_views_sel [simp]:
  "v_prov mem_views w = providers (w_iam w)" "v_accts mem_views w = sas (w_iam w)" "v_wibs mem_views w = w_wibs w"
  "v_ksas mem_views w (ns, n) = map_option (\<lambda>s. s\<lparr>ksa_Namespace := ns, ksa_Name := n\<rparr>) (w_sas w (ns, n))"
  by (simp_all add: mem_views_def)

lemma amid_now: "A w w' \<Longrightarrow> amid (calm v iss) A w w'"
  unfolding amid_def by (intro exI [of _ w] exI [of _ w'] conjI calm.step_refl)

text \<open>A call that changes nothing that is viewed.\<close>

lemma calm_mem:
  assumes "providers (w_iam w') = providers (w_iam w)" "sas (w_iam w') = sas (w_iam w)" "w_sas w' = w_sas w"
    and wibs: "\<And>key. w_wibs w' key = w_wibs w key \<or>
      (\<exists>b st. w_wibs w key = Some b \<and> w_wibs w' key = Some (b\<lparr>wib_Status := st\<rparr>))"
  shows "calm mem_views iss w w'"
proof -
  have "bound (w_wibs w' key) = bound (w_wibs w key)" for key
    using wibs [of key] by (auto simp: bound_def)
  moreover have "v_ksas mem_views w' = v_ksas mem_views w"
    by (auto simp: fun_eq_iff assms(3))
  moreover have "well_named key b'" if "w_wibs w' key = Some b'" "wellformed mem_views w" for key b'
  proof -
    from that(2) have "w_wibs w key = Some b \<Longrightarrow> well_named key b" for b
      by (cases key) (auto simp: wellformed_def)
    with wibs [of key] that(1) show ?thesis by (auto simp: well_named_def)
  qed
  ultimately show ?thesis
    using assms(1,2) by (auto simp: calm_def holders_def owned_by_def wellformed_def)
qed

lemma calm_iam:
  "providers v = providers (w_iam w) \<Longrightarrow> sas v = sas (w_iam w) \<Longrightarrow> calm mem_views iss w (w\<lparr>w_iam := v\<rparr>)"
  by (rule calm_mem) simp_all

lemma calm_status:
  assumes "w_wibs w key = Some b"
  shows "calm mem_views iss w (w\<lparr>w_wibs := (w_wibs w)(key \<mapsto> b\<lparr>wib_Status := st\<rparr>)\<rparr>)"
  by (rule calm_mem) (use assms in auto)

interpretation mem: cluster "lift_iam (fake_client k)" fake_cluster mem_views iss for k iss
proof
  fix w w' l i j ns n b cm f fq uq bq cq s xs ps r ur sr dr
  let ?c = "lift_iam (fake_client k)" and ?k = fake_cluster
  show "finalizer_laws ?k" by (rule fake_cluster_laws)
  show "calm mem_views iss w (snd (ListFederatedIdentityProviders ?c l w))"
    "calm mem_views iss w (snd (ListServiceAccounts ?c l w))"
    "calm mem_views iss w (snd (ListFederatedIdentities ?c l w))"
    "calm mem_views iss w (snd (GetOrganisationRole ?c i w))"
    "calm mem_views iss w (snd (ListOrganisationRoles ?c w))"
    "calm mem_views iss w (snd (ListRoleBindings ?c i w))"
    "calm mem_views iss w (snd (ListIamPolicies ?c w))"
    "calm mem_views iss w (snd (GetIamPolicy ?c i w))"
    "calm mem_views iss w (snd (ListIamPolicyBindings ?c i w))"
    "calm mem_views iss w (snd (CreateFederatedIdentity ?c fq w))"
    "calm mem_views iss w (snd (UpdateFederatedIdentity ?c i uq w))"
    "calm mem_views iss w (snd (DeleteFederatedIdentity ?c i w))"
    "calm mem_views iss w (snd (CreateRoleBinding ?c i bq w))"
    "calm mem_views iss w (snd (DeleteRoleBinding ?c i j w))"
    "calm mem_views iss w (snd (CreateIamPolicyBinding ?c i bq w))"
    "calm mem_views iss w (snd (DeleteIamPolicyBinding ?c i j w))"
    by (auto dest: fake_update_keeps simp: lift_iam_def on_iam_def fake_ops Let_def intro!: calm_iam calm.step_refl
        split: prod.splits option.splits)
  show "calm mem_views iss w (snd (GetServiceAccount ?k ns n w))"
    "calm mem_views iss w (snd (GetBinding ?k ns n w))"
    "calm mem_views iss w (snd (UpdateBindingStatus ?k b w))"
    "calm mem_views iss w (snd (CreateOrUpdateConfigMap ?k cm f w))"
    "calm mem_views iss w (snd (kc_now ?k w))"
    by (auto simp: fake_cluster_def Let_def intro!: calm_status calm.step_refl calm_mem [where w' = "w\<lparr>w_cms := x\<rparr>" for x]
      calm_mem [where w' = "w\<lparr>w_clock := x\<rparr>" for x] split: option.splits sum.splits)
  show "filter (\<lambda>p. LabelsMatch (idp_Labels p) l) ps = filter (\<lambda>p. LabelsMatch (idp_Labels p) l) (v_prov mem_views w)"
    if "ListFederatedIdentityProviders ?c l w = (Inr ps, w')"
    using that by (auto simp: lift_iam_def on_iam_def)
  show "amid (calm mem_views iss) (reads mem_views (\<lambda>u. filter (\<lambda>s. LabelsMatch (sa_Labels s) l) xs =
      filter (\<lambda>s. LabelsMatch (sa_Labels s) l) (v_accts mem_views u))) w w'"
    if "ListServiceAccounts ?c l w = (Inr xs, w')"
    using that by (intro amid_now) (auto simp: lift_iam_def on_iam_def reads_def)
  show "amid (calm mem_views iss) (account_made mem_views (csa_Labels cq)) w w'" if "CreateServiceAccount ?c cq w = (r, w')"
    using that by (intro amid_now) (auto simp: lift_iam_def on_iam_def fake_ops account_made_def fun_eq_iff Let_def)
  show "amid (calm mem_views iss) (account_gone mem_views i (dr = Inr ())) w w'" if "DeleteServiceAccount ?c i w = (dr, w')"
    using that by (intro amid_now) (auto simp: lift_iam_def on_iam_def fake_ops account_gone_def fun_eq_iff)
  show "amid (calm mem_views iss) (reads mem_views (\<lambda>u. v_wibs mem_views u (ns, n) = Some b)) w w'"
    if "GetBinding ?k ns n w = (Inr b, w')"
    using that by (intro amid_now) (auto simp: reads_def split: option.splits)
  show "ksa_Namespace s = ns \<and> ksa_Name s = n \<and>
      amid (calm mem_views iss) (reads mem_views (\<lambda>u. v_ksas mem_views u (ns, n) = Some s)) w w'"
    if "GetServiceAccount ?k ns n w = (Inr s, w')"
    using that by (auto simp: reads_def intro!: amid_now split: option.splits)
  show "amid (calm mem_views iss) (updates_wib mem_views b) w w'" if "UpdateBinding ?k b w = (ur, w')"
    using that by (intro amid_now) (auto simp: fake_cluster_def updates_wib_def fun_eq_iff split: option.splits if_splits)
  show "amid (calm mem_views iss) (updates_ksa mem_views s) w w'" if "UpdateServiceAccount ?k s w = (sr, w')"
    using that by (intro amid_now) (auto simp: fake_cluster_def updates_ksa_def fun_eq_iff split: option.splits)
qed

interpretation still: account_store "lift_iam (fake_client k)" fake_cluster "\<lambda>w. sas (w_iam w)" w_wibs for k
  by unfold_locales (auto dest: fake_update_keeps simp: lift_iam_def on_iam_def fake_ops fake_cluster_def Let_def
    split: option.splits sum.splits prod.splits if_splits)

text \<open>The same with others who follow a script, between any two steps of a call.\<close>

interpretation busy: cluster "meddled_iam (calm mem_views iss) (lift_iam (fake_client k))"
    "meddled_kube (calm mem_views iss) fake_cluster" "first_views mem_views" iss for k iss
  by (rule meddled_cluster) (rule mem.cluster_axioms)

section \<open>A concrete life cycle\<close>

definition demo_issuer :: string where
  "demo_issuer = ''https://oidc.example''"

abbreviation "demo_lifecycle \<equiv>
  lifecycle (lift_iam demo_client) fake_cluster demo_config mem_views demo_issuer"

lemma demo_served: "served (cfg_ClusterIdentity demo_config) demo_issuer mem_views demo_world"
proof -
  have "TrimSpace (cfg_ClusterIdentity demo_config) = ''k8s-1''" by (simp add: demo_config_def demo_trim)
  moreover have "matching_providers ''k8s-1'' (providers (w_iam demo_world)) = [demo_provider]"
    by (simp add: matching_providers_def demo_world_def demo_iam_def demo_provider_def)
  moreover have "NormalizeIssuer (idp_ProviderIssuer demo_provider) = demo_issuer"
    by (simp add: demo_provider_def demo_issuer_def demo_facts)
  moreover have "well_annotated (demo_ksa\<lparr>ksa_Namespace := ns, ksa_Name := n\<rparr>)" for ns n
    by (simp add: well_annotated_def demo_ksa_def IsEnabled_def get_def annotation_names FinalizerName_def)
  ultimately show ?thesis
    by (auto simp: served_def demo_issuer_def demo_world_def well_named_def demo_binding_def wellformed_def
        split: if_splits)
qed

lemma demo_starts: "demo_lifecycle demo_world"
  by (rule lifecycle.start [OF demo_served]) (simp add: demo_world_def demo_iam_def)

definition demo_reconciled :: world where
  "demo_reconciled = snd (ReconcileBinding (lift_iam demo_client) fake_cluster demo_config ''ns'' ''b'' demo_world)"

lemma demo_reconciled_accounts: "sas (w_iam demo_reconciled) = sas demo_after"
proof -
  let ?F = "same (\<lambda>w. sas (w_iam w))"
  obtain v where rec: "reconcileBinding (lift_iam demo_client) fake_cluster demo_config demo_binding
      (desired_of demo_binding) True demo_world = (Ok (no_requeue, Some demo_ready, None), v)"
    using demo_reconcile by blast
  from viaD [OF still.same_kube(3) rec [unfolded demo_reaches_publish]]
  have v: "sas (w_iam v) = sas demo_after" by (simp add: same_def)
  let ?h = "\<lambda>r. case r of Inl e \<Rightarrow> okE (no_requeue, Some e) | Inr (_ :: unit) \<Rightarrow> okE (no_requeue, None)"
  have "via ?F (tryE (patchBindingStatus fake_cluster demo_binding demo_ready) ?h)"
    by (auto intro!: same.via_tryE same.via_okE still.same_kube(2) split: sum.splits)
  then have last: "?F v (snd (tryE (patchBindingStatus fake_cluster demo_binding demo_ready) ?h v))"
    by (simp add: via_def)
  have "ReconcileBinding (lift_iam demo_client) fake_cluster demo_config ''ns'' ''b'' demo_world =
      tryE (patchBindingStatus fake_cluster demo_binding demo_ready) ?h v"
  proof -
    have "GetBinding fake_cluster ''ns'' ''b'' demo_world = (Inr demo_binding, demo_world)"
      by (simp add: demo_world_def)
    moreover have "watched demo_config (wib_Namespace demo_binding)" by (simp add: watched_def demo_config_def)
    moreover have "kc_ContainsFinalizer fake_cluster (wib_Finalizers demo_binding) BindingFinalizerName"
      by (simp add: demo_binding_def)
    ultimately show ?thesis
      by (simp add: ReconcileBinding_def tryE_run(1) call_run(1) bindE_run(1) [where m = "reconcileBinding a b c d e f" for a b c d e f, OF rec]
          del: fake_cluster_sel)
  qed
  with last v show ?thesis by (simp add: demo_reconciled_def same_def)
qed

lemma demo_account_owned: "\<exists>s \<in> set (sas demo_after). owned demo_issuer ''ns'' ''app'' s"
proof -
  from fk.ensured_facts [OF fk.ensure_ok [OF demo_run]]
  have "\<exists>s \<in> set (sas demo_after). LabelsMatch (sa_Labels s) (result_labels demo_input demo_result)"
    by (auto simp: demo_no_fis)
  then show ?thesis
    by (simp add: owned_def demo_facts demo_issuer_def result_labels_def demo_input_def demo_result_def demo_key_def)
qed

section \<open>Properties\<close>



text \<open>
  C34: an account made under another name stays. With nobody else at work, a reconciliation of a binding, also of one that
  is being deleted, keeps every stored account labelled for another service account. This keeps
  workloads apart, but also means that editing \<^verbatim>\<open>serviceAccountName\<close> of a binding leaves the
  account of the old name behind: no later reconciliation of the binding removes it.
\<close>

theorem renamed_binding_leaves_account:
  assumes "account_store c k vsas vwibs" and "vwibs w (ns, n) = Some b"
    and "s \<in> set (vsas w)" and "distinct (map sa_Identity (vsas w))"
    and "get (sa_Labels s) LabelK8sServiceAccount \<noteq> wib_ServiceAccountName b"
  shows "s \<in> set (vsas (snd (ReconcileBinding c k cfg ns n w)))"
  using account_store.other_account_kept [OF assms(1,2) _ assms(5)] assms(3,4)
  by (simp add: account_store.stored_def [OF assms(1)])

definition renamed_binding :: WorkloadIdentityBinding where
  "renamed_binding = demo_binding\<lparr>wib_ServiceAccountName := ''app2'', wib_Deleting := True\<rparr>"

definition renamed_world :: world where
  "renamed_world = demo_world\<lparr>w_iam := demo_owned, w_wibs := [(''ns'', ''b'') \<mapsto> renamed_binding]\<rparr>"

theorem renamed_binding_leaves_account_witness:
  "demo_sa \<in> set (sas (w_iam (snd (ReconcileBinding (lift_iam demo_client) fake_cluster demo_config ''ns'' ''b''
     renamed_world))))"
proof (rule renamed_binding_leaves_account [OF still.account_store_axioms])
  show "w_wibs renamed_world (''ns'', ''b'') = Some renamed_binding" by (simp add: renamed_world_def)
qed (simp_all add: renamed_world_def renamed_binding_def demo_binding_def demo_owned_def demo_sa_def
    demo_other_sa_def demo_labels_def)

end
