(* ===== verification/ConfigProps.thy ===== *)
theory ConfigProps
  imports BindingReconcile Startup
begin

text \<open>
  The properties of the parts without effects: allow lists, subjects, keys, names, scopes, the
  identity ConfigMap, and what a process that has started can rely on.
\<close>

section \<open>References and scopes\<close>

text \<open>
  The allow list check as one condition: it passes for a blank reference or an unset list,
  and otherwise exactly when some entry that is not blank equals, up to case and surrounding
  space, the reference or one of the names it resolved to; a list of blank entries allows
  nothing.
\<close>

theorem allowlist_decision:
  "(CheckRefAllowlist kind ref allowlist resolved = None) =
     (TrimSpace ref = [] \<or> allowlist = [] \<or>
      (\<exists>a \<in> set allowlist. \<exists>c \<in> set (ref # resolved).
         TrimSpace a \<noteq> [] \<and> EqualFold (TrimSpace a) (TrimSpace c)))"
  by (auto simp: CheckRefAllowlist_None RefAllowed_iff)

text \<open>
  Parsing scopes on every branch: an error exactly when some name that is not blank is
  unknown (the wildcard is never known), and otherwise the names without repetition, in the
  order of their first occurrence, or \<^verbatim>\<open>openid\<close> alone when there are none.
\<close>

theorem parse_scopes_spec:
  "case ParseScopeList k parts of
     Inl e \<Rightarrow> \<not> list_all (scope_ok k) (scope_names parts)
   | Inr r \<Rightarrow> list_all (scope_ok k) (scope_names parts) \<and> r \<noteq> [] \<and> distinct r \<and>
       (if scope_names parts = [] then r = [AccessCredentialsScopeOpenID]
        else set r = set (scope_names parts) \<and> subseq r (scope_names parts))"
proof (cases "ParseScopeList k parts")
  case (Inl e)
  then show ?thesis using ParseScopeList_returns [of k parts] by simp
next
  case (Inr r)
  then show ?thesis using ParseScopeList_returns [of k parts] ParseScopeList_result [OF Inr] by auto
qed

text \<open>
  Round trip: a list of distinct known scope names, joined with commas, parses to itself.
\<close>

theorem scopes_roundtrip:
  assumes "rs \<noteq> []" and "distinct rs" and "list_all (scope_ok k) rs" and "list_all plain_scope rs"
  shows "ParseScopes k (Join rs CHR '','') = Inr rs"
  using assms by (rule ParseScopes_Join)

definition scope_consts :: iam_consts where
  "scope_consts = \<lparr>
     AccessCredentialsScopeAPIRead = ''api:read'', AccessCredentialsScopeAPIWrite = ''api:write'',
     AccessCredentialsScopeKubernetes = ''kubernetes'',
     AccessCredentialsScopeObjectStorage = ''objectstorage'', AudienceMatchModeAny = ''any''\<rparr>"

theorem scopes_roundtrip_witness:
  "ParseScopes scope_consts (Join [''api:read'', ''openid''] CHR '','') = Inr [''api:read'', ''openid'']"
proof (rule scopes_roundtrip)
  show "list_all (scope_ok scope_consts) [''api:read'', ''openid'']"
    by (simp add: scope_ok_def scope_consts_def knownScope_def AccessCredentialsScopeOpenID_def)
  show "list_all plain_scope [''api:read'', ''openid'']" by code_simp
qed simp_all

section \<open>Keys and names\<close>

text \<open>
  C31: the text under the resource key identifies the workload: when two workloads have subjects
  and the same text is hashed for them, they have the same namespace, account and normalised
  issuer. Namespaces have no colon and names no newline.
\<close>

theorem key_identifies_workload:
  assumes "BuildKubernetesSubject ns sa = Inr sub" and "BuildKubernetesSubject ns' sa' = Inr sub'"
    and "key_input ns sa sub iss = key_input ns' sa' sub' iss'"
    and "CHR '':'' \<notin> set ns" and "CHR '':'' \<notin> set ns'"
    and "CHR 0x0A \<notin> set (ns @ sa)" and "CHR 0x0A \<notin> set (ns' @ sa')"
  shows "TrimSpace ns = TrimSpace ns' \<and> TrimSpace sa = TrimSpace sa' \<and> sub = sub' \<and>
    NormalizeIssuer iss = NormalizeIssuer iss'"
proof -
  from assms(1,2) have sub: "sub = ''system:serviceaccount:'' @ TrimSpace ns @ '':'' @ TrimSpace sa"
    "sub' = ''system:serviceaccount:'' @ TrimSpace ns' @ '':'' @ TrimSpace sa'"
    and slash: "CHR ''/'' \<notin> set (TrimSpace ns)" "CHR ''/'' \<notin> set (TrimSpace ns')"
    by (simp_all add: BuildKubernetesSubject_ok)
  have trim: "CHR 0x0A \<notin> set (TrimSpace s)" if "CHR 0x0A \<notin> set s" for s
    using that set_TrimSpace by blast
  have "CHR 0x0A \<notin> set (TrimSpace ns @ TrimSpace sa @ sub)"
    using assms(6) trim [of ns] trim [of sa] by (auto simp: sub)
  moreover have "CHR 0x0A \<notin> set (TrimSpace ns' @ TrimSpace sa' @ sub')"
    using assms(7) trim [of ns'] trim [of sa'] by (auto simp: sub)
  ultimately show ?thesis using key_input_inject [OF assms(3) slash] by blast
qed

theorem key_identifies_workload_witness:
  "\<exists>sub. BuildKubernetesSubject ''ns'' ''app'' = Inr sub \<and>
    (TrimSpace ''ns'' = TrimSpace ''ns'' \<and> TrimSpace ''app'' = TrimSpace '' app '' \<and> sub = sub \<and>
     NormalizeIssuer ''https://idp'' = NormalizeIssuer ''https://idp/'')"
proof -
  have s: "BuildKubernetesSubject ''ns'' ''app'' = Inr ''system:serviceaccount:ns:app''"
    "BuildKubernetesSubject ''ns'' '' app '' = Inr ''system:serviceaccount:ns:app''" by code_simp+
  have k: "key_input ''ns'' ''app'' ''system:serviceaccount:ns:app'' ''https://idp'' =
      key_input ''ns'' '' app '' ''system:serviceaccount:ns:app'' ''https://idp/''" by code_simp
  from key_identifies_workload [OF s k] s show ?thesis by simp
qed

text \<open>
  C32: bounds and ownership: a resource key is 16 hexadecimal digits, generated names have at
  most 200 bytes, the name of a binding at most 63, and the ownership labels of two workloads
  match only when key, namespace and account are the same.
\<close>

theorem names_bounded:
  "length (ResourceKey ns sa sub iss) = 16 \<and>
   set (ResourceKey ns sa sub iss) \<subseteq> set ''0123456789abcdef'' \<and>
   length (fst (DefaultResourceNames key override)) \<le> 200 \<and>
   length (snd (DefaultResourceNames key override)) \<le> 200 \<and>
   length (cb_Name (role_binding_request s key labels)) \<le> 63 \<and>
   length (cb_Name (policy_binding_request s key labels)) \<le> 63 \<and>
   LabelsMatch (OwnershipLabels key ns sa) (OwnershipLabels key' ns' sa') = (key = key' \<and> ns = ns' \<and> sa = sa')"
  using ResourceKey_digits
  by (simp add: DefaultResourceNames_bound role_binding_request_def policy_binding_request_def
      length_truncate_to OwnershipLabels_match_eq)

text \<open>
  The identity ConfigMap: it is written only with an organisation and a service account,
  which it then carries trimmed under their keys, the project only when there is one, and
  nothing else.
\<close>

theorem identity_configmap_content:
  "(ValidateIdentityConfigMapData (IdentityConfigMapData o' s p) = None) =
     (TrimSpace o' \<noteq> [] \<and> TrimSpace s \<noteq> []) \<and>
   fmlookup (IdentityConfigMapData o' s p) key =
     (if key = ''organisation-id'' then Some (TrimSpace o')
      else if key = ''service-account-id'' then Some (TrimSpace s)
      else if key = ''project-id'' \<and> TrimSpace p \<noteq> [] then Some (TrimSpace p) else None)"
proof (rule conjI, rule ValidateIdentityConfigMapData_None)
qed (auto simp: IdentityConfigMapData_def Let_def fmlookup_of_list configmap_keys)

section \<open>A process that has started\<close>

text \<open>
  C30: what a process that reaches \<^verbatim>\<open>mgr.Start\<close> can rely on: the controllers run exactly when
  enabled, with an API client for a non-blank organisation and cluster and at least one trusted
  audience; the webhook is registered with a trimmed, valid, non-blank audience and with the
  readiness check of its certificate; and without controllers there is no leader election.
\<close>

theorem started_process:
  assumes "start env f = Inr (cfg, tc, opts, comps)"
  shows "(BindingReconciler \<in> set comps) = f_enableControllers f \<and>
    (AccountReconciler \<in> set comps) = (f_enableControllers f \<and> f_enableServiceAccountAnnotations f) \<and>
    (f_enableControllers f \<longrightarrow> cfg_TrustedAudiences cfg \<noteq> [] \<and> TrimSpace (cfg_OrganisationID cfg) \<noteq> [] \<and>
       TrimSpace (cfg_ClusterIdentity cfg) \<noteq> [] \<and> tc \<noteq> None) \<and>
    (f_enablePodMutator f \<longrightarrow> (\<exists>aud. PodMutatorWebhook ''/mutate-v1-pod'' aud \<in> set comps \<and>
       TrimSpace aud = aud \<and> aud \<noteq> [] \<and> env_parse_uri env aud = None \<and>
       WebhookCertCheck (cfg_WebhookCertDir cfg) \<in> set comps)) \<and>
    (\<not> f_enableControllers f \<longrightarrow> \<not> mo_LeaderElection opts \<and> tc = None)"
proof -
  note st = start_ok [OF assms]
  have cfg: "cfg_EnableControllers cfg = f_enableControllers f"
    "cfg_EnablePodMutator cfg = f_enablePodMutator f"
    "cfg_EnableServiceAccountAnnotations cfg = f_enableServiceAccountAnnotations f"
    by (simp_all add: st(1) flags_config_def) (simp add: adjust_config_def Let_def)
  have aud: "TrimSpace (cfg_WebhookAudience cfg) = cfg_WebhookAudience cfg"
    by (auto simp: st(1) adjust_config_def flags_config_def Let_def ResolveWebhookAudience_trimmed)
  from st(2) have valid: "f_enableControllers f \<or> f_enablePodMutator f"
    "f_enableControllers f \<Longrightarrow> controller_ready (env_parse_uri env) cfg"
    "f_enablePodMutator f \<Longrightarrow> webhook_ready (env_parse_uri env) cfg"
    by (auto simp: Validate_None cfg)
  have webhook: "ResolveWebhookAudience cfg = cfg_WebhookAudience cfg" if "f_enablePodMutator f"
    using webhook_ready_audience [OF valid(3) [OF that]] aud by simp
  have "\<not> mo_LeaderElection opts" if "\<not> f_enableControllers f"
    using that valid(1) cfg by (auto simp: st(1,3) manager_options_of_def)
  then show ?thesis
    using valid webhook aud st(7) cfg
    by (auto simp: st(4) registrations_def controller_ready_def webhook_ready_def podMutatorPath_def
        split: option.splits)
qed

definition demo_flags :: flags where
  "demo_flags = default_flags\<lparr>f_organisation := ''org-1'', f_clusterIdentity := ''k8s-1'',
     f_serviceAccountID := ''sa-ctl'', f_enablePodMutator := True\<rparr>"

definition demo_env :: "unit startup_env" where
  "demo_env = \<lparr>env_parse_uri = (\<lambda>_. None), env_new_client = (\<lambda>_. Inr ()),
     env_new_manager = (\<lambda>_. None), env_register = (\<lambda>_. None)\<rparr>"

lemma demo_start: "\<exists>cfg tc opts comps. start demo_env demo_flags = Inr (cfg, tc, opts, comps)"
proof -
  have "case start demo_env demo_flags of Inl _ \<Rightarrow> False | Inr _ \<Rightarrow> True" by code_simp
  then show ?thesis by (cases "start demo_env demo_flags") auto
qed

theorem started_process_witness:
  "\<exists>cfg tc opts comps. start demo_env demo_flags = Inr (cfg, tc, opts, comps) \<and>
    BindingReconciler \<in> set comps \<and> tc \<noteq> None"
proof -
  obtain cfg tc opts comps where run: "start demo_env demo_flags = Inr (cfg, tc, opts, comps)"
    using demo_start by blast
  from started_process [OF run] run show ?thesis
    by (auto simp: demo_flags_def default_flags_def)
qed

text \<open>
  C23: the layers of validation agree: in a process that has started, a binding whose
  specification and scopes pass the controller's checks never fails the input check of
  \<^verbatim>\<open>EnsureWorkloadIdentity\<close>.
\<close>

theorem validated_layers:
  assumes "start env f = Inr (cfg, tc, opts, comps)" and "BindingReconciler \<in> set comps"
    and "validateDesired d = None" and "ParseScopeList k (des_Scopes d) = Inr scopes"
  shows "validateEnsureInput (desired_input cfg d scopes) = None"
proof -
  note st = start_ok [OF assms(1)]
  have "cfg_EnableControllers cfg"
    using assms(2) by (auto simp: st(4) registrations_def split: if_splits)
  with st(2) have "controller_ready (env_parse_uri env) cfg" by (simp add: Validate_None)
  moreover have "scopes \<noteq> []" using ParseScopeList_result [OF assms(4)] by simp
  ultimately show ?thesis
    using assms(3)
    by (auto simp: validateEnsureInput_def validateDesired_def desired_input_def controller_ready_def
        Let_def split: if_splits)
qed

definition demo_spec :: bindingDesired where
  "demo_spec = \<lparr>des_Namespace = ''ns'', des_ServiceAccount = ''app'', des_PolicyRef = ''p'',
     des_PolicyID = [], des_RoleRef = [], des_Scopes = [''openid''], des_NameOverride = [],
     des_DeleteResources = False, des_IdentityConfigMap = False\<rparr>"

lemma demo_spec_valid:
  "validateDesired demo_spec = None" "ParseScopeList scope_consts (des_Scopes demo_spec) = Inr [''openid'']"
  by code_simp+

theorem validated_layers_witness:
  "\<exists>cfg tc opts comps. start demo_env demo_flags = Inr (cfg, tc, opts, comps) \<and>
     validateEnsureInput (desired_input cfg demo_spec [''openid'']) = None"
proof -
  obtain cfg tc opts comps where run: "start demo_env demo_flags = Inr (cfg, tc, opts, comps)"
    using demo_start by blast
  have "f_enableControllers demo_flags" by (simp add: demo_flags_def default_flags_def)
  then have "BindingReconciler \<in> set comps"
    by (simp add: start_ok(4) [OF run] registrations_def start_ok(1) [OF run] flags_config_def)
  from validated_layers [OF run this demo_spec_valid] run show ?thesis by blast
qed

end
