(* ===== verification/Liveness.thy ===== *)
theory Liveness
  imports BindingStatus ConfigProps
begin

text \<open>
  Progress: with the in-memory IAM API and the concrete cluster, whose operations do not fail
  on their own, ensuring succeeds for every input whose references resolve to something
  allowed, and a binding for which the environment provides what it needs is ready after two
  reconciliations (the first adds the finalizer) and stays ready.
\<close>

section \<open>Ensuring on the in-memory API\<close>

text \<open>The references of the input resolve to something the allow lists permit.\<close>

definition policy_available :: "iam_consts \<Rightarrow> EnsureInput \<Rightarrow> fakeIAM \<Rightarrow> bool" where
  "policy_available k inp w \<longleftrightarrow>
     (let ref = TrimSpace (in_PolicyRef inp) in
      ref = [] \<or>
      (\<exists>p. fst (resolveIamPolicy (fake_client k) ref w) = Ok p \<and>
         CheckRefAllowlist ''policy'' ref (in_AllowedPolicies inp)
           [policy_Identity p, policy_Slug p, policy_Name p] = None))"

definition role_available :: "iam_consts \<Rightarrow> EnsureInput \<Rightarrow> fakeIAM \<Rightarrow> bool" where
  "role_available k inp w \<longleftrightarrow>
     (let ref = TrimSpace (in_RoleRef inp) in
      ref = [] \<or>
      (\<exists>r. fst (resolveOrganisationRole (fake_client k) ref w) = Ok r \<and>
         CheckRefAllowlist ''role'' ref (in_AllowedRoles inp)
           [role_Identity r, role_Slug r, role_Name r] = None))"

definition provider_available :: "EnsureInput \<Rightarrow> fakeIAM \<Rightarrow> bool" where
  "provider_available inp w \<longleftrightarrow>
     (\<exists>p. matching_providers (TrimSpace (in_ClusterIdentity inp)) (providers w) = [p] \<and>
        NormalizeIssuer (idp_ProviderIssuer p) \<noteq> [])"

definition same_catalog :: "fakeIAM \<Rightarrow> fakeIAM \<Rightarrow> bool" where
  "same_catalog w w' \<longleftrightarrow> policies w' = policies w \<and> roles w' = roles w \<and> providers w' = providers w"

lemma resolve_catalog:
  assumes "same_catalog w w'"
  shows "resolveIamPolicy (fake_client k) ref w' = (fst (resolveIamPolicy (fake_client k) ref w), w')"
    and "resolveOrganisationRole (fake_client k) ref w' = (fst (resolveOrganisationRole (fake_client k) ref w), w')"
  using assms
  by (auto simp: same_catalog_def resolveIamPolicy_def resolveOrganisationRole_def Let_def run_defs
      fakeGetIamPolicy_def fakeGetOrganisationRole_def split: option.splits sum.splits prod.splits if_splits)

lemma update_loop_returns: "f \<in> set fs \<Longrightarrow> \<exists>g gs. update_loop (fi_Identity f) q fs = Some (g, gs)"
  by (induction fs) (auto simp: Let_def split: option.splits)

definition named_accounts :: "fakeIAM \<Rightarrow> bool" where
  "named_accounts w \<longleftrightarrow> list_all (\<lambda>s. TrimSpace (sa_Identity s) \<noteq> []) (sas w)"

lemma fake_ensureServiceAccount:
  assumes "named_accounts w"
  shows "\<exists>s w'. ensureServiceAccount (fake_client k) n sub ns sa l w = (Ok (Some s), w') \<and>
    same_catalog w w' \<and> named_accounts w' \<and> TrimSpace (sa_Identity s) \<noteq> []"
proof -
  have new: "TrimSpace ''sa-new'' \<noteq> []" by code_simp
  show ?thesis
    using assms new
    by (cases "find (\<lambda>s. LabelsMatch (sa_Labels s) l) (sas w)")
    (auto simp: ensureServiceAccount_def findByLabelsSA_def run_defs fake_ops Let_def same_catalog_def
        named_accounts_def list_all_iff dest: find_Some_in)
qed

lemma fake_ensureFederatedIdentity:
  "\<exists>f w'. ensureFederatedIdentity (fake_client k) p (Some s) n sub sc au l w = (Ok (Some f), w') \<and>
    same_catalog w w' \<and> sas w' = sas w"
proof (cases "find (\<lambda>f. LabelsMatch (fi_Labels f) l) (fis w)")
  case None
  then show ?thesis
    by (auto simp: ensureFederatedIdentity_def findByLabelsFI_def run_defs fake_ops Let_def same_catalog_def)
next
  case (Some f)
  then have "f \<in> set (fis w)" by (simp add: find_Some_in)
  from update_loop_returns [OF this, of "fi_update_request k n sub sc au l"] Some show ?thesis
    by (auto simp: ensureFederatedIdentity_def findByLabelsFI_def run_defs fakeUpdateFederatedIdentity_def
        Let_def same_catalog_def)
qed

lemma fake_bindings:
  "\<exists>w'. ensurePolicyBinding (fake_client k) p s key l w = (Ok (), w') \<and> same_catalog w w' \<and> sas w' = sas w"
  "\<exists>w'. ensureRoleBinding (fake_client k) r s key l w = (Ok (), w') \<and> same_catalog w w' \<and> sas w' = sas w"
  by (auto simp: ensurePolicyBinding_def ensureRoleBinding_def hasPolicyBindingForSA_def
      hasRoleBindingForSA_def run_defs fake_ops Let_def same_catalog_def)

lemma same_catalog_trans: "same_catalog u v \<Longrightarrow> same_catalog v w \<Longrightarrow> same_catalog u w"
  by (simp add: same_catalog_def)

lemma fake_policy_step:
  assumes "policy_available k inp w0" and "same_catalog w0 w"
  shows "\<exists>r w'. ensurePolicyStep (fake_client k) inp s key l res w = (Ok r, w') \<and> same_catalog w w' \<and> sas w' = sas w \<and>
    res_ServiceAccountID r = res_ServiceAccountID res"
proof (cases "TrimSpace (in_PolicyRef inp) = []")
  case True
  then show ?thesis by (simp add: ensurePolicyStep_def okE_run same_catalog_def)
next
  case False
  with assms(1) obtain p where p: "fst (resolveIamPolicy (fake_client k) (TrimSpace (in_PolicyRef inp)) w0) = Ok p"
    "CheckRefAllowlist ''policy'' (TrimSpace (in_PolicyRef inp)) (in_AllowedPolicies inp)
       [policy_Identity p, policy_Slug p, policy_Name p] = None"
    by (auto simp: policy_available_def Let_def)
  obtain w' where "ensurePolicyBinding (fake_client k) p s key l w = (Ok (), w')" "same_catalog w w'" "sas w' = sas w"
    using fake_bindings(1) by blast
  with False p resolve_catalog(1) [OF assms(2), of k] show ?thesis
    by (simp add: ensurePolicyStep_def Let_def bindE_run checkE_run okE_run)
qed

lemma fake_role_step:
  assumes "role_available k inp w0" and "same_catalog w0 w"
  shows "\<exists>w'. ensureRoleStep (fake_client k) inp s key l w = (Ok (), w') \<and> same_catalog w w' \<and> sas w' = sas w"
proof (cases "TrimSpace (in_RoleRef inp) = []")
  case True
  then show ?thesis by (simp add: ensureRoleStep_def okE_run same_catalog_def)
next
  case False
  with assms(1) obtain r where r: "fst (resolveOrganisationRole (fake_client k) (TrimSpace (in_RoleRef inp)) w0) = Ok r"
    "CheckRefAllowlist ''role'' (TrimSpace (in_RoleRef inp)) (in_AllowedRoles inp)
       [role_Identity r, role_Slug r, role_Name r] = None"
    by (auto simp: role_available_def Let_def)
  obtain w' where "ensureRoleBinding (fake_client k) r s key l w = (Ok (), w')" "same_catalog w w'" "sas w' = sas w"
    using fake_bindings(2) by blast
  with False r resolve_catalog(2) [OF assms(2), of k] show ?thesis
    by (simp add: ensureRoleStep_def Let_def bindE_run checkE_run)
qed

lemma fake_Ensure_succeeds:
  assumes valid: "validateEnsureInput inp = None"
    and sub: "BuildKubernetesSubject (in_Namespace inp) (in_ServiceAccount inp) = Inr sub"
    and prov: "provider_available inp w"
    and refs: "policy_available k inp w" "role_available k inp w"
    and named: "named_accounts w"
  shows "\<exists>r w'. EnsureWorkloadIdentity (fake_client k) inp w = (Ok r, w') \<and> same_catalog w w' \<and>
    named_accounts w' \<and> TrimSpace (res_ServiceAccountID r) \<noteq> []"
proof -
  from valid have cluster: "TrimSpace (in_ClusterIdentity inp) \<noteq> []"
    by (auto simp: validateEnsureInput_def Let_def split: if_splits)
  from prov obtain p where p: "matching_providers (TrimSpace (in_ClusterIdentity inp)) (providers w) = [p]"
    "NormalizeIssuer (idp_ProviderIssuer p) \<noteq> []" by (auto simp: provider_available_def)
  then have find: "FindProviderByClusterID (fake_client k) (in_ClusterIdentity inp) w = (Ok p, w)"
    using FindProvider_run [OF cluster, of "fake_client k" w "providers w" w] by simp
  define iss where "iss = NormalizeIssuer (idp_ProviderIssuer p)"
  define key where "key = ResourceKey (in_Namespace inp) (in_ServiceAccount inp) sub iss"
  define names where "names = DefaultResourceNames key (in_NameOverride inp)"
  define labels where "labels = OwnershipLabels key (in_Namespace inp) (in_ServiceAccount inp)"
  obtain s w1 where s: "ensureServiceAccount (fake_client k) (fst names) sub (in_Namespace inp)
      (in_ServiceAccount inp) labels w = (Ok (Some s), w1)" "same_catalog w w1"
    "named_accounts w1" "TrimSpace (sa_Identity s) \<noteq> []"
    using fake_ensureServiceAccount [OF named] by blast
  obtain f w2 where f: "ensureFederatedIdentity (fake_client k) p (Some s) (snd names) sub (in_Scopes inp)
      (in_TrustedAudiences inp) labels w1 = (Ok (Some f), w2)" "same_catalog w1 w2" "sas w2 = sas w1"
    using fake_ensureFederatedIdentity by blast
  define res where "res = \<lparr>res_ProviderID = idp_Identity p, res_ServiceAccountID = sa_Identity s,
    res_FederatedIdentityID = fi_Identity f, res_PolicyID = [], res_Issuer = iss, res_Subject = sub, res_Key = key\<rparr>"
  obtain r w3 where r: "ensurePolicyStep (fake_client k) inp s key labels res w2 = (Ok r, w3)" "same_catalog w2 w3"
    "sas w3 = sas w2" "res_ServiceAccountID r = res_ServiceAccountID res"
    using fake_policy_step [OF refs(1) same_catalog_trans [OF s(2) f(2)]] by blast
  obtain w4 where w4: "ensureRoleStep (fake_client k) inp s key labels w3 = (Ok (), w4)" "same_catalog w3 w4" "sas w4 = sas w3"
    using fake_role_step [OF refs(2) same_catalog_trans [OF same_catalog_trans [OF s(2) f(2)] r(2)]] by blast
  have "EnsureWorkloadIdentity (fake_client k) inp w = (Ok r, w4)"
    using p(2) s(1) f(1) r(1) w4(1)
    by (simp add: EnsureWorkloadIdentity_def valid sub find bindE_run checkE_run derefE_run okE_run Let_def
        iss_def [symmetric] key_def [symmetric] names_def [symmetric] labels_def [symmetric] res_def [symmetric])
  moreover have "same_catalog w w4"
    using same_catalog_trans [OF same_catalog_trans [OF same_catalog_trans [OF s(2) f(2)] r(2)] w4(2)] .
  moreover have "named_accounts w4" using s(3) f(3) r(3) w4(3) by (simp add: named_accounts_def)
  moreover have "TrimSpace (res_ServiceAccountID r) \<noteq> []" using r(4) s(4) by (simp add: res_def)
  ultimately show ?thesis by blast
qed

section \<open>A binding on a concrete cluster\<close>

text \<open>
  What the environment has to provide for a binding: the account exists, the specification is
  valid, the cluster's provider is registered, and the references resolve to something allowed.
\<close>

definition bindable :: "iam_consts \<Rightarrow> Config \<Rightarrow> string \<Rightarrow> string \<Rightarrow> world \<Rightarrow> bool" where
  "bindable k cfg ns n w \<longleftrightarrow>
     (\<exists>b sa scopes sub. w_wibs w (ns, n) = Some b \<and> wib_Namespace b = ns \<and> wib_Name b = n \<and>
        \<not> wib_Deleting b \<and> watched cfg ns \<and> validateDesired (desired_of b) = None \<and>
        ParseScopeList k (wib_Scopes b) = Inr scopes \<and>
        BuildKubernetesSubject ns (wib_ServiceAccountName b) = Inr sub \<and>
        w_sas w (ns, wib_ServiceAccountName b) = Some sa \<and>
        provider_available (desired_input cfg (desired_of b) scopes) (w_iam w) \<and>
        policy_available k (desired_input cfg (desired_of b) scopes) (w_iam w) \<and>
        role_available k (desired_input cfg (desired_of b) scopes) (w_iam w) \<and>
        named_accounts (w_iam w))"

lemma available_catalog:
  assumes "same_catalog w w'"
  shows "provider_available inp w' = provider_available inp w"
    and "policy_available k inp w' = policy_available k inp w"
    and "role_available k inp w' = role_available k inp w"
  using assms resolve_catalog [OF assms]
  by (simp_all add: provider_available_def policy_available_def role_available_def same_catalog_def Let_def)

text \<open>
  What a reconciliation of a binding leaves of a service account: everything but its identity
  annotations, and a service account identifier that is not blank when it is a new one.
\<close>

definition undisturbed :: "KubeServiceAccount \<Rightarrow> KubeServiceAccount \<Rightarrow> bool" where
  "undisturbed sa sa' \<longleftrightarrow>
     ksa_Deleting sa' = ksa_Deleting sa \<and> ksa_Finalizers sa' = ksa_Finalizers sa \<and>
     list_all (\<lambda>key. get (ksa_Annotations sa') key = get (ksa_Annotations sa) key)
       [AnnotationEnabled, AnnotationRole, AnnotationPolicy, AnnotationScopes, AnnotationName,
        AnnotationStatus, AnnotationLastError] \<and>
     (let i = get (ksa_Annotations sa') AnnotationServiceAccountID in
      i = get (ksa_Annotations sa) AnnotationServiceAccountID \<or> TrimSpace i \<noteq> [])"

lemma undisturbed_refl [simp]: "undisturbed sa sa"
  by (simp add: undisturbed_def)

lemma undisturbed_annotated:
  "TrimSpace (res_ServiceAccountID res) \<noteq> [] \<Longrightarrow>
   undisturbed sa (annotated cfg res (sa\<lparr>ksa_Namespace := ns, ksa_Name := n\<rparr>))"
  by (simp add: undisturbed_def annotated_def identity_annotations_def annotation_keys Let_def)

text \<open>What a reconciliation of the binding at \<open>key\<close> leaves to everybody else.\<close>

definition binding_frame :: "string \<times> string \<Rightarrow> world \<Rightarrow> world \<Rightarrow> bool" where
  "binding_frame key w w' \<longleftrightarrow>
     same_catalog (w_iam w) (w_iam w') \<and> named_accounts (w_iam w') \<and>
     (\<forall>key'. rel_option undisturbed (w_sas w key') (w_sas w' key')) \<and>
     (\<forall>key'. key' \<noteq> key \<longrightarrow> w_wibs w' key' = w_wibs w key')"

lemma fake_get_account:
  "w_sas w (ns, n) = Some sa \<Longrightarrow>
   GetServiceAccount fake_cluster ns n w = (Inr (sa\<lparr>ksa_Namespace := ns, ksa_Name := n\<rparr>), w)"
  by simp

lemma fake_annotate:
  assumes "w_sas w (ns, n) = Some sa"
  shows "annotateServiceAccountIdentity fake_cluster (sa0\<lparr>ksa_Namespace := ns, ksa_Name := n\<rparr>) i o' p w =
    (Ok (), w\<lparr>w_sas := (w_sas w)((ns, n) := Some (sa\<lparr>ksa_Namespace := ns, ksa_Name := n,
       ksa_Annotations := identity_annotations i o' p (ksa_Annotations sa)\<rparr>))\<rparr>)"
  using assms
  by (simp add: annotateServiceAccountIdentity_def bindE_def call_def) (simp add: fake_cluster_def)

lemma fake_sync:
  assumes "TrimSpace s \<noteq> []" and "TrimSpace o' \<noteq> []"
  shows "\<exists>cms. syncIdentityConfigMap fake_cluster obj d s o' p w = (Ok (), w\<lparr>w_cms := cms\<rparr>)"
proof -
  have check: "checkE (ValidateIdentityConfigMapData (IdentityConfigMapData o' s p)) w = (Ok (), w)"
    using assms ValidateIdentityConfigMapData_None [of o' s p] by (simp add: checkE_run)
  show ?thesis
    unfolding syncIdentityConfigMap_def Let_def
      bindE_run(1) [where m = "checkE (ValidateIdentityConfigMapData (IdentityConfigMapData o' s p))", OF check]
    by (auto simp: syncE_def fake_cluster_def mutate_config_map_def Let_def split: option.split)
qed

lemma fake_publish:
  assumes "w_sas w (des_Namespace d, des_ServiceAccount d) = Some sa"
    and "TrimSpace (res_ServiceAccountID res) \<noteq> []" and "TrimSpace (cfg_OrganisationID cfg) \<noteq> []"
  shows "\<exists>cms. publishIdentity fake_cluster cfg obj d
      (sa0\<lparr>ksa_Namespace := des_Namespace d, ksa_Name := des_ServiceAccount d\<rparr>) res w =
    (Ok (no_requeue, Some (ready_observed cfg res), None),
     w\<lparr>w_cms := cms, w_sas := (w_sas w)((des_Namespace d, des_ServiceAccount d) := Some
       (annotated cfg res (sa\<lparr>ksa_Namespace := des_Namespace d, ksa_Name := des_ServiceAccount d\<rparr>)))\<rparr>)"
proof -
  let ?sync = "if des_IdentityConfigMap d \<or> cfg_EnableIdentityConfigMap cfg
      then syncIdentityConfigMap fake_cluster obj d (res_ServiceAccountID res)
        (TrimSpace (cfg_OrganisationID cfg)) (TrimSpace (cfg_ProjectIdentity cfg))
      else okE ()"
  have "\<exists>cms. ?sync w = (Ok (), w\<lparr>w_cms := cms\<rparr>)"
  proof (cases "des_IdentityConfigMap d \<or> cfg_EnableIdentityConfigMap cfg")
    case True
    then show ?thesis using fake_sync [OF assms(2), of "TrimSpace (cfg_OrganisationID cfg)"] assms(3) by simp
  next
    case False
    then show ?thesis by (intro exI [of _ "w_cms w"]) (simp add: okE_run)
  qed
  then obtain cms where sync: "?sync w = (Ok (), w\<lparr>w_cms := cms\<rparr>)" by blast
  have ann: "annotateServiceAccountIdentity fake_cluster
      (sa0\<lparr>ksa_Namespace := des_Namespace d, ksa_Name := des_ServiceAccount d\<rparr>) (res_ServiceAccountID res)
      (TrimSpace (cfg_OrganisationID cfg)) (TrimSpace (cfg_ProjectIdentity cfg)) (w\<lparr>w_cms := cms\<rparr>) =
    (Ok (), w\<lparr>w_cms := cms, w_sas := (w_sas w)((des_Namespace d, des_ServiceAccount d) := Some
       (annotated cfg res (sa\<lparr>ksa_Namespace := des_Namespace d, ksa_Name := des_ServiceAccount d\<rparr>)))\<rparr>)"
    using fake_annotate [of "w\<lparr>w_cms := cms\<rparr>" "des_Namespace d" "des_ServiceAccount d" sa sa0
        "res_ServiceAccountID res" "TrimSpace (cfg_OrganisationID cfg)" "TrimSpace (cfg_ProjectIdentity cfg)"]
      assms(1) by (simp add: annotated_def)
  have "publishIdentity fake_cluster cfg obj d
      (sa0\<lparr>ksa_Namespace := des_Namespace d, ksa_Name := des_ServiceAccount d\<rparr>) res w =
    (Ok (no_requeue, Some (ready_observed cfg res), None),
     w\<lparr>w_cms := cms, w_sas := (w_sas w)((des_Namespace d, des_ServiceAccount d) := Some
       (annotated cfg res (sa\<lparr>ksa_Namespace := des_Namespace d, ksa_Name := des_ServiceAccount d\<rparr>)))\<rparr>)"
    unfolding publishIdentity_def Let_def tryE_def sync prod.case result.case sum.case ann
    by (simp add: finish_def okE_run ready_observed_def)
  then show ?thesis by blast
qed

lemma fake_reconcile_ready:
  assumes b: "\<not> wib_Deleting b" "watched cfg (wib_Namespace b)" "validateDesired (desired_of b) = None"
    and scopes: "ParseScopeList k (wib_Scopes b) = Inr scopes"
    and sub: "BuildKubernetesSubject (wib_Namespace b) (wib_ServiceAccountName b) = Inr sub"
    and sa: "w_sas w (wib_Namespace b, wib_ServiceAccountName b) = Some sa"
    and avail: "provider_available (desired_input cfg (desired_of b) scopes) (w_iam w)"
      "policy_available k (desired_input cfg (desired_of b) scopes) (w_iam w)"
      "role_available k (desired_input cfg (desired_of b) scopes) (w_iam w)" "named_accounts (w_iam w)"
    and cfg: "controller_ready p cfg"
  shows "\<exists>res iam cms sa'. reconcileBinding (lift_iam (fake_client k)) fake_cluster cfg b (desired_of b) True w =
      (Ok (no_requeue, Some (ready_observed cfg res), None),
       w\<lparr>w_iam := iam, w_cms := cms,
         w_sas := (w_sas w)((wib_Namespace b, wib_ServiceAccountName b) := Some sa')\<rparr>) \<and>
    same_catalog (w_iam w) iam \<and> named_accounts iam \<and> undisturbed sa sa'"
proof -
  let ?inp = "desired_input cfg (desired_of b) scopes"
  have fields: "des_Namespace (desired_of b) = wib_Namespace b"
    "des_ServiceAccount (desired_of b) = wib_ServiceAccountName b" "des_Scopes (desired_of b) = wib_Scopes b"
    by (simp_all add: desired_of_def)
  have "scopes \<noteq> []" using ParseScopeList_result [OF scopes] by simp
  with cfg b(3) have "validateEnsureInput ?inp = None"
    by (auto simp: validateEnsureInput_def validateDesired_def desired_input_def controller_ready_def
        Let_def split: if_splits)
  moreover have "BuildKubernetesSubject (in_Namespace ?inp) (in_ServiceAccount ?inp) = Inr sub"
    using sub by (simp add: desired_input_def fields)
  ultimately obtain res iam where ens: "EnsureWorkloadIdentity (fake_client k) ?inp (w_iam w) = (Ok res, iam)"
    and iam: "same_catalog (w_iam w) iam" "named_accounts iam" "TrimSpace (res_ServiceAccountID res) \<noteq> []"
    using fake_Ensure_succeeds [of ?inp sub "w_iam w" k] avail by blast
  have ens': "EnsureWorkloadIdentity (lift_iam (fake_client k)) ?inp w = (Ok res, w\<lparr>w_iam := iam\<rparr>)"
    by (rule lift_run [OF ens lifts_Ensure]) simp
  have org: "TrimSpace (cfg_OrganisationID cfg) \<noteq> []" using cfg by (simp add: controller_ready_def)
  let ?sa = "annotated cfg res (sa\<lparr>ksa_Namespace := wib_Namespace b, ksa_Name := wib_ServiceAccountName b\<rparr>)"
  obtain cms where pub: "publishIdentity fake_cluster cfg b (desired_of b)
      (sa\<lparr>ksa_Namespace := wib_Namespace b, ksa_Name := wib_ServiceAccountName b\<rparr>) res (w\<lparr>w_iam := iam\<rparr>) =
    (Ok (no_requeue, Some (ready_observed cfg res), None),
     w\<lparr>w_iam := iam, w_cms := cms,
       w_sas := (w_sas w)((wib_Namespace b, wib_ServiceAccountName b) := Some ?sa)\<rparr>)"
    using fake_publish [of "w\<lparr>w_iam := iam\<rparr>" "desired_of b" sa res cfg b sa] sa iam(3) org
    by (auto simp: fields)
  note watch = b(2) [unfolded watched_def]
  have get: "call (GetServiceAccount fake_cluster (wib_Namespace b) (wib_ServiceAccountName b)) w =
      (Ok (sa\<lparr>ksa_Namespace := wib_Namespace b, ksa_Name := wib_ServiceAccountName b\<rparr>), w)"
    by (simp add: call_def sa)
  have "reconcileBinding (lift_iam (fake_client k)) fake_cluster cfg b (desired_of b) True w =
      (Ok (no_requeue, Some (ready_observed cfg res), None),
       w\<lparr>w_iam := iam, w_cms := cms,
         w_sas := (w_sas w)((wib_Namespace b, wib_ServiceAccountName b) := Some ?sa)\<rparr>)"
    using watch
    by (simp add: reconcileBinding_def b fields get scopes ens' pub
        tryE_run del: fake_cluster_sel) blast
  moreover have "undisturbed sa ?sa" using iam(3) by (simp add: undisturbed_annotated)
  ultimately show ?thesis using iam(1,2) by blast
qed


lemma fake_patch:
  assumes "w_wibs w (wib_Namespace b, wib_Name b) = Some b'"
    and "wib_Namespace b' = wib_Namespace b" "wib_Name b' = wib_Name b"
  shows "patchBindingStatus fake_cluster b obs w =
    (Ok (), w\<lparr>w_clock := w_clock w + 1, w_wibs := (w_wibs w)((wib_Namespace b, wib_Name b) :=
       Some (b'\<lparr>wib_Status := status_after b' obs (w_clock w)\<rparr>))\<rparr>)"
  using assms
  by (simp add: patchBindingStatus_def bindE_def call_def nowE_def) (simp add: fake_cluster_def)

lemma fake_ready_step:
  assumes cfg: "controller_ready p cfg" and able: "bindable k cfg ns n w"
    and b: "w_wibs w (ns, n) = Some b" and fin: "BindingFinalizerName \<in> set (wib_Finalizers b)"
  shows "\<exists>w' b'. ReconcileBinding (lift_iam (fake_client k)) fake_cluster cfg ns n w = (Ok (no_requeue, None), w') \<and>
    w_wibs w' (ns, n) = Some b' \<and> wib_Finalizers b' = wib_Finalizers b \<and>
    st_Phase (wib_Status b') = StatusReady \<and> bindable k cfg ns n w' \<and> binding_frame (ns, n) w w'"
proof -
  from able b obtain sa scopes sub where facts: "wib_Namespace b = ns" "wib_Name b = n" "\<not> wib_Deleting b"
    "watched cfg ns" "validateDesired (desired_of b) = None" "ParseScopeList k (wib_Scopes b) = Inr scopes"
    "BuildKubernetesSubject ns (wib_ServiceAccountName b) = Inr sub"
    "w_sas w (ns, wib_ServiceAccountName b) = Some sa"
    "provider_available (desired_input cfg (desired_of b) scopes) (w_iam w)"
    "policy_available k (desired_input cfg (desired_of b) scopes) (w_iam w)"
    "role_available k (desired_input cfg (desired_of b) scopes) (w_iam w)" "named_accounts (w_iam w)"
    by (auto simp: bindable_def)
  let ?w = "\<lambda>iam cms sa'. w\<lparr>w_iam := iam, w_cms := cms,
      w_sas := (w_sas w)((ns, wib_ServiceAccountName b) := Some sa')\<rparr>"
  obtain res iam cms sa' where rec: "reconcileBinding (lift_iam (fake_client k)) fake_cluster cfg b (desired_of b) True w =
      (Ok (no_requeue, Some (ready_observed cfg res), None), ?w iam cms sa')"
    and iam: "same_catalog (w_iam w) iam" "named_accounts iam" "undisturbed sa sa'"
    using fake_reconcile_ready [of b cfg k scopes sub w sa p] facts cfg by auto
  let ?b = "b\<lparr>wib_Status := status_after b (ready_observed cfg res) (w_clock w)\<rparr>"
  let ?w' = "(?w iam cms sa')\<lparr>w_clock := w_clock w + 1, w_wibs := (w_wibs w)((ns, n) := Some ?b)\<rparr>"
  have patch: "patchBindingStatus fake_cluster b (ready_observed cfg res) (?w iam cms sa') = (Ok (), ?w')"
    using fake_patch [of "?w iam cms sa'" b b] b facts by simp
  have "ReconcileBinding (lift_iam (fake_client k)) fake_cluster cfg ns n w = (Ok (no_requeue, None), ?w')"
    using b facts(1,4) fin rec patch
    by (simp add: ReconcileBinding_def tryE_def call_def bindE_def okE_def Let_def)
  moreover have "st_Phase (wib_Status ?b) = StatusReady"
    by (simp add: status_after_fields ready_observed_def)
  moreover have "bindable k cfg ns n ?w'"
  proof -
    have "desired_input cfg (desired_of ?b) scopes = desired_input cfg (desired_of b) scopes"
      "validateDesired (desired_of ?b) = validateDesired (desired_of b)"
      by (simp_all add: desired_input_def desired_of_def validateDesired_def)
    then show ?thesis
      unfolding bindable_def using facts iam available_catalog [OF iam(1)]
      by (intro exI [of _ ?b] exI [of _ sa'] exI [of _ scopes] exI [of _ sub]) simp
  qed
  moreover have "binding_frame (ns, n) w ?w'"
    using iam facts(8) by (auto simp: binding_frame_def option.rel_refl)
  ultimately show ?thesis by (intro exI [of _ ?w'] exI [of _ ?b]) simp
qed

lemma fake_first_step:
  assumes able: "bindable k cfg ns n w"
    and b: "w_wibs w (ns, n) = Some b" and fin: "BindingFinalizerName \<notin> set (wib_Finalizers b)"
  shows "\<exists>w' b'. ReconcileBinding (lift_iam (fake_client k)) fake_cluster cfg ns n w =
      (Ok (\<lparr>rr_Requeue = True, rr_RequeueAfter = 0\<rparr>, None), w') \<and>
    w_wibs w' (ns, n) = Some b' \<and> BindingFinalizerName \<in> set (wib_Finalizers b') \<and> bindable k cfg ns n w' \<and>
    binding_frame (ns, n) w w'"
proof -
  from able b obtain sa scopes sub where facts: "wib_Namespace b = ns" "wib_Name b = n" "\<not> wib_Deleting b"
    "watched cfg ns" "validateDesired (desired_of b) = None" "ParseScopeList k (wib_Scopes b) = Inr scopes"
    "BuildKubernetesSubject ns (wib_ServiceAccountName b) = Inr sub"
    "w_sas w (ns, wib_ServiceAccountName b) = Some sa"
    "provider_available (desired_input cfg (desired_of b) scopes) (w_iam w)"
    "policy_available k (desired_input cfg (desired_of b) scopes) (w_iam w)"
    "role_available k (desired_input cfg (desired_of b) scopes) (w_iam w)" "named_accounts (w_iam w)"
    by (auto simp: bindable_def)
  let ?b1 = "b\<lparr>wib_Finalizers := wib_Finalizers b @ [BindingFinalizerName]\<rparr>"
  let ?obs = "observed StatusPending ''FinalizerAdded'' []"
  let ?w1 = "w\<lparr>w_wibs := (w_wibs w)((ns, n) := Some ?b1)\<rparr>"
  let ?b2 = "?b1\<lparr>wib_Status := status_after ?b1 ?obs (w_clock w)\<rparr>"
  let ?w2 = "w\<lparr>w_clock := w_clock w + 1, w_wibs := (w_wibs w)((ns, n) := Some ?b2)\<rparr>"
  have upd: "UpdateBinding fake_cluster ?b1 w = (Inr (), ?w1)"
    using b facts(1-3) by (simp add: fake_cluster_def)
  have rec: "reconcileBinding (lift_iam (fake_client k)) fake_cluster cfg b (desired_of b) False w =
      (Ok (\<lparr>rr_Requeue = True, rr_RequeueAfter = 0\<rparr>, Some ?obs, None), ?w1)"
    using facts(3) fin upd by (simp add: reconcileBinding_def tryE_def call_def okE_def)
  have patch: "patchBindingStatus fake_cluster b ?obs ?w1 = (Ok (), ?w2)"
    using fake_patch [of ?w1 b ?b1] facts by simp
  have "ReconcileBinding (lift_iam (fake_client k)) fake_cluster cfg ns n w =
      (Ok (\<lparr>rr_Requeue = True, rr_RequeueAfter = 0\<rparr>, None), ?w2)"
    using b facts(1,4) fin rec patch
    by (simp add: ReconcileBinding_def tryE_def call_def bindE_def okE_def Let_def)
  moreover have "bindable k cfg ns n ?w2"
  proof -
    have "desired_input cfg (desired_of ?b2) scopes = desired_input cfg (desired_of b) scopes"
      "validateDesired (desired_of ?b2) = validateDesired (desired_of b)"
      by (simp_all add: desired_input_def desired_of_def validateDesired_def)
    then show ?thesis
      unfolding bindable_def using facts
      by (intro exI [of _ ?b2] exI [of _ sa] exI [of _ scopes] exI [of _ sub]) simp
  qed
  moreover have "binding_frame (ns, n) w ?w2"
    using facts(12) by (simp add: binding_frame_def option.rel_refl same_catalog_def)
  ultimately show ?thesis by (intro exI [of _ ?w2] exI [of _ ?b2]) simp
qed

text \<open>The cluster after a number of reconciliations of one binding.\<close>

primrec reconciled_world :: "iam_consts \<Rightarrow> Config \<Rightarrow> string \<Rightarrow> string \<Rightarrow> nat \<Rightarrow> world \<Rightarrow> world" where
  "reconciled_world k cfg ns n 0 w = w"
| "reconciled_world k cfg ns n (Suc m) w =
     snd (ReconcileBinding (lift_iam (fake_client k)) fake_cluster cfg ns n (reconciled_world k cfg ns n m w))"

lemma reconciled_ready:
  assumes cfg: "controller_ready p cfg" and able: "bindable k cfg ns n w"
  shows "bindable k cfg ns n (reconciled_world k cfg ns n m w) \<and>
    (m \<ge> 1 \<longrightarrow> (\<exists>b. w_wibs (reconciled_world k cfg ns n m w) (ns, n) = Some b \<and>
       BindingFinalizerName \<in> set (wib_Finalizers b) \<and> (m \<ge> 2 \<longrightarrow> st_Phase (wib_Status b) = StatusReady)))"
proof (induction m)
  case 0
  then show ?case using able by simp
next
  case (Suc m)
  let ?v = "reconciled_world k cfg ns n m w"
  from Suc have v: "bindable k cfg ns n ?v" by blast
  then obtain b where b: "w_wibs ?v (ns, n) = Some b" by (auto simp: bindable_def)
  show ?case
  proof (cases "BindingFinalizerName \<in> set (wib_Finalizers b)")
    case True
    from fake_ready_step [OF cfg v b True] True show ?thesis by auto
  next
    case False
    with Suc b have "m = 0" by (cases m) auto
    with fake_first_step [OF v b False] show ?thesis by auto
  qed
qed

end
