(* ===== verification/AnnotatedReady.thy ===== *)
theory AnnotatedReady
  imports Liveness
begin

text \<open>
  Progress of annotated accounts: on the concrete cluster, an account for whose annotations
  the environment provides what they name is marked ready after two reconciliations (the first
  adds the finalizer) and stays so, with the identifiers of the cloud resources written on it.
\<close>

section \<open>What the environment provides\<close>

definition satisfiable_input :: "iam_consts \<Rightarrow> EnsureInput \<Rightarrow> fakeIAM \<Rightarrow> bool" where
  "satisfiable_input k inp w \<longleftrightarrow>
     provider_available inp w \<and> policy_available k inp w \<and> role_available k inp w \<and> named_accounts w"

definition account_satisfiable :: "iam_consts \<Rightarrow> Config \<Rightarrow> KubeServiceAccount \<Rightarrow> fakeIAM \<Rightarrow> bool" where
  "account_satisfiable k cfg sa w \<longleftrightarrow>
     (let a = ksa_Annotations sa;
          role = TrimSpace (get a AnnotationRole);
          policy = TrimSpace (get a AnnotationPolicy)
      in \<not> ksa_Deleting sa \<and> IsEnabled a \<and> watched cfg (ksa_Namespace sa) \<and>
         (role \<noteq> [] \<or> policy \<noteq> []) \<and> role \<noteq> ''*'' \<and> policy \<noteq> ''*'' \<and>
         (\<exists>scopes sub. ParseScopes k (get a AnnotationScopes) = Inr scopes \<and>
            BuildKubernetesSubject (ksa_Namespace sa) (ksa_Name sa) = Inr sub \<and>
            satisfiable_input k (annotation_input cfg sa scopes) w))"

definition annotatable :: "iam_consts \<Rightarrow> Config \<Rightarrow> string \<Rightarrow> string \<Rightarrow> world \<Rightarrow> bool" where
  "annotatable k cfg ns n w \<longleftrightarrow>
     (\<exists>sa. w_sas w (ns, n) = Some sa \<and>
        account_satisfiable k cfg (sa\<lparr>ksa_Namespace := ns, ksa_Name := n\<rparr>) (w_iam w))"

lemma satisfiable_catalog:
  "same_catalog w w' \<Longrightarrow> named_accounts w' \<Longrightarrow> satisfiable_input k inp w \<Longrightarrow> satisfiable_input k inp w'"
  using available_catalog by (simp add: satisfiable_input_def)

text \<open>The annotations a reconciliation writes are not the ones it reads.\<close>

lemma status_keeps_input:
  "get (status_annotations a st e r t) AnnotationEnabled = get a AnnotationEnabled"
  "get (status_annotations a st e r t) AnnotationRole = get a AnnotationRole"
  "get (status_annotations a st e r t) AnnotationPolicy = get a AnnotationPolicy"
  "get (status_annotations a st e r t) AnnotationScopes = get a AnnotationScopes"
  "get (status_annotations a st e r t) AnnotationName = get a AnnotationName"
  "get (status_annotations a st e r t) AnnotationOrganisationID = get a AnnotationOrganisationID"
  by (auto simp: status_annotations_def Let_def annotation_keys split: option.split)

lemma satisfiable_status:
  assumes "account_satisfiable k cfg sa w" and "same_catalog w w'" and "named_accounts w'"
  shows "account_satisfiable k cfg
    (sa\<lparr>ksa_Annotations := status_annotations (ksa_Annotations sa) st e r t\<rparr>) w'"
proof -
  have "IsEnabled (status_annotations (ksa_Annotations sa) st e r t) = IsEnabled (ksa_Annotations sa)"
    by (simp add: IsEnabled_def status_keeps_input)
  with assms satisfiable_catalog [OF assms(2,3)] show ?thesis
    by (auto simp: account_satisfiable_def annotation_input_def Let_def status_keeps_input)
qed

section \<open>One reconciliation\<close>

definition write_account :: "KubeServiceAccount \<Rightarrow> world \<Rightarrow> world" where
  "write_account sa w = w\<lparr>w_sas := (w_sas w)((ksa_Namespace sa, ksa_Name sa) := Some sa)\<rparr>"

text \<open>What a reconciliation of the account at \<open>key\<close> leaves to everybody else.\<close>

definition account_frame :: "string \<times> string \<Rightarrow> world \<Rightarrow> world \<Rightarrow> bool" where
  "account_frame key w w' \<longleftrightarrow>
     same_catalog (w_iam w) (w_iam w') \<and> named_accounts (w_iam w') \<and> w_wibs w' = w_wibs w \<and>
     w_sas w' key \<noteq> None \<and> (\<forall>key'. key' \<noteq> key \<longrightarrow> w_sas w' key' = w_sas w key')"

lemma fake_patchStatus:
  assumes "w_sas w (ksa_Namespace sa, ksa_Name sa) = Some s"
  shows "patchStatus fake_cluster sa st e r w =
    (Ok (), (write_account (s\<lparr>ksa_Namespace := ksa_Namespace sa, ksa_Name := ksa_Name sa,
        ksa_Annotations := status_annotations (ksa_Annotations s) st e r (format_RFC3339 (w_clock w))\<rparr>) w)
      \<lparr>w_clock := w_clock w + 1\<rparr>)"
  using assms
  by (simp add: patchStatus_def bindE_def call_def nowE_def) (simp add: fake_cluster_def write_account_def)

text \<open>An account as it is stored: under its own name, and ready when it was reconciled.\<close>

definition marked_ready :: "KubeServiceAccount \<Rightarrow> bool" where
  "marked_ready sa \<longleftrightarrow>
     (let a = ksa_Annotations sa in
      get a AnnotationStatus = StatusReady \<and> get a AnnotationLastError = [] \<and>
      TrimSpace (get a AnnotationServiceAccountID) \<noteq> [])"

lemma ready_annotations:
  "TrimSpace (res_ServiceAccountID r) \<noteq> [] \<Longrightarrow>
   marked_ready (s\<lparr>ksa_Annotations := status_annotations a StatusReady [] (Some r) t\<rparr>)"
  by (simp add: marked_ready_def status_annotations_def Let_def annotation_keys)

lemma fake_account_ensured:
  assumes cfg: "controller_ready p cfg" and able: "account_satisfiable k cfg sa (w_iam w)"
    and scopes: "ParseScopes k (get (ksa_Annotations sa) AnnotationScopes) = Inr scopes"
  shows "\<exists>res iam. EnsureWorkloadIdentity (lift_iam (fake_client k)) (annotation_input cfg sa scopes) w =
      (Ok res, w\<lparr>w_iam := iam\<rparr>) \<and>
    same_catalog (w_iam w) iam \<and> named_accounts iam \<and> TrimSpace (res_ServiceAccountID res) \<noteq> []"
proof -
  let ?inp = "annotation_input cfg sa scopes"
  from able scopes obtain sub where sub: "BuildKubernetesSubject (ksa_Namespace sa) (ksa_Name sa) = Inr sub"
    and sat: "satisfiable_input k ?inp (w_iam w)"
    by (auto simp: account_satisfiable_def Let_def)
  have "scopes \<noteq> []" using scopes ParseScopeList_result by (auto simp: ParseScopes_def Let_def split: if_splits)
  moreover have "TrimSpace (ksa_Namespace sa) \<noteq> []" "TrimSpace (ksa_Name sa) \<noteq> []"
    using sub by (auto simp: BuildKubernetesSubject_def Let_def split: if_splits)
  ultimately have "validateEnsureInput ?inp = None"
    using cfg able
    by (auto simp: validateEnsureInput_def annotation_input_def controller_ready_def
        account_satisfiable_def Let_def split: if_splits)
  moreover have "BuildKubernetesSubject (in_Namespace ?inp) (in_ServiceAccount ?inp) = Inr sub"
    using sub by (simp add: annotation_input_def)
  ultimately obtain res iam where "EnsureWorkloadIdentity (fake_client k) ?inp (w_iam w) = (Ok res, iam)"
    and iam: "same_catalog (w_iam w) iam" "named_accounts iam" "TrimSpace (res_ServiceAccountID res) \<noteq> []"
    using fake_Ensure_succeeds [of ?inp sub "w_iam w" k] sat by (auto simp: satisfiable_input_def)
  then have "EnsureWorkloadIdentity (lift_iam (fake_client k)) ?inp w = (Ok res, w\<lparr>w_iam := iam\<rparr>)"
    by (intro lift_run [OF _ lifts_Ensure]) simp_all
  with iam show ?thesis by blast
qed


lemma fake_ensured_ready:
  assumes cfg: "controller_ready p cfg" and able: "account_satisfiable k cfg sa (w_iam w)"
    and sa: "w_sas w (ksa_Namespace sa, ksa_Name sa) = Some s" "sa = s\<lparr>ksa_Namespace := ns, ksa_Name := n\<rparr>"
  shows "\<exists>w' s'. ensureAnnotated (lift_iam (fake_client k)) fake_cluster cfg sa w = (Ok (no_requeue, None), w') \<and>
    w_sas w' (ns, n) = Some s' \<and> marked_ready s' \<and> ksa_Finalizers s' = ksa_Finalizers s \<and>
    get (ksa_Annotations s') AnnotationOrganisationID = get (ksa_Annotations s) AnnotationOrganisationID \<and>
    annotatable k cfg ns n w' \<and> account_frame (ns, n) w w'"
proof -
  let ?keyed = "\<lambda>s. s\<lparr>ksa_Namespace := ns, ksa_Name := n\<rparr>"
  from able obtain scopes where scopes: "ParseScopes k (get (ksa_Annotations sa) AnnotationScopes) = Inr scopes"
    by (auto simp: account_satisfiable_def Let_def)
  define s1 where "s1 = sa\<lparr>ksa_Annotations :=
    status_annotations (ksa_Annotations sa) StatusPending [] None (format_RFC3339 (w_clock w))\<rparr>"
  define w1 where "w1 = (write_account s1 w)\<lparr>w_clock := w_clock w + 1\<rparr>"
  have pend: "patchStatus fake_cluster sa StatusPending [] None w = (Ok (), w1)"
    using sa by (simp add: fake_patchStatus w1_def s1_def write_account_def)
  have iam1: "w_iam w1 = w_iam w" by (simp add: w1_def write_account_def)
  obtain res iam where ens: "EnsureWorkloadIdentity (lift_iam (fake_client k)) (annotation_input cfg sa scopes) w1 =
      (Ok res, w1\<lparr>w_iam := iam\<rparr>)"
    and iam: "same_catalog (w_iam w) iam" "named_accounts iam" "TrimSpace (res_ServiceAccountID res) \<noteq> []"
    using fake_account_ensured [OF cfg, of k sa w1 scopes] able scopes iam1 by auto
  define s2 where "s2 = s1\<lparr>ksa_Annotations := status_annotations (ksa_Annotations s1) StatusReady [] (Some res)
      (format_RFC3339 (w_clock w1))\<rparr>"
  define w2 where "w2 = (write_account s2 (w1\<lparr>w_iam := iam\<rparr>))\<lparr>w_clock := w_clock w1 + 1\<rparr>"
  have w1: "w_sas w1 (ksa_Namespace sa, ksa_Name sa) = Some s1"
    by (simp add: w1_def write_account_def s1_def)
  have ready: "patchStatus fake_cluster sa StatusReady [] (Some res) (w1\<lparr>w_iam := iam\<rparr>) = (Ok (), w2)"
    using w1 sa(2) by (simp add: fake_patchStatus w2_def s2_def s1_def write_account_def)
  have cst: "ic_consts (lift_iam (fake_client k)) = k" by (simp add: fake_client_def)
  have run: "ensureAnnotated (lift_iam (fake_client k)) fake_cluster cfg sa w = (Ok (no_requeue, None), w2)"
    using able scopes
    by (auto simp: ensureAnnotated_def ignoreE_def tryE_def okE_def Let_def account_satisfiable_def
        pend ens ready cst)
  have "account_satisfiable k cfg s1 (w_iam w)"
    unfolding s1_def using able
    by (intro satisfiable_status) (auto simp: account_satisfiable_def satisfiable_input_def same_catalog_def Let_def)
  then have "account_satisfiable k cfg s2 iam"
    unfolding s2_def using iam by (intro satisfiable_status) auto
  then have "account_satisfiable k cfg (s2\<lparr>ksa_Namespace := ns, ksa_Name := n\<rparr>) iam"
    and keys: "ksa_Namespace s2 = ns" "ksa_Name s2 = n"
    using sa(2) by (cases s, simp_all add: s2_def s1_def)
  moreover have "w_sas w2 (ns, n) = Some s2" "w_iam w2 = iam"
    using keys by (simp_all add: w2_def write_account_def)
  ultimately have "annotatable k cfg ns n w2" by (simp add: annotatable_def)
  moreover have "marked_ready s2" unfolding s2_def by (rule ready_annotations) (rule iam(3))
  moreover have "ksa_Finalizers s2 = ksa_Finalizers s"
    "get (ksa_Annotations s2) AnnotationOrganisationID = get (ksa_Annotations s) AnnotationOrganisationID"
    using sa(2) by (simp_all add: s2_def s1_def status_keeps_input)
  moreover have "account_frame (ns, n) w w2"
    using iam keys \<open>w_sas w2 (ns, n) = Some s2\<close> sa(2)
    by (simp add: account_frame_def w2_def w1_def s1_def write_account_def)
  ultimately show ?thesis using run \<open>w_sas w2 (ns, n) = Some s2\<close> by blast
qed


section \<open>Repeated reconciliations\<close>

primrec managed_world :: "iam_consts \<Rightarrow> Config \<Rightarrow> string \<Rightarrow> string \<Rightarrow> nat \<Rightarrow> world \<Rightarrow> world" where
  "managed_world k cfg ns n 0 w = w"
| "managed_world k cfg ns n (Suc m) w =
     snd (ReconcileServiceAccount (lift_iam (fake_client k)) fake_cluster cfg ns n (managed_world k cfg ns n m w))"

lemma annotatable_run:
  assumes "annotatable k cfg ns n w" and "w_sas w (ns, n) = Some s"
  shows "ReconcileServiceAccount c fake_cluster cfg ns n w =
    (let sa = s\<lparr>ksa_Namespace := ns, ksa_Name := n\<rparr> in
     if FinalizerName \<in> set (ksa_Finalizers s) then ensureAnnotated c fake_cluster cfg sa w
     else (Ok (\<lparr>rr_Requeue = True, rr_RequeueAfter = 0\<rparr>, None),
       write_account (sa\<lparr>ksa_Finalizers := ksa_Finalizers s @ [FinalizerName]\<rparr>) w))"
proof -
  from assms have "\<not> ksa_Deleting s" "IsEnabled (ksa_Annotations s)" "watched cfg ns"
    by (auto simp: annotatable_def account_satisfiable_def Let_def)
  with assms(2) show ?thesis
    by (simp add: ReconcileServiceAccount_def tryE_def call_def okE_def Let_def watched_def)
      (auto simp: fake_cluster_def write_account_def okE_run)
qed

lemma fake_annotation_step:
  assumes cfg: "controller_ready p cfg" and able: "annotatable k cfg ns n w" and s: "w_sas w (ns, n) = Some s"
    and w': "w' = snd (ReconcileServiceAccount (lift_iam (fake_client k)) fake_cluster cfg ns n w)"
  shows "\<exists>s'. w_sas w' (ns, n) = Some s' \<and> FinalizerName \<in> set (ksa_Finalizers s') \<and> annotatable k cfg ns n w' \<and>
    get (ksa_Annotations s') AnnotationOrganisationID = get (ksa_Annotations s) AnnotationOrganisationID \<and>
    (FinalizerName \<in> set (ksa_Finalizers s) \<longrightarrow> marked_ready s') \<and> account_frame (ns, n) w w'"
proof (cases "FinalizerName \<in> set (ksa_Finalizers s)")
  case True
  have "account_satisfiable k cfg (s\<lparr>ksa_Namespace := ns, ksa_Name := n\<rparr>) (w_iam w)"
    using able s by (simp add: annotatable_def)
  from fake_ensured_ready [OF cfg this _ refl] s True w' show ?thesis
    by (auto simp: annotatable_run [OF able s] Let_def)
next
  case False
  let ?s = "s\<lparr>ksa_Namespace := ns, ksa_Name := n, ksa_Finalizers := ksa_Finalizers s @ [FinalizerName]\<rparr>"
  have w: "w' = write_account ?s w" using False w' by (simp add: annotatable_run [OF able s] Let_def)
  have "account_satisfiable k cfg (?s\<lparr>ksa_Namespace := ns, ksa_Name := n\<rparr>) (w_iam w)"
    using able s by (simp add: annotatable_def account_satisfiable_def annotation_input_def Let_def)
  moreover have "named_accounts (w_iam w)"
    using able by (auto simp: annotatable_def account_satisfiable_def satisfiable_input_def Let_def)
  then have "account_frame (ns, n) w w'"
    by (simp add: w write_account_def account_frame_def same_catalog_def)
  ultimately show ?thesis using False by (simp add: w write_account_def annotatable_def)
qed

lemma managed_ready:
  assumes cfg: "controller_ready p cfg" and able: "annotatable k cfg ns n w" and s: "w_sas w (ns, n) = Some s"
  shows "\<exists>s'. w_sas (managed_world k cfg ns n m w) (ns, n) = Some s' \<and> annotatable k cfg ns n (managed_world k cfg ns n m w) \<and>
    get (ksa_Annotations s') AnnotationOrganisationID = get (ksa_Annotations s) AnnotationOrganisationID \<and>
    (m \<ge> 1 \<longrightarrow> FinalizerName \<in> set (ksa_Finalizers s')) \<and> (m \<ge> 2 \<longrightarrow> marked_ready s')"
proof (induction m)
  case 0
  then show ?case using able s by simp
next
  case (Suc m)
  then obtain s' where s': "w_sas (managed_world k cfg ns n m w) (ns, n) = Some s'"
    "annotatable k cfg ns n (managed_world k cfg ns n m w)"
    "get (ksa_Annotations s') AnnotationOrganisationID = get (ksa_Annotations s) AnnotationOrganisationID"
    "m \<ge> 1 \<Longrightarrow> FinalizerName \<in> set (ksa_Finalizers s')" by blast
  from fake_annotation_step [OF cfg s'(2,1) refl] s'(3,4) show ?case by auto
qed


section \<open>The property\<close>


section \<open>A concrete process and account\<close>

lemma demo_satisfiable:
  assumes "TrimSpace (in_ClusterIdentity inp) = ''k8s-1''"
    and "TrimSpace (in_PolicyRef inp) = ''obs-write''" "TrimSpace (in_RoleRef inp) = ''reader''"
    and "in_AllowedPolicies inp = []" "in_AllowedRoles inp = []"
  shows "satisfiable_input demo_consts inp demo_iam"
proof -
  have "provider_available inp demo_iam"
    by (simp add: assms provider_available_def demo_iam_def matching_providers_def demo_provider_def demo_facts)
  moreover have "policy_available demo_consts inp demo_iam"
    by (simp add: assms policy_available_def resolveIamPolicy_def demo_iam_def run_defs fake_ops demo_trim
        demo_fold demo_policy_def CheckRefAllowlist_def Let_def)
  moreover have "role_available demo_consts inp demo_iam"
    by (simp add: assms role_available_def resolveOrganisationRole_def demo_iam_def run_defs fake_ops
        demo_trim demo_fold demo_role_def CheckRefAllowlist_def Let_def)
  moreover have "named_accounts demo_iam" by (simp add: demo_iam_def named_accounts_def)
  ultimately show ?thesis by (simp add: satisfiable_input_def)
qed

definition annotated_ksa :: KubeServiceAccount where
  "annotated_ksa = \<lparr>ksa_Namespace = ''ns'', ksa_Name = ''app'',
     ksa_Annotations = fmap_of_list [(AnnotationEnabled, ''true''), (AnnotationPolicy, ''obs-write''),
       (AnnotationRole, ''reader'')],
     ksa_Finalizers = [], ksa_Deleting = False\<rparr>"

definition annotated_world :: world where
  "annotated_world = demo_world\<lparr>w_sas := (\<lambda>_. None)((''ns'', ''app'') := Some annotated_ksa)\<rparr>"

definition annotation_flags :: flags where
  "annotation_flags = demo_flags\<lparr>f_enableServiceAccountAnnotations := True\<rparr>"

lemma annotation_start: "\<exists>cfg tc opts comps. start demo_env annotation_flags = Inr (cfg, tc, opts, comps)"
proof -
  have "case start demo_env annotation_flags of Inl _ \<Rightarrow> False | Inr _ \<Rightarrow> True" by code_simp
  then show ?thesis by (cases "start demo_env annotation_flags") auto
qed

lemma annotated_annotatable:
  assumes "start demo_env annotation_flags = Inr (cfg, tc, opts, comps)"
  shows "annotatable demo_consts cfg ''ns'' ''app'' annotated_world"
proof -
  have cfg: "cfg_WatchNamespaces cfg = []" "cfg_ClusterIdentity cfg = ''k8s-1''"
    "cfg_AllowedPolicies cfg = []" "cfg_AllowedRoles cfg = []"
    by (simp_all add: start_ok(1) [OF assms] flags_config_def annotation_flags_def demo_flags_def
        default_flags_def splitCSV_def demo_trim)
  have ann: "get (ksa_Annotations annotated_ksa) AnnotationEnabled = ''true''"
    "get (ksa_Annotations annotated_ksa) AnnotationPolicy = ''obs-write''"
    "get (ksa_Annotations annotated_ksa) AnnotationRole = ''reader''"
    "get (ksa_Annotations annotated_ksa) AnnotationScopes = []"
    by (simp_all add: annotated_ksa_def get_def annotation_keys)
  have scopes: "ParseScopes demo_consts [] = Inr [AccessCredentialsScopeOpenID]" by code_simp
  have on: "IsEnabled (ksa_Annotations annotated_ksa)"
    unfolding IsEnabled_def ann by code_simp
  have keyed: "annotated_ksa\<lparr>ksa_Namespace := ''ns'', ksa_Name := ''app''\<rparr> = annotated_ksa"
    and live: "\<not> ksa_Deleting annotated_ksa"
    and names: "ksa_Namespace annotated_ksa = ''ns''" "ksa_Name annotated_ksa = ''app''"
    by (simp_all add: annotated_ksa_def)
  have sat: "satisfiable_input demo_consts (annotation_input cfg annotated_ksa sc) demo_iam" for sc
    by (rule demo_satisfiable) (simp_all add: annotation_input_def ann cfg demo_trim)
  have "w_iam annotated_world = demo_iam" "w_sas annotated_world (''ns'', ''app'') = Some annotated_ksa"
    by (simp_all add: annotated_world_def demo_world_def)
  then show ?thesis
    using on live
    by (simp add: annotatable_def account_satisfiable_def keyed ann scopes sat names demo_trim demo_facts
        watched_def cfg Let_def)
qed


end
