(* ===== verification/Registry.thy ===== *)
theory Registry
  imports AnnotatedReady
begin

text \<open>
  The cloud accounts as an abstract registry: the set of workloads (key, namespace, name) that
  have one. Over any sequence of successful runs, ensuring enters a workload and deleting strikes
  it off, and nothing else happens: no workload gets a second account, and accounts without the
  controller's labels stay as they are.
\<close>

section \<open>The steps of a run\<close>

text \<open>The provider and the key that \<^verbatim>\<open>EnsureWorkloadIdentity\<close> finds, and its four steps.\<close>

lemma Ensure_steps:
  assumes "EnsureWorkloadIdentity c inp w = (Ok r, w')"
  shows "\<exists>p w1 s w2 f w3 res w4 u.
    FindProviderByClusterID c (in_ClusterIdentity inp) w = (Ok p, w1) \<and>
    BuildKubernetesSubject (in_Namespace inp) (in_ServiceAccount inp) = Inr (res_Subject r) \<and>
    res_Issuer r = NormalizeIssuer (idp_ProviderIssuer p) \<and>
    res_Key r = ResourceKey (in_Namespace inp) (in_ServiceAccount inp) (res_Subject r)
      (NormalizeIssuer (idp_ProviderIssuer p)) \<and>
    ensureServiceAccount c (fst (result_names inp r)) (res_Subject r) (in_Namespace inp)
      (in_ServiceAccount inp) (result_labels inp r) w1 = (Ok (Some s), w2) \<and>
    ensureFederatedIdentity c p (Some s) (snd (result_names inp r)) (res_Subject r) (in_Scopes inp)
      (in_TrustedAudiences inp) (result_labels inp r) w2 = (Ok (Some f), w3) \<and>
    ensurePolicyStep c inp s (res_Key r) (result_labels inp r) res w3 = (Ok r, w4) \<and>
    ensureRoleStep c inp s (res_Key r) (result_labels inp r) w4 = (Ok u, w')"
proof -
  from assms obtain p w1 where val: "validateEnsureInput inp = None"
    and p: "FindProviderByClusterID c (in_ClusterIdentity inp) w = (Ok p, w1)"
    and iss: "NormalizeIssuer (idp_ProviderIssuer p) \<noteq> []"
    by (auto simp: EnsureWorkloadIdentity_def Let_def bindE_ok checkE_ok failE_ok split: if_splits)
  from assms val p iss obtain sub where
    sub: "BuildKubernetesSubject (in_Namespace inp) (in_ServiceAccount inp) = Inr sub"
    by (auto simp: EnsureWorkloadIdentity_def Let_def prog_simps failE_ok split: sum.splits)
  let ?iss = "NormalizeIssuer (idp_ProviderIssuer p)"
  let ?key = "ResourceKey (in_Namespace inp) (in_ServiceAccount inp) sub ?iss"
  let ?labels = "OwnershipLabels ?key (in_Namespace inp) (in_ServiceAccount inp)"
  let ?names = "DefaultResourceNames ?key (in_NameOverride inp)"
  let ?res = "\<lambda>s f. \<lparr> res_ProviderID = idp_Identity p, res_ServiceAccountID = sa_Identity s,
     res_FederatedIdentityID = fi_Identity f, res_PolicyID = [], res_Issuer = ?iss,
     res_Subject = sub, res_Key = ?key\<rparr>"
  from assms val p iss sub obtain s w2 f w3 w4 u where
    sa: "ensureServiceAccount c (fst ?names) sub (in_Namespace inp) (in_ServiceAccount inp) ?labels w1
      = (Ok (Some s), w2)"
    and fi: "ensureFederatedIdentity c p (Some s) (snd ?names) sub (in_Scopes inp)
      (in_TrustedAudiences inp) ?labels w2 = (Ok (Some f), w3)"
    and pol: "ensurePolicyStep c inp s ?key ?labels (?res s f) w3 = (Ok r, w4)"
    and rol: "ensureRoleStep c inp s ?key ?labels w4 = (Ok u, w')"
    by (auto simp: EnsureWorkloadIdentity_def Let_def bindE_run bindE_ok checkE_run derefE_ok okE_ok)
  have "res_Subject r = sub" "res_Key r = ?key" "res_Issuer r = ?iss"
    using pol by (auto simp: ensurePolicyStep_def Let_def bindE_ok okE_ok split: if_splits)
  then have "result_labels inp r = ?labels" "result_names inp r = ?names"
    by (simp_all add: result_labels_def result_names_def)
  with p sub sa fi pol rol \<open>res_Subject r = sub\<close> \<open>res_Key r = ?key\<close> \<open>res_Issuer r = ?iss\<close> show ?thesis by metis
qed

section \<open>The abstract registry\<close>

type_synonym workload = "string \<times> string \<times> string"

datatype entry = Enter workload | Leave workload

primrec registry_step :: "entry \<Rightarrow> workload set \<Rightarrow> workload set" where
  "registry_step (Enter o') S = insert o' S"
| "registry_step (Leave o') S = S - {o'}"

text \<open>What the store says: whose account it is, by the labels alone.\<close>

definition managed :: "ServiceAccount \<Rightarrow> bool" where
  "managed s \<longleftrightarrow> get (sa_Labels s) LabelManagedBy = ValueManagedBy \<and>
     get (sa_Labels s) LabelWIFVCS = ValueVCSKubernetes"

definition workload_of :: "ServiceAccount \<Rightarrow> workload" where
  "workload_of s = (get (sa_Labels s) LabelWIFKey, get (sa_Labels s) LabelK8sNamespace,
     get (sa_Labels s) LabelK8sServiceAccount)"

definition registered :: "ServiceAccount list \<Rightarrow> workload set" where
  "registered xs = set (map workload_of (filter managed xs))"

definition one_each :: "ServiceAccount list \<Rightarrow> bool" where
  "one_each xs \<longleftrightarrow> distinct (map sa_Identity xs) \<and> distinct (map workload_of (filter managed xs))"

lemma match_workload:
  "LabelsMatch (sa_Labels s) (OwnershipLabels k ns n) \<longleftrightarrow> managed s \<and> workload_of s = (k, ns, n)"
  by (auto simp: LabelsMatch_ownership managed_def workload_of_def)

lemma registered_mset: "mset xs = mset ys \<Longrightarrow> registered xs = registered ys"
  by (drule mset_eq_setD) (simp add: registered_def)

lemma one_each_mset:
  assumes "mset xs = mset ys"
  shows "one_each xs = one_each ys"
proof -
  have "distinct (map sa_Identity xs) = distinct (map sa_Identity ys)"
    by (rule mset_eq_imp_distinct_iff) (simp add: assms)
  moreover have "distinct (map workload_of (filter managed xs)) = distinct (map workload_of (filter managed ys))"
    by (rule mset_eq_imp_distinct_iff) (simp add: assms mset_filter)
  ultimately show ?thesis by (simp add: one_each_def)
qed

lemma one_each_filter:
  assumes "one_each xs"
  shows "one_each (filter P xs)"
proof -
  have "filter managed (filter P xs) = filter P (filter managed xs)" by (simp add: conj_commute)
  with assms show ?thesis by (simp only: one_each_def distinct_map_filter)
qed

lemma one_each_owned:
  assumes "one_each xs"
  shows "length (filter (\<lambda>s. LabelsMatch (sa_Labels s) (OwnershipLabels k ns n)) xs) \<le> 1"
proof -
  let ?own = "filter (\<lambda>s. LabelsMatch (sa_Labels s) (OwnershipLabels k ns n)) xs"
  have own: "?own = filter (\<lambda>s. workload_of s = (k, ns, n)) (filter managed xs)"
    by (simp add: match_workload conj_commute)
  have "distinct (map workload_of (filter managed xs))" using assms by (simp add: one_each_def)
  then have "distinct (map workload_of ?own)" unfolding own by (rule distinct_map_filter)
  moreover have "set (map workload_of ?own) \<subseteq> {(k, ns, n)}" by (auto simp: match_workload)
  ultimately have "length (map workload_of ?own) \<le> card {(k, ns, n)}"
    by (metis card_mono distinct_card finite.emptyI finite.insertI)
  then show ?thesis by simp
qed

section \<open>A store that gives fresh identities\<close>

locale iam_store_fresh = iam_store_del +
  assumes sa_fresh: "CreateServiceAccount c q w = (Inr (Some s), w') \<Longrightarrow> sa_Identity s \<notin> sa_Identity ` set (sas w)"

context iam_store
begin

lemma ensureFI_keeps:
  assumes "ensureFederatedIdentity c p s n sub sc au l w = (Ok (Some f), w')"
  shows "sas w' = sas w \<and> provs w' = provs w"
proof -
  let ?k = "ic_consts c"
  from assms obtain x v where find: "findByLabelsFI c l w = (Ok x, v)"
    and rest: "(case x of
        None \<Rightarrow> bindE (derefE s) (\<lambda>s. call (CreateFederatedIdentity c (fi_create_request ?k p s n sub sc au l)))
      | Some f \<Rightarrow> if \<not> fiNeedsUpdate ?k f n (fi_description sub) sub sc au l then okE (Some f)
          else call (UpdateFederatedIdentity c (fi_Identity f) (fi_update_request ?k n sub sc au l))) v =
      (Ok (Some f), w')"
    by (auto simp: ensureFederatedIdentity_def bindE_ok)
  from findFI_ok [OF find] rest show ?thesis
    by (auto simp: bindE_ok derefE_ok call_ok okE_ok split: option.splits if_splits
        dest: fi_created fi_updated)
qed

text \<open>A run leaves the accounts alone, or adds the one that was missing.\<close>

lemma ensure_accounts:
  assumes "EnsureWorkloadIdentity c inp w = (Ok r, w')"
  shows "if filter (\<lambda>s. LabelsMatch (sa_Labels s) (result_labels inp r)) (sas w) \<noteq> [] then sas w' = sas w
    else \<exists>q s v. CreateServiceAccount c q w = (Inr (Some s), v) \<and> sa_Labels s = result_labels inp r \<and>
      mset (sas w') = add_mset s (mset (sas w))"
    and "provs w' = provs w"
proof -
  let ?own = "filter (\<lambda>s. LabelsMatch (sa_Labels s) (result_labels inp r)) (sas w)"
  from Ensure_steps [OF assms] obtain p w1 s w2 f w3 res w4 u where
    p: "FindProviderByClusterID c (in_ClusterIdentity inp) w = (Ok p, w1)"
    and sa: "ensureServiceAccount c (fst (result_names inp r)) (res_Subject r) (in_Namespace inp)
      (in_ServiceAccount inp) (result_labels inp r) w1 = (Ok (Some s), w2)"
    and fi: "ensureFederatedIdentity c p (Some s) (snd (result_names inp r)) (res_Subject r) (in_Scopes inp)
      (in_TrustedAudiences inp) (result_labels inp r) w2 = (Ok (Some f), w3)"
    and pol: "ensurePolicyStep c inp s (res_Key r) (result_labels inp r) res w3 = (Ok r, w4)"
    and rol: "ensureRoleStep c inp s (res_Key r) (result_labels inp r) w4 = (Ok u, w')" by blast
  from FindProvider_view [OF refl p] have w1: "w1 = w" by simp
  from ensureFI_keeps [OF fi] ensurePolicyStep_ok [OF pol] ensureRoleStep_ok [OF rol]
  have later: "sas w' = sas w2" "provs w' = provs w2" by (auto simp: same_but_bindings_def)
  from sa w1 obtain x v where find: "findByLabelsSA c (result_labels inp r) w = (Ok x, v)"
    and rest: "(case x of Some s \<Rightarrow> okE (Some s)
      | None \<Rightarrow> call (CreateServiceAccount c (sa_create_request (fst (result_names inp r)) (res_Subject r)
          (in_Namespace inp) (in_ServiceAccount inp) (result_labels inp r)))) v = (Ok (Some s), w2)"
    by (auto simp: ensureServiceAccount_def bindE_ok)
  from findSA_ok [OF find] have v: "v = w" and x: "x = (case ?own of [] \<Rightarrow> None | s # _ \<Rightarrow> Some s)" by auto
  have kept: "(if ?own \<noteq> [] then sas w2 = sas w
    else \<exists>q s v. CreateServiceAccount c q w = (Inr (Some s), v) \<and> sa_Labels s = result_labels inp r \<and>
      mset (sas w2) = add_mset s (mset (sas w))) \<and> provs w2 = provs w"
  proof (cases ?own)
    case Nil
    with rest v x have "CreateServiceAccount c (sa_create_request (fst (result_names inp r)) (res_Subject r)
        (in_Namespace inp) (in_ServiceAccount inp) (result_labels inp r)) w = (Inr (Some s), w2)"
      by (simp add: call_ok)
    from sa_created [OF this] this Nil show ?thesis by auto
  next
    case (Cons s' ss)
    with rest v x show ?thesis by (simp add: okE_ok)
  qed
  show "if ?own \<noteq> [] then sas w' = sas w
    else \<exists>q s v. CreateServiceAccount c q w = (Inr (Some s), v) \<and> sa_Labels s = result_labels inp r \<and>
      mset (sas w') = add_mset s (mset (sas w))"
    unfolding later(1) by (rule conjunct1 [OF kept])
  show "provs w' = provs w" unfolding later(2) by (rule conjunct2 [OF kept])
qed

end

section \<open>Each operation is a step of the registry\<close>

definition unmanaged :: "ServiceAccount list \<Rightarrow> ServiceAccount set" where
  "unmanaged xs = {s \<in> set xs. \<not> managed s}"

context iam_store_fresh
begin

lemma ensure_enters:
  assumes "EnsureWorkloadIdentity c inp w = (Ok r, w')" and "one_each (sas w)"
  shows "registered (sas w') = insert (res_Key r, in_Namespace inp, in_ServiceAccount inp) (registered (sas w)) \<and>
    one_each (sas w') \<and> unmanaged (sas w') = unmanaged (sas w)"
proof (cases "filter (\<lambda>s. LabelsMatch (sa_Labels s) (result_labels inp r)) (sas w) = []")
  case True
  let ?o = "(res_Key r, in_Namespace inp, in_ServiceAccount inp)"
  from ensure_accounts(1) [OF assms(1)] True obtain q s v where
    new: "CreateServiceAccount c q w = (Inr (Some s), v)" and labels: "sa_Labels s = result_labels inp r"
    and m: "mset (sas w') = mset (s # sas w)" by (auto split: if_splits)
  have s: "managed s" "workload_of s = ?o"
    using match_workload [of s "res_Key r" "in_Namespace inp" "in_ServiceAccount inp"] OwnershipLabels_self
    by (simp_all add: labels result_labels_def)
  have none: "?o \<notin> registered (sas w)"
    using True by (auto simp: registered_def result_labels_def match_workload filter_empty_conv)
  have "one_each (s # sas w)"
    using assms(2) sa_fresh [OF new] s none by (simp add: one_each_def registered_def)
  moreover have "registered (s # sas w) = insert ?o (registered (sas w))"
    using s by (simp add: registered_def)
  moreover have "unmanaged (sas w') = unmanaged (sas w)"
    using mset_eq_setD [OF m] s by (auto simp: unmanaged_def)
  ultimately show ?thesis using registered_mset [OF m] one_each_mset [OF m] by simp
next
  case False
  then obtain s where "s \<in> set (sas w)" "LabelsMatch (sa_Labels s) (result_labels inp r)"
    by (auto simp: filter_empty_conv)
  then have "(res_Key r, in_Namespace inp, in_ServiceAccount inp) \<in> registered (sas w)"
    by (force simp: registered_def result_labels_def match_workload)
  moreover have "sas w' = sas w" using ensure_accounts(1) [OF assms(1)] False by simp
  ultimately show ?thesis using assms(2) by (simp add: insert_absorb)
qed

lemma delete_leaves:
  assumes run: "DeleteWorkloadIdentity c ns sa iss roleRef policyRef w = (Ok u, w')"
    and sub: "BuildKubernetesSubject ns sa = Inr sub" and one: "one_each (sas w)"
  shows "registered (sas w') = registered (sas w) - {(ResourceKey ns sa sub iss, ns, sa)} \<and>
    one_each (sas w') \<and> unmanaged (sas w') = unmanaged (sas w)"
proof -
  let ?o = "(ResourceKey ns sa sub iss, ns, sa)"
  let ?want = "OwnershipLabels (ResourceKey ns sa sub iss) ns sa"
  let ?own = "filter (\<lambda>s. LabelsMatch (sa_Labels s) ?want) (sas w)"
  note del = Delete_ok(1) [OF run sub refl]
  have dist: "distinct (map sa_Identity (sas w))" using one by (simp add: one_each_def)
  have set': "set (sas w') = {s \<in> set (sas w). \<not> LabelsMatch (sa_Labels s) ?want}"
    by (rule filter_one_removed [OF dist one_each_owned [OF one]])
      (use del in \<open>simp split: list.splits\<close>)
  then have "registered (sas w') = registered (sas w) - {?o}" "unmanaged (sas w') = unmanaged (sas w)"
    by (auto simp: registered_def unmanaged_def match_workload)
  moreover have "one_each (sas w')"
  proof (cases ?own)
    case Nil
    with del one show ?thesis by simp
  next
    case (Cons s ss)
    with del have "sas w' = filter (\<lambda>x. sa_Identity x \<noteq> sa_Identity s) (sas w)" by simp
    then show ?thesis using one_each_filter [OF one] by simp
  qed
  ultimately show ?thesis by blast
qed

end

section \<open>Sequences of runs\<close>

inductive performs :: "'w iam_client \<Rightarrow> 'w \<Rightarrow> entry list \<Rightarrow> 'w \<Rightarrow> bool" for c where
  nothing: "performs c w [] w"
| ensures: "EnsureWorkloadIdentity c inp w = (Ok r, v) \<Longrightarrow> performs c v es w' \<Longrightarrow>
    performs c w (Enter (res_Key r, in_Namespace inp, in_ServiceAccount inp) # es) w'"
| deletes: "DeleteWorkloadIdentity c ns sa iss roleRef policyRef w = (Ok (), v) \<Longrightarrow>
    BuildKubernetesSubject ns sa = Inr sub \<Longrightarrow> performs c v es w' \<Longrightarrow>
    performs c w (Leave (ResourceKey ns sa sub iss, ns, sa) # es) w'"

context iam_store_fresh
begin

lemma performs_registry:
  assumes "performs c w es w'" and "one_each (sas w)"
  shows "registered (sas w') = fold registry_step es (registered (sas w)) \<and> one_each (sas w') \<and>
    unmanaged (sas w') = unmanaged (sas w)"
  using assms by (induction) (auto dest!: ensure_enters delete_leaves)

end

section \<open>A client with fresh identities\<close>

text \<open>
  The in-memory API names every new account \<^verbatim>\<open>sa-new\<close>; here it is a name that is longer than
  any in use. Only the creation of accounts is exchanged, which the other steps do not use.
\<close>

lemma other_steps [simp]:
  "FindProviderByClusterID (c\<lparr>CreateServiceAccount := g\<rparr>) = FindProviderByClusterID c"
  "findByLabelsSA (c\<lparr>CreateServiceAccount := g\<rparr>) = findByLabelsSA c"
  "ensureFederatedIdentity (c\<lparr>CreateServiceAccount := g\<rparr>) = ensureFederatedIdentity c"
  "ensurePolicyStep (c\<lparr>CreateServiceAccount := g\<rparr>) = ensurePolicyStep c"
  "ensureRoleStep (c\<lparr>CreateServiceAccount := g\<rparr>) = ensureRoleStep c"
  by (intro ext; simp add: FindProviderByClusterID_def findByLabelsSA_def ensureFederatedIdentity_def
      findByLabelsFI_def ensurePolicyStep_def ensureRoleStep_def resolveIamPolicy_def
      resolveOrganisationRole_def ensurePolicyBinding_def ensureRoleBinding_def hasPolicyBindingForSA_def
      hasRoleBindingForSA_def cong: if_cong option.case_cong sum.case_cong)+

definition fresh_create :: "CreateServiceAccountRequest \<Rightarrow> (ServiceAccount option, fakeIAM) api" where
  "fresh_create q f =
     (let s = \<lparr>sa_Identity = concat (map sa_Identity (sas f)) @ ''x'', sa_Name = csa_Name q,
                sa_Labels = csa_Labels q, sa_Annotations = csa_Annotations q\<rparr>
      in (Inr (Some s), f\<lparr>createSACalls := createSACalls f + 1, sas := sas f @ [s]\<rparr>))"

definition fresh_client :: "iam_consts \<Rightarrow> fakeIAM iam_client" where
  "fresh_client k = (fake_client k)\<lparr>CreateServiceAccount := fresh_create\<rparr>"

lemma fresh_identity: "concat (map sa_Identity xs) @ ''x'' \<notin> sa_Identity ` set xs"
proof -
  have "length (sa_Identity s) \<le> length (concat (map sa_Identity xs))" if "s \<in> set xs" for s
    using that by (induction xs) auto
  then have "length (sa_Identity s) < length (concat (map sa_Identity xs) @ ''x'')" if "s \<in> set xs" for s
    using that by (simp add: le_imp_less_Suc)
  then show ?thesis by (metis (no_types, lifting) imageE less_irrefl)
qed

interpretation fresh: iam_store_fresh "fresh_client k" providers sas fis roles bindings policies pBindings
proof (unfold_locales, goal_cases)
  case (19 i uq w f w')
  then show ?case using fk.fi_updated [of k i uq w f w'] by (simp add: fresh_client_def)
qed (auto simp: fresh_client_def fresh_create_def fresh_identity fake_ops Let_def created_fi_def binds_bound_account
      split: option.splits)

lemma patched_Ensure_succeeds:
  assumes valid: "validateEnsureInput inp = None"
    and sub: "BuildKubernetesSubject (in_Namespace inp) (in_ServiceAccount inp) = Inr sub"
    and sat: "satisfiable_input k inp w"
    and new: "\<And>q. \<exists>s w'. g q w = (Inr (Some s), w') \<and> same_catalog w w'"
  shows "\<exists>r w'. EnsureWorkloadIdentity ((fake_client k)\<lparr>CreateServiceAccount := g\<rparr>) inp w = (Ok r, w') \<and>
    same_catalog w w'"
proof -
  let ?c = "(fake_client k)\<lparr>CreateServiceAccount := g\<rparr>"
  from sat have refs: "policy_available k inp w" "role_available k inp w" "provider_available inp w"
    by (simp_all add: satisfiable_input_def)
  from valid have cluster: "TrimSpace (in_ClusterIdentity inp) \<noteq> []"
    by (auto simp: validateEnsureInput_def Let_def split: if_splits)
  from refs(3) obtain p where p: "matching_providers (TrimSpace (in_ClusterIdentity inp)) (providers w) = [p]"
    "NormalizeIssuer (idp_ProviderIssuer p) \<noteq> []" by (auto simp: provider_available_def)
  then have find: "FindProviderByClusterID (fake_client k) (in_ClusterIdentity inp) w = (Ok p, w)"
    using FindProvider_run [OF cluster, of "fake_client k" w "providers w" w] by simp
  define iss where "iss = NormalizeIssuer (idp_ProviderIssuer p)"
  define key where "key = ResourceKey (in_Namespace inp) (in_ServiceAccount inp) sub iss"
  define names where "names = DefaultResourceNames key (in_NameOverride inp)"
  define labels where "labels = OwnershipLabels key (in_Namespace inp) (in_ServiceAccount inp)"
  have "\<exists>s w1. ensureServiceAccount ?c (fst names) sub (in_Namespace inp) (in_ServiceAccount inp) labels w =
    (Ok (Some s), w1) \<and> same_catalog w w1"
  proof (cases "find (\<lambda>s. LabelsMatch (sa_Labels s) labels) (sas w)")
    case None
    with new [of "sa_create_request (fst names) sub (in_Namespace inp) (in_ServiceAccount inp) labels"]
    show ?thesis by (auto simp: ensureServiceAccount_def findByLabelsSA_def run_defs)
  next
    case (Some s)
    then show ?thesis by (auto simp: ensureServiceAccount_def findByLabelsSA_def run_defs same_catalog_def)
  qed
  then obtain s w1 where s: "ensureServiceAccount ?c (fst names) sub (in_Namespace inp) (in_ServiceAccount inp)
      labels w = (Ok (Some s), w1)" "same_catalog w w1" by blast
  obtain f w2 where f: "ensureFederatedIdentity (fake_client k) p (Some s) (snd names) sub (in_Scopes inp)
      (in_TrustedAudiences inp) labels w1 = (Ok (Some f), w2)" "same_catalog w1 w2"
    using fake_ensureFederatedIdentity by blast
  define res where "res = \<lparr>res_ProviderID = idp_Identity p, res_ServiceAccountID = sa_Identity s,
    res_FederatedIdentityID = fi_Identity f, res_PolicyID = [], res_Issuer = iss, res_Subject = sub, res_Key = key\<rparr>"
  note w2 = same_catalog_trans [OF s(2) f(2)]
  obtain r w3 where r: "ensurePolicyStep (fake_client k) inp s key labels res w2 = (Ok r, w3)" "same_catalog w2 w3"
    using fake_policy_step [OF refs(1) w2] by blast
  note w3 = same_catalog_trans [OF w2 r(2)]
  obtain w4 where w4: "ensureRoleStep (fake_client k) inp s key labels w3 = (Ok (), w4)" "same_catalog w3 w4"
    using fake_role_step [OF refs(2) w3] by blast
  have "EnsureWorkloadIdentity ?c inp w = (Ok r, w4)"
    using p(2) s(1) f(1) r(1) w4(1)
    by (simp add: EnsureWorkloadIdentity_def valid sub find bindE_run checkE_run derefE_run okE_run Let_def
        iss_def [symmetric] key_def [symmetric] names_def [symmetric] labels_def [symmetric] res_def [symmetric])
  with same_catalog_trans [OF w3 w4(2)] show ?thesis by blast
qed

lemma fresh_Ensure_succeeds:
  assumes "validateEnsureInput inp = None" and "satisfiable_input k inp w"
    and "BuildKubernetesSubject (in_Namespace inp) (in_ServiceAccount inp) = Inr sub"
  shows "\<exists>r w'. EnsureWorkloadIdentity (fresh_client k) inp w = (Ok r, w') \<and> same_catalog w w'"
  unfolding fresh_client_def
  by (rule patched_Ensure_succeeds [OF assms(1,3,2)]) (simp add: fresh_create_def same_catalog_def Let_def)

lemma fresh_Delete_succeeds:
  assumes "BuildKubernetesSubject ns sa = Inr sub"
  shows "\<exists>w'. DeleteWorkloadIdentity (fresh_client k) ns sa iss [] [] w = (Ok (), w')"
proof -
  have "TrimSpace [] = []" by code_simp
  then show ?thesis
    by (auto simp: DeleteWorkloadIdentity_def assms Let_def findByLabelsFI_def findByLabelsSA_def
        deletePolicyStep_def deleteRoleStep_def fresh_client_def fake_ops run_defs split: option.split)
qed

section \<open>The property\<close>

text \<open>
  C5: the accounts in the cloud are a registry of workloads: against a store that gives fresh
  identities, over any sequence of successful runs of \<^verbatim>\<open>EnsureWorkloadIdentity\<close> and
  \<^verbatim>\<open>DeleteWorkloadIdentity\<close> for any workloads, the set of workloads with an account develops as
  the abstract registry does: ensuring enters the workload, deleting strikes it off. No workload
  ever has two accounts, and accounts without the controller's labels stay what they are.
\<close>

theorem registry_refinement:
  assumes "iam_store_fresh c vprov vsas vfis vroles vrbs vpols vpbs"
    and "performs c w es w'" and "one_each (vsas w)"
  shows "registered (vsas w') = fold registry_step es (registered (vsas w)) \<and> one_each (vsas w') \<and>
    unmanaged (vsas w') = unmanaged (vsas w)"
  using iam_store_fresh.performs_registry [OF assms] .

definition demo_workload :: workload where
  "demo_workload = (demo_key, ''ns'', ''app'')"

lemma demo_input_satisfiable: "satisfiable_input demo_consts (demo_input\<lparr>in_AllowedPolicies := []\<rparr>) demo_iam"
  by (rule demo_satisfiable) (simp_all add: demo_input_def demo_trim)

theorem registry_refinement_witness:
  "\<exists>w w'. performs (fresh_client demo_consts) demo_iam [Enter demo_workload] w \<and>
     registered (sas w) = {demo_workload} \<and>
     performs (fresh_client demo_consts) demo_iam [Enter demo_workload, Leave demo_workload] w' \<and>
     registered (sas w') = {}"
proof -
  let ?inp = "demo_input\<lparr>in_AllowedPolicies := []\<rparr>" and ?c = "fresh_client demo_consts"
  have valid: "validateEnsureInput ?inp = None"
    by (simp add: demo_input_def validateEnsureInput_def demo_trim)
  have sub: "BuildKubernetesSubject (in_Namespace ?inp) (in_ServiceAccount ?inp) = Inr demo_subject"
    by (simp add: demo_input_def demo_facts)
  from fresh_Ensure_succeeds [OF valid demo_input_satisfiable sub] obtain r w where
    ens: "EnsureWorkloadIdentity ?c ?inp demo_iam = (Ok r, w)" by blast
  from Ensure_steps [OF ens] obtain p w1 where
    p: "FindProviderByClusterID ?c (in_ClusterIdentity ?inp) demo_iam = (Ok p, w1)"
    and s: "BuildKubernetesSubject (in_Namespace ?inp) (in_ServiceAccount ?inp) = Inr (res_Subject r)"
    and key: "res_Key r = ResourceKey (in_Namespace ?inp) (in_ServiceAccount ?inp) (res_Subject r)
      (NormalizeIssuer (idp_ProviderIssuer p))" by blast
  have "p = demo_provider" using p demo_find by (simp add: fresh_client_def demo_input_def)
  then have r: "(res_Key r, in_Namespace ?inp, in_ServiceAccount ?inp) = demo_workload"
    using s sub key demo_facts(2)
    by (simp add: demo_workload_def demo_key_def demo_input_def demo_provider_def)
  obtain w' where del: "DeleteWorkloadIdentity ?c ''ns'' ''app'' ''https://oidc.example'' [] [] w = (Ok (), w')"
    using fresh_Delete_succeeds [OF demo_facts(1)] by blast
  have enter: "performs ?c w es v \<Longrightarrow> performs ?c demo_iam (Enter demo_workload # es) v" for es v
    using performs.ensures [OF ens] by (simp only: r)
  have leave: "performs ?c w [Leave demo_workload] w'"
    using performs.deletes [OF del demo_facts(1) performs.nothing]
    by (simp only: demo_workload_def demo_key_def)
  have none: "sas demo_iam = []" by (simp add: demo_iam_def)
  have start: "one_each (sas demo_iam)" "registered (sas demo_iam) = {}"
    by (simp_all add: none one_each_def registered_def)
  have run: "performs ?c demo_iam [Enter demo_workload] w"
    "performs ?c demo_iam [Enter demo_workload, Leave demo_workload] w'"
    using enter [OF performs.nothing] enter [OF leave] by simp_all
  from registry_refinement [OF fresh.iam_store_fresh_axioms run(1) start(1)]
    registry_refinement [OF fresh.iam_store_fresh_axioms run(2) start(1)] run start(2)
  show ?thesis by (intro exI [of _ w] exI [of _ w']) simp
qed

end
