(* ===== verification/Overlap.thy ===== *)
theory Overlap
  imports Registry
begin

text \<open>
  Two runs that overlap. \<^verbatim>\<open>EnsureWorkloadIdentity\<close> looks an account up by its labels and creates
  it when there is none, and nothing makes this one step: the API has no unique key on the labels.
  The controllers of bindings and of annotated accounts have a worker each, so two runs for one
  workload can overlap; here the second looks up, the first runs as a whole, and the second creates.
\<close>

section \<open>A run with another inside\<close>

text \<open>A client whose creation of an account is held up while somebody else acts.\<close>

definition racing :: "'w iam_client \<Rightarrow> ('w \<Rightarrow> 'w) \<Rightarrow> 'w iam_client" where
  "racing c other = c\<lparr>CreateServiceAccount := (\<lambda>q w. CreateServiceAccount c q (other w))\<rparr>"

definition owned :: "smap \<Rightarrow> ServiceAccount list \<Rightarrow> ServiceAccount list" where
  "owned labels xs = filter (\<lambda>s. LabelsMatch (sa_Labels s) labels) xs"

lemma owned_mset: "mset xs = mset ys \<Longrightarrow> length (owned labels xs) = length (owned labels ys)"
  unfolding owned_def by (metis mset_filter size_mset)

context iam_store_fresh
begin

lemma racing_ensure:
  assumes first: "EnsureWorkloadIdentity c inp1 w = (Ok r1, v)"
    and second: "EnsureWorkloadIdentity (racing c (\<lambda>u. snd (EnsureWorkloadIdentity c inp1 u))) inp2 w = (Ok r2, w')"
    and same: "in_Namespace inp2 = in_Namespace inp1" "in_ServiceAccount inp2 = in_ServiceAccount inp1"
      "in_ClusterIdentity inp2 = in_ClusterIdentity inp1"
    and new: "owned (result_labels inp1 r1) (sas w) = []" and dist: "distinct (map sa_Identity (sas w))"
  shows "result_labels inp2 r2 = result_labels inp1 r1 \<and> length (owned (result_labels inp1 r1) (sas w')) = 2 \<and>
    distinct (map sa_Identity (sas w')) \<and> provs w' = provs w"
proof -
  let ?other = "\<lambda>u. snd (EnsureWorkloadIdentity c inp1 u)"
  let ?l = "result_labels inp1 r1"
  from Ensure_steps [OF first] obtain p w1 where
    p: "FindProviderByClusterID c (in_ClusterIdentity inp1) w = (Ok p, w1)"
    and s1: "BuildKubernetesSubject (in_Namespace inp1) (in_ServiceAccount inp1) = Inr (res_Subject r1)"
    and k1: "res_Key r1 = ResourceKey (in_Namespace inp1) (in_ServiceAccount inp1) (res_Subject r1)
      (NormalizeIssuer (idp_ProviderIssuer p))" by blast
  from Ensure_steps [OF second] obtain p2 x1 s x2 f x3 res x4 u where
    p2: "FindProviderByClusterID c (in_ClusterIdentity inp2) w = (Ok p2, x1)"
    and s2: "BuildKubernetesSubject (in_Namespace inp2) (in_ServiceAccount inp2) = Inr (res_Subject r2)"
    and k2: "res_Key r2 = ResourceKey (in_Namespace inp2) (in_ServiceAccount inp2) (res_Subject r2)
      (NormalizeIssuer (idp_ProviderIssuer p2))"
    and sa: "ensureServiceAccount (racing c ?other) (fst (result_names inp2 r2)) (res_Subject r2)
      (in_Namespace inp2) (in_ServiceAccount inp2) (result_labels inp2 r2) x1 = (Ok (Some s), x2)"
    and fi: "ensureFederatedIdentity c p2 (Some s) (snd (result_names inp2 r2)) (res_Subject r2)
      (in_Scopes inp2) (in_TrustedAudiences inp2) (result_labels inp2 r2) x2 = (Ok (Some f), x3)"
    and pol: "ensurePolicyStep c inp2 s (res_Key r2) (result_labels inp2 r2) res x3 = (Ok r2, x4)"
    and rol: "ensureRoleStep c inp2 s (res_Key r2) (result_labels inp2 r2) x4 = (Ok u, w')"
    unfolding racing_def other_steps by blast
  from p p2 same(3) have "p2 = p" by simp
  with s1 s2 k1 k2 same have labels: "result_labels inp2 r2 = ?l" by (simp add: result_labels_def)
  from FindProvider_view [OF refl p2] have x1: "x1 = w" by simp
  from ensureFI_keeps [OF fi] ensurePolicyStep_ok [OF pol] ensureRoleStep_ok [OF rol]
  have later: "sas w' = sas x2" "provs w' = provs x2" by (auto simp: same_but_bindings_def)
  from sa obtain x y where find: "findByLabelsSA c ?l w = (Ok x, y)"
    and rest: "(case x of Some s \<Rightarrow> okE (Some s)
      | None \<Rightarrow> call (CreateServiceAccount (racing c ?other) (sa_create_request (fst (result_names inp2 r2))
          (res_Subject r2) (in_Namespace inp2) (in_ServiceAccount inp2) ?l))) y = (Ok (Some s), x2)"
    unfolding ensureServiceAccount_def bindE_ok labels x1 by (auto simp: racing_def)
  from findSA_ok [OF find] new have "y = w" "x = None" by (auto simp: owned_def)
  with rest first have created: "CreateServiceAccount c (sa_create_request (fst (result_names inp2 r2))
      (res_Subject r2) (in_Namespace inp2) (in_ServiceAccount inp2) ?l) v = (Inr (Some s), x2)"
    by (simp add: call_ok racing_def)
  from ensure_accounts(1) [OF first] new obtain q s' v' where
    s': "CreateServiceAccount c q w = (Inr (Some s'), v')" "sa_Labels s' = ?l"
      "mset (sas v) = mset (s' # sas w)" by (auto simp: owned_def split: if_splits)
  from sa_created [OF created] have s: "mset (sas w') = mset (s # sas v)" "sa_Labels s = ?l"
    by (simp_all add: later)
  have self: "LabelsMatch ?l ?l" by (simp add: result_labels_def)
  have "length (owned ?l (sas w')) = 2"
    using owned_mset [OF s(1), of ?l] owned_mset [OF s'(3), of ?l] s(2) s'(2) new self by (simp add: owned_def)
  moreover have "distinct (map sa_Identity (sas v))"
    using mset_eq_imp_distinct_iff [of "map sa_Identity (sas v)" "map sa_Identity (s' # sas w)"]
      s'(3) sa_fresh [OF s'(1)] dist by simp
  then have "distinct (map sa_Identity (sas w'))"
    using mset_eq_imp_distinct_iff [of "map sa_Identity (sas w')" "map sa_Identity (s # sas v)"]
      s(1) sa_fresh [OF created] by simp
  moreover have "provs w' = provs w"
    using sa_created [OF created] ensure_accounts(2) [OF first] later(2) by simp
  ultimately show ?thesis using labels by blast
qed

text \<open>The labels depend on the workload and on the cluster's provider only.\<close>

lemma same_labels:
  assumes "EnsureWorkloadIdentity c inp1 w = (Ok r1, v1)" and "EnsureWorkloadIdentity c inp2 w' = (Ok r2, v2)"
    and "in_Namespace inp2 = in_Namespace inp1" "in_ServiceAccount inp2 = in_ServiceAccount inp1"
      "in_ClusterIdentity inp2 = in_ClusterIdentity inp1"
    and "provs w' = provs w"
  shows "result_labels inp2 r2 = result_labels inp1 r1"
proof -
  from Ensure_steps [OF assms(1)] obtain p x where
    1: "FindProviderByClusterID c (in_ClusterIdentity inp1) w = (Ok p, x)"
      "BuildKubernetesSubject (in_Namespace inp1) (in_ServiceAccount inp1) = Inr (res_Subject r1)"
      "res_Key r1 = ResourceKey (in_Namespace inp1) (in_ServiceAccount inp1) (res_Subject r1)
        (NormalizeIssuer (idp_ProviderIssuer p))" by blast
  from Ensure_steps [OF assms(2)] obtain p' x' where
    2: "FindProviderByClusterID c (in_ClusterIdentity inp2) w' = (Ok p', x')"
      "BuildKubernetesSubject (in_Namespace inp2) (in_ServiceAccount inp2) = Inr (res_Subject r2)"
      "res_Key r2 = ResourceKey (in_Namespace inp2) (in_ServiceAccount inp2) (res_Subject r2)
        (NormalizeIssuer (idp_ProviderIssuer p'))" by blast
  from FindProvider_view [OF assms(6) 2(1)] 1(1) assms(5) have "p' = p" by simp
  with 1 2 assms(3,4) show ?thesis by (simp add: result_labels_def)
qed

lemma ensure_merges_nothing:
  "EnsureWorkloadIdentity c inp w = (Ok r, w') \<Longrightarrow> owned (result_labels inp r) (sas w) \<noteq> [] \<Longrightarrow> sas w' = sas w"
  using ensure_accounts(1) by (simp add: owned_def split: if_splits)

lemma delete_takes_one:
  assumes "DeleteWorkloadIdentity c ns sa iss roleRef policyRef w = (Ok u, w')"
    and "BuildKubernetesSubject ns sa = Inr sub" and l: "l = OwnershipLabels (ResourceKey ns sa sub iss) ns sa"
    and dist: "distinct (map sa_Identity (sas w))" and two: "owned l (sas w) = s # ss"
  shows "owned l (sas w') = ss"
proof -
  have "sas w' = filter (\<lambda>x. sa_Identity x \<noteq> sa_Identity s) (sas w)"
    using Delete_ok(1) [OF assms(1-3)] two by (simp add: owned_def)
  then have "owned l (sas w') = filter (\<lambda>x. sa_Identity x \<noteq> sa_Identity s) (s # ss)"
    unfolding two [symmetric] by (simp add: owned_def conj_commute)
  moreover have "distinct (map sa_Identity (s # ss))"
    using dist unfolding two [symmetric] owned_def by (rule distinct_map_filter)
  then have "filter (\<lambda>x. sa_Identity x \<noteq> sa_Identity s) ss = ss"
    by (auto simp: filter_id_conv image_iff)
  ultimately show ?thesis by simp
qed

end

section \<open>The property\<close>

text \<open>
  C35: overlapping runs duplicate an account. If a workload has no account, and a run for it is
  interrupted between looking the account up and creating it by a whole other run for the same
  workload, and both succeed, then the workload has exactly two accounts afterwards. No later run
  merges them, and deleting the workload takes one of them away and leaves the other behind.
\<close>

theorem overlapping_runs_duplicate:
  assumes "iam_store_fresh c vprov vsas vfis vroles vrbs vpols vpbs"
    and "EnsureWorkloadIdentity c inp1 w = (Ok r1, v)"
    and "EnsureWorkloadIdentity (racing c (\<lambda>u. snd (EnsureWorkloadIdentity c inp1 u))) inp2 w = (Ok r2, w')"
    and "in_Namespace inp2 = in_Namespace inp1" and "in_ServiceAccount inp2 = in_ServiceAccount inp1"
    and "in_ClusterIdentity inp2 = in_ClusterIdentity inp1"
    and "owned (result_labels inp1 r1) (vsas w) = []" and "distinct (map sa_Identity (vsas w))"
  shows "length (owned (result_labels inp1 r1) (vsas w')) = 2 \<and>
    (\<forall>inp3 r3 w3. in_Namespace inp3 = in_Namespace inp1 \<and> in_ServiceAccount inp3 = in_ServiceAccount inp1 \<and>
       in_ClusterIdentity inp3 = in_ClusterIdentity inp1 \<and> EnsureWorkloadIdentity c inp3 w' = (Ok r3, w3) \<longrightarrow>
       vsas w3 = vsas w') \<and>
    (\<forall>roleRef policyRef w3. DeleteWorkloadIdentity c (in_Namespace inp1) (in_ServiceAccount inp1) (res_Issuer r1)
         roleRef policyRef w' = (Ok (), w3) \<longrightarrow>
       length (owned (result_labels inp1 r1) (vsas w3)) = 1)"
proof -
  note facts = iam_store_fresh.racing_ensure [OF assms]
  have two: "length (owned (result_labels inp1 r1) (vsas w')) = 2" and provs: "vprov w' = vprov w"
    and dist: "distinct (map sa_Identity (vsas w'))" using facts by simp_all
  moreover have "vsas w3 = vsas w'"
    if "in_Namespace inp3 = in_Namespace inp1 \<and> in_ServiceAccount inp3 = in_ServiceAccount inp1 \<and>
      in_ClusterIdentity inp3 = in_ClusterIdentity inp1 \<and> EnsureWorkloadIdentity c inp3 w' = (Ok r3, w3)"
    for inp3 r3 w3
  proof -
    from that have run: "EnsureWorkloadIdentity c inp3 w' = (Ok r3, w3)" by blast
    have "result_labels inp3 r3 = result_labels inp1 r1"
      using iam_store_fresh.same_labels [OF assms(1,2) run] that provs by blast
    with two have "owned (result_labels inp3 r3) (vsas w') \<noteq> []" by auto
    from iam_store_fresh.ensure_merges_nothing [OF assms(1) run this] show ?thesis .
  qed
  moreover have "length (owned (result_labels inp1 r1) (vsas w3)) = 1"
    if run: "DeleteWorkloadIdentity c (in_Namespace inp1) (in_ServiceAccount inp1) (res_Issuer r1)
      roleRef policyRef w' = (Ok (), w3)" for roleRef policyRef w3
  proof -
    obtain s ss where own: "owned (result_labels inp1 r1) (vsas w') = s # ss"
      using two by (cases "owned (result_labels inp1 r1) (vsas w')") auto
    from Ensure_steps [OF assms(2)] have
      sub: "BuildKubernetesSubject (in_Namespace inp1) (in_ServiceAccount inp1) = Inr (res_Subject r1)"
      and key: "res_Key r1 = ResourceKey (in_Namespace inp1) (in_ServiceAccount inp1) (res_Subject r1)
        (res_Issuer r1)" by auto
    have labels: "result_labels inp1 r1 = OwnershipLabels (ResourceKey (in_Namespace inp1)
        (in_ServiceAccount inp1) (res_Subject r1) (res_Issuer r1)) (in_Namespace inp1) (in_ServiceAccount inp1)"
      by (simp add: result_labels_def key)
    from iam_store_fresh.delete_takes_one [OF assms(1) run sub labels dist own] own two show ?thesis by simp
  qed
  ultimately show ?thesis by blast
qed

text \<open>Two runs for the account of a new cluster, one by each controller.\<close>

theorem overlapping_runs_duplicate_witness:
  "\<exists>r1 r2 w'. EnsureWorkloadIdentity (racing (fresh_client demo_consts)
       (\<lambda>u. snd (EnsureWorkloadIdentity (fresh_client demo_consts) (demo_input\<lparr>in_AllowedPolicies := []\<rparr>) u)))
       (demo_input\<lparr>in_AllowedPolicies := [], in_Scopes := [''api:write'']\<rparr>) demo_iam = (Ok r2, w') \<and>
     length (owned (result_labels (demo_input\<lparr>in_AllowedPolicies := []\<rparr>) r1) (sas w')) = 2"
proof -
  let ?in1 = "demo_input\<lparr>in_AllowedPolicies := []\<rparr>" and ?c = "fresh_client demo_consts"
  let ?in2 = "demo_input\<lparr>in_AllowedPolicies := [], in_Scopes := [''api:write'']\<rparr>"
  let ?other = "\<lambda>u. snd (EnsureWorkloadIdentity ?c ?in1 u)"
  have valid: "validateEnsureInput ?in1 = None" "validateEnsureInput ?in2 = None"
    by (simp_all add: demo_input_def validateEnsureInput_def demo_trim)
  have sub: "BuildKubernetesSubject (in_Namespace ?in1) (in_ServiceAccount ?in1) = Inr demo_subject"
    "BuildKubernetesSubject (in_Namespace ?in2) (in_ServiceAccount ?in2) = Inr demo_subject"
    by (simp_all add: demo_input_def demo_facts)
  have sat: "satisfiable_input demo_consts ?in2 demo_iam"
    by (rule demo_satisfiable) (simp_all add: demo_input_def demo_trim)
  from fresh_Ensure_succeeds [OF valid(1) demo_input_satisfiable sub(1)] obtain r1 v where
    first: "EnsureWorkloadIdentity ?c ?in1 demo_iam = (Ok r1, v)" "same_catalog demo_iam v" by blast
  let ?g = "\<lambda>q u. fresh_create q (?other u)"
  have race: "racing ?c ?other = (fake_client demo_consts)\<lparr>CreateServiceAccount := ?g\<rparr>"
    by (simp add: racing_def fresh_client_def)
  have "\<exists>s w'. ?g q demo_iam = (Inr (Some s), w') \<and> same_catalog demo_iam w'" for q
    using first by (simp add: fresh_create_def same_catalog_def Let_def)
  from patched_Ensure_succeeds [OF valid(2) sub(2) sat, of ?g, OF this] obtain r2 w' where
    second: "EnsureWorkloadIdentity (racing ?c ?other) ?in2 demo_iam = (Ok r2, w')"
    unfolding race by blast
  have "owned (result_labels ?in1 r1) (sas demo_iam) = []" "distinct (map sa_Identity (sas demo_iam))"
    by (simp_all add: owned_def demo_iam_def)
  from overlapping_runs_duplicate [OF fresh.iam_store_fresh_axioms first(1) second _ _ _ this] second
  show ?thesis by (intro exI [of _ r1] exI [of _ r2] exI [of _ w']) simp
qed

end
