(* ===== verification/Schedule.thy ===== *)
theory Schedule
  imports AnnotatedReady
begin

text \<open>
  Progress of everything at once: one work queue serves requests of bindings and of annotated
  accounts in some order. No request undoes what the others need or have reached, so every
  request that is served twice has settled, whatever is served before, between and after.
\<close>

section \<open>Requests\<close>

datatype request = BindingRequest string string | AccountRequest string string

primrec served_by :: "request \<Rightarrow> component" where
  "served_by (BindingRequest ns n) = BindingReconciler"
| "served_by (AccountRequest ns n) = AccountReconciler"

primrec serve :: "iam_consts \<Rightarrow> Config \<Rightarrow> request \<Rightarrow> world \<Rightarrow> world" where
  "serve k cfg (BindingRequest ns n) w = snd (ReconcileBinding (lift_iam (fake_client k)) fake_cluster cfg ns n w)"
| "serve k cfg (AccountRequest ns n) w =
     snd (ReconcileServiceAccount (lift_iam (fake_client k)) fake_cluster cfg ns n w)"

definition serve_all :: "iam_consts \<Rightarrow> Config \<Rightarrow> request list \<Rightarrow> world \<Rightarrow> world" where
  "serve_all k cfg rs w = fold (serve k cfg) rs w"

primrec attainable :: "iam_consts \<Rightarrow> Config \<Rightarrow> world \<Rightarrow> request \<Rightarrow> bool" where
  "attainable k cfg w (BindingRequest ns n) = bindable k cfg ns n w"
| "attainable k cfg w (AccountRequest ns n) = annotatable k cfg ns n w"

text \<open>How far the object of a request has come after it was served \<open>m\<close> times.\<close>

primrec at_stage :: "nat \<Rightarrow> world \<Rightarrow> request \<Rightarrow> bool" where
  "at_stage m w (BindingRequest ns n) =
     (\<exists>b. w_wibs w (ns, n) = Some b \<and> (1 \<le> m \<longrightarrow> BindingFinalizerName \<in> set (wib_Finalizers b)) \<and>
       (2 \<le> m \<longrightarrow> st_Phase (wib_Status b) = StatusReady))"
| "at_stage m w (AccountRequest ns n) =
     (\<exists>sa. w_sas w (ns, n) = Some sa \<and> (1 \<le> m \<longrightarrow> FinalizerName \<in> set (ksa_Finalizers sa)) \<and>
       (2 \<le> m \<longrightarrow> marked_ready sa))"

primrec settled :: "world \<Rightarrow> request \<Rightarrow> bool" where
  "settled w (BindingRequest ns n) =
     (\<exists>b. w_wibs w (ns, n) = Some b \<and> BindingFinalizerName \<in> set (wib_Finalizers b) \<and>
       st_Phase (wib_Status b) = StatusReady)"
| "settled w (AccountRequest ns n) =
     (\<exists>sa. w_sas w (ns, n) = Some sa \<and> FinalizerName \<in> set (ksa_Finalizers sa) \<and> marked_ready sa)"

lemma at_stage_settled: "2 \<le> m \<Longrightarrow> at_stage m w r \<Longrightarrow> settled w r"
  by (cases r) auto

lemma at_stage_0: "attainable k cfg w r \<Longrightarrow> at_stage 0 w r"
  by (cases r) (auto simp: bindable_def annotatable_def)

section \<open>A request advances its own object\<close>

lemma binding_step:
  assumes "controller_ready p cfg" and "bindable k cfg ns n w"
    and "w' = serve k cfg (BindingRequest ns n) w"
  shows "binding_frame (ns, n) w w' \<and> bindable k cfg ns n w' \<and>
    (at_stage m w (BindingRequest ns n) \<longrightarrow> at_stage (Suc m) w' (BindingRequest ns n))"
proof -
  from assms(2) obtain b where b: "w_wibs w (ns, n) = Some b" by (auto simp: bindable_def)
  show ?thesis
  proof (cases "BindingFinalizerName \<in> set (wib_Finalizers b)")
    case True
    from fake_ready_step [OF assms(1,2) b True] assms(3) True show ?thesis by auto
  next
    case False
    from fake_first_step [OF assms(2) b False] assms(3) b False show ?thesis by (cases m) auto
  qed
qed

lemma account_step:
  assumes "controller_ready p cfg" and "annotatable k cfg ns n w"
    and "w' = serve k cfg (AccountRequest ns n) w"
  shows "account_frame (ns, n) w w' \<and> annotatable k cfg ns n w' \<and>
    (at_stage m w (AccountRequest ns n) \<longrightarrow> at_stage (Suc m) w' (AccountRequest ns n))"
proof -
  from assms(2) obtain s where s: "w_sas w (ns, n) = Some s" by (auto simp: annotatable_def)
  from fake_annotation_step [OF assms(1,2) s, of w'] assms(3) s show ?thesis by (cases m) auto
qed

section \<open>A request disturbs no other\<close>

lemma undisturbed_satisfiable:
  assumes "undisturbed sa sa'" and "account_satisfiable k cfg (sa\<lparr>ksa_Namespace := ns, ksa_Name := n\<rparr>) w"
    and "same_catalog w w'" and "named_accounts w'"
  shows "account_satisfiable k cfg (sa'\<lparr>ksa_Namespace := ns, ksa_Name := n\<rparr>) w'"
proof -
  from assms(1) have "get (ksa_Annotations sa') AnnotationEnabled = get (ksa_Annotations sa) AnnotationEnabled"
    by (simp add: undisturbed_def)
  then have "IsEnabled (ksa_Annotations sa') = IsEnabled (ksa_Annotations sa)" by (simp add: IsEnabled_def)
  with assms(1,2) satisfiable_catalog [OF assms(3,4)] show ?thesis
    by (auto simp: account_satisfiable_def annotation_input_def undisturbed_def Let_def)
qed

lemma undisturbed_ready: "undisturbed sa sa' \<Longrightarrow> marked_ready sa \<Longrightarrow> marked_ready sa'"
  by (auto simp: undisturbed_def marked_ready_def Let_def)

lemma bindable_kept:
  assumes "bindable k cfg ns n w" and "w_wibs w' (ns, n) = w_wibs w (ns, n)"
    and "same_catalog (w_iam w) (w_iam w')" and "named_accounts (w_iam w')"
    and "\<And>key. w_sas w key \<noteq> None \<Longrightarrow> w_sas w' key \<noteq> None"
  shows "bindable k cfg ns n w'"
proof -
  from assms(1) obtain b sa scopes sub where facts: "w_wibs w (ns, n) = Some b" "wib_Namespace b = ns"
    "wib_Name b = n" "\<not> wib_Deleting b" "watched cfg ns" "validateDesired (desired_of b) = None"
    "ParseScopeList k (wib_Scopes b) = Inr scopes" "BuildKubernetesSubject ns (wib_ServiceAccountName b) = Inr sub"
    "w_sas w (ns, wib_ServiceAccountName b) = Some sa"
    "provider_available (desired_input cfg (desired_of b) scopes) (w_iam w)"
    "policy_available k (desired_input cfg (desired_of b) scopes) (w_iam w)"
    "role_available k (desired_input cfg (desired_of b) scopes) (w_iam w)"
    by (auto simp: bindable_def)
  from assms(5) [of "(ns, wib_ServiceAccountName b)"] facts(9) obtain sa' where
    "w_sas w' (ns, wib_ServiceAccountName b) = Some sa'" by auto
  with facts assms(2,4) available_catalog [OF assms(3)] show ?thesis
    unfolding bindable_def
    by (intro exI [of _ b] exI [of _ sa'] exI [of _ scopes] exI [of _ sub]) simp
qed

lemma annotatable_kept:
  assumes "annotatable k cfg ns n w" and "rel_option undisturbed (w_sas w (ns, n)) (w_sas w' (ns, n))"
    and "same_catalog (w_iam w) (w_iam w')" and "named_accounts (w_iam w')"
  shows "annotatable k cfg ns n w'"
proof -
  from assms(1) obtain sa where sa: "w_sas w (ns, n) = Some sa"
    "account_satisfiable k cfg (sa\<lparr>ksa_Namespace := ns, ksa_Name := n\<rparr>) (w_iam w)"
    by (auto simp: annotatable_def)
  with assms(2) obtain sa' where "w_sas w' (ns, n) = Some sa'" "undisturbed sa sa'"
    by (cases "w_sas w' (ns, n)") auto
  with undisturbed_satisfiable [OF _ sa(2) assms(3,4)] show ?thesis by (auto simp: annotatable_def)
qed

lemma binding_frame_keeps:
  assumes "binding_frame (ns, n) w w'" and "r \<noteq> BindingRequest ns n"
  shows "attainable k cfg w r \<Longrightarrow> attainable k cfg w' r" and "at_stage m w r \<Longrightarrow> at_stage m w' r"
proof -
  have there: "w_sas w' key \<noteq> None" if "w_sas w key \<noteq> None" for key
    using assms(1) that unfolding binding_frame_def by (metis option.rel_distinct(2) option.exhaust)
  show "attainable k cfg w' r" if "attainable k cfg w r"
    using assms that there
    by (cases r) (auto simp: binding_frame_def intro: bindable_kept annotatable_kept)
  show "at_stage m w' r" if stage: "at_stage m w r"
  proof (cases r)
    case (BindingRequest ns' n')
    with assms stage show ?thesis by (auto simp: binding_frame_def)
  next
    case (AccountRequest ns' n')
    with stage obtain sa where sa: "w_sas w (ns', n') = Some sa"
      "1 \<le> m \<longrightarrow> FinalizerName \<in> set (ksa_Finalizers sa)" "2 \<le> m \<longrightarrow> marked_ready sa" by auto
    from assms(1) have "rel_option undisturbed (w_sas w (ns', n')) (w_sas w' (ns', n'))"
      by (simp add: binding_frame_def)
    with sa(1) obtain sa' where "w_sas w' (ns', n') = Some sa'" "undisturbed sa sa'"
      by (cases "w_sas w' (ns', n')") auto
    with sa(2,3) undisturbed_ready show ?thesis by (auto simp: AccountRequest undisturbed_def)
  qed
qed

lemma account_frame_keeps:
  assumes "account_frame (ns, n) w w'" and "r \<noteq> AccountRequest ns n"
  shows "attainable k cfg w r \<Longrightarrow> attainable k cfg w' r" and "at_stage m w r \<Longrightarrow> at_stage m w' r"
proof -
  have there: "w_sas w' key \<noteq> None" if "w_sas w key \<noteq> None" for key
    using assms(1) that unfolding account_frame_def by metis
  show "attainable k cfg w' r" if "attainable k cfg w r"
  proof (cases r)
    case (BindingRequest ns' n')
    with that have "bindable k cfg ns' n' w" by simp
    then have "bindable k cfg ns' n' w'"
      by (rule bindable_kept) (use assms(1) there in \<open>simp_all add: account_frame_def\<close>)
    then show ?thesis by (simp add: BindingRequest)
  next
    case (AccountRequest ns' n')
    with that assms show ?thesis
      by (auto simp: account_frame_def option.rel_refl intro!: annotatable_kept [of k cfg ns' n' w w'])
  qed
  show "at_stage m w' r" if "at_stage m w r"
    using assms that by (cases r) (auto simp: account_frame_def)
qed

section \<open>Any schedule\<close>

lemma serve_self:
  assumes "controller_ready p cfg" and "attainable k cfg w r"
  shows "attainable k cfg (serve k cfg r w) r" and "at_stage m w r \<Longrightarrow> at_stage (Suc m) (serve k cfg r w) r"
  using assms binding_step [OF assms(1) _ refl] account_step [OF assms(1) _ refl]
  by (cases r; simp del: at_stage.simps serve.simps)+

lemma serve_other:
  assumes "controller_ready p cfg" and "attainable k cfg w r" and "r' \<noteq> r"
  shows "attainable k cfg w r' \<Longrightarrow> attainable k cfg (serve k cfg r w) r'"
    and "at_stage m w r' \<Longrightarrow> at_stage m (serve k cfg r w) r'"
proof -
  have "attainable k cfg (serve k cfg r w) r' \<or> \<not> attainable k cfg w r'"
    and "at_stage m (serve k cfg r w) r' \<or> \<not> at_stage m w r'"
  proof (atomize (full), cases r)
    case (BindingRequest ns n)
    then have "binding_frame (ns, n) w (serve k cfg r w)"
      using binding_step [OF assms(1) _ refl] assms(2) by simp
    with binding_frame_keeps assms(3) BindingRequest
    show "(attainable k cfg (serve k cfg r w) r' \<or> \<not> attainable k cfg w r') \<and>
        (at_stage m (serve k cfg r w) r' \<or> \<not> at_stage m w r')" by blast
  next
    case (AccountRequest ns n)
    then have "account_frame (ns, n) w (serve k cfg r w)"
      using account_step [OF assms(1) _ refl] assms(2) by simp
    with account_frame_keeps assms(3) AccountRequest
    show "(attainable k cfg (serve k cfg r w) r' \<or> \<not> attainable k cfg w r') \<and>
        (at_stage m (serve k cfg r w) r' \<or> \<not> at_stage m w r')" by blast
  qed
  then show "attainable k cfg w r' \<Longrightarrow> attainable k cfg (serve k cfg r w) r'"
    and "at_stage m w r' \<Longrightarrow> at_stage m (serve k cfg r w) r'" by blast+
qed

lemma serve_all_advances:
  assumes "controller_ready p cfg" and "list_all (attainable k cfg w) rs" and "attainable k cfg w r"
    and "at_stage m w r"
  shows "attainable k cfg (serve_all k cfg rs w) r \<and> at_stage (m + count_list rs r) (serve_all k cfg rs w) r"
  using assms(2-4)
proof (induction rs arbitrary: w m)
  case Nil
  then show ?case by (simp add: serve_all_def)
next
  case (Cons q rs)
  note self = serve_self [OF assms(1)] and other = serve_other [OF assms(1)]
  from Cons.prems have q: "attainable k cfg w q" by simp
  have kept: "attainable k cfg (serve k cfg q w) r'" if "attainable k cfg w r'" for r'
    using self(1) [OF q] other(1) [OF q _ that] by (cases "r' = q") auto
  have "list_all (attainable k cfg (serve k cfg q w)) rs"
    using Cons.prems(1) kept by (auto simp: list_all_iff)
  note IH = Cons.IH [OF this kept [OF Cons.prems(2)]]
  show ?case
  proof (cases "q = r")
    case True
    with self(2) [OF q] Cons.prems(3) have "at_stage (Suc m) (serve k cfg q w) r" by simp
    from IH [OF this] True show ?thesis by (simp add: serve_all_def)
  next
    case False
    with other(2) [OF q] Cons.prems(3) have "at_stage m (serve k cfg q w) r" by simp
    from IH [OF this] False show ?thesis by (simp add: serve_all_def)
  qed
qed

end
