(* ===== verification/SharedAccount.thy ===== *)
theory SharedAccount
  imports LifecycleProps BindingStatus
begin

text \<open>
  Two bindings of one service account: the resources in the cloud belong to the account, not to
  the binding, so the deletion of one binding takes them from the other.
\<close>

section \<open>Deleting on the concrete cluster\<close>

lemma lifts_delete_loop:
  "(\<And>i. lifts (d i) (d' i)) \<Longrightarrow> lifts (delete_loop d s bs) (delete_loop d' s bs)"
  by (induction bs) (auto intro!: lift_intros)

lemma lifts_Delete:
  "lifts (DeleteWorkloadIdentity c ns sa iss role policy) (DeleteWorkloadIdentity (lift_iam c) ns sa iss role policy)"
  unfolding DeleteWorkloadIdentity_def deletePolicyStep_def deleteRoleStep_def deletePolicyBindingForSA_def
    deleteRoleBindingForSA_def lift_iam_sel Let_def
  by (auto intro!: lift_intros lifts_delete_loop split: option.splits sum.splits)

lemma lifts_ok:
  assumes "lifts m m'" and "m' w = (Ok x, w')"
  shows "m (w_iam w) = (Ok x, w_iam w')" and "w' = w\<lparr>w_iam := w_iam w'\<rparr>"
  using assms by (auto simp: lifts_def prod_eq_iff)

lemma fake_update_account:
  "w_iam (snd (UpdateServiceAccount fake_cluster s w)) = w_iam w \<and>
   w_wibs (snd (UpdateServiceAccount fake_cluster s w)) = w_wibs w"
  by (simp add: fake_cluster_def split: option.split)

lemma fake_clear:
  assumes "clearServiceAccountIdentityAnnotations fake_cluster ns n w = (Ok (), w')"
  shows "w_iam w' = w_iam w \<and> w_wibs w' = w_wibs w \<and>
    (\<forall>ksa. w_sas w' (ns, n) = Some ksa \<longrightarrow> \<not> Complete (IdentityFromServiceAccount (Some ksa)))"
proof -
  have "w' = snd (clearServiceAccountIdentityAnnotations fake_cluster ns n w)" using assms by simp
  then have "w_iam w' = w_iam w \<and> w_wibs w' = w_wibs w"
    by (auto simp: clearServiceAccountIdentityAnnotations_def tryE_def call_def okE_def failE_def
        fake_update_account case_prod_unfold split: option.split sum.split)
  moreover have "\<not> Complete (IdentityFromServiceAccount (Some ksa))" if "w_sas w' (ns, n) = Some ksa" for ksa
  proof -
    from withdrawn_account [OF fake_cluster_accounts assms] that
    obtain a where "ksa_Annotations ksa = withdraw_identity a" by auto
    then show ?thesis
      using sa_annotations.read_withdrawn [of a] by (simp add: identity_of_annotations withdrawn_incomplete)
  qed
  ultimately show ?thesis by blast
qed

lemma fake_find_provider:
  assumes "matching_providers (TrimSpace cl) (providers (w_iam w)) = [p]" and "TrimSpace cl \<noteq> []"
  shows "FindProviderByClusterID (lift_iam (fake_client k)) cl w = (Ok p, w)"
proof -
  have "FindProviderByClusterID (fake_client k) cl (w_iam w) = (Ok p, w_iam w)"
    using FindProvider_run [OF assms(2), of "fake_client k" "w_iam w" "providers (w_iam w)" "w_iam w"] assms(1) by simp
  from lift_run [OF this lifts_finds(1) refl] show ?thesis by simp
qed

lemma fake_delete_resources:
  assumes prov: "matching_providers (TrimSpace (cfg_ClusterIdentity cfg)) (providers (w_iam w)) = [p]"
    and cl: "TrimSpace (cfg_ClusterIdentity cfg) \<noteq> []"
    and iss: "NormalizeIssuer (idp_ProviderIssuer p) = iss" "iss \<noteq> []"
    and run: "deleteCloudResources (lift_iam (fake_client k)) cfg d w = (Ok (), w')"
    and one: "distinct (map sa_Identity (sas (w_iam w)))"
      "length (filter (owned iss (des_Namespace d) (des_ServiceAccount d)) (sas (w_iam w))) \<le> 1"
  shows "w_wibs w' = w_wibs w \<and> w_sas w' = w_sas w \<and>
    (\<forall>s \<in> set (sas (w_iam w')). \<not> owned iss (des_Namespace d) (des_ServiceAccount d) s)"
proof -
  note find = fake_find_provider [OF prov cl]
  define pol where "pol = (if TrimSpace (des_PolicyID d) = [] then des_PolicyRef d else TrimSpace (des_PolicyID d))"
  have "DeleteWorkloadIdentity (lift_iam (fake_client k)) (des_Namespace d) (des_ServiceAccount d) iss
      (des_RoleRef d) pol w = (Ok (), w')"
    using run iss by (simp add: deleteCloudResources_def tryE_run find Let_def pol_def cong: if_cong)
  then have del: "DeleteWorkloadIdentity (fake_client k) (des_Namespace d) (des_ServiceAccount d) iss
      (des_RoleRef d) pol (w_iam w) = (Ok (), w_iam w')" and w': "w' = w\<lparr>w_iam := w_iam w'\<rparr>"
    by (rule lifts_ok [OF lifts_Delete])+
  from del obtain sub where sub: "BuildKubernetesSubject (des_Namespace d) (des_ServiceAccount d) = Inr sub"
    by (auto simp: DeleteWorkloadIdentity_def prog_ok split: sum.splits)
  let ?want = "OwnershipLabels (ResourceKey (des_Namespace d) (des_ServiceAccount d) sub iss)
    (des_Namespace d) (des_ServiceAccount d)"
  have own: "owned iss (des_Namespace d) (des_ServiceAccount d) = (\<lambda>s. LabelsMatch (sa_Labels s) ?want)"
    by (simp add: owned_def sub fun_eq_iff)
  have "set (sas (w_iam w')) = {s \<in> set (sas (w_iam w)). \<not> LabelsMatch (sa_Labels s) ?want}"
    by (rule filter_one_removed [OF one(1) one(2) [unfolded own]])
      (use fk.Delete_ok(1) [OF del sub refl] in \<open>simp split: list.splits\<close>)
  moreover have "w_wibs w' = w_wibs w" "w_sas w' = w_sas w" by (subst w', simp)+
  ultimately show ?thesis by (simp add: own)
qed


lemma fake_reconcile_deleted:
  assumes b: "w_wibs w (ns, n) = Some b" "wib_Namespace b = ns" "wib_Name b = n" "wib_Deleting b"
      "wib_DeleteResources b" "BindingFinalizerName \<in> set (wib_Finalizers b)" "watched cfg ns"
    and run: "ReconcileBinding (lift_iam (fake_client k)) fake_cluster cfg ns n w = (Ok (rr, None), w')"
  shows "\<exists>w1 w2. clearServiceAccountIdentityAnnotations fake_cluster ns (wib_ServiceAccountName b) w = (Ok (), w1) \<and>
    deleteCloudResources (lift_iam (fake_client k)) cfg (desired_of b) w1 = (Ok (), w2) \<and>
    w_iam w' = w_iam w2 \<and> w_sas w' = w_sas w2 \<and> (\<forall>n'. n' \<noteq> n \<longrightarrow> w_wibs w' (ns, n') = w_wibs w2 (ns, n'))"
proof -
  let ?neu = "b\<lparr>wib_Finalizers := filter (\<lambda>g. g \<noteq> BindingFinalizerName) (wib_Finalizers b)\<rparr>"
  have d: "des_Namespace (desired_of b) = ns" "des_ServiceAccount (desired_of b) = wib_ServiceAccountName b"
    "des_DeleteResources (desired_of b)"
    using b by (simp_all add: desired_of_def)
  have got: "call (GetBinding fake_cluster ns n) w = (Ok b, w)" using b(1) by (simp add: call_run)
  from run obtain w1 w2 where
    steps: "clearServiceAccountIdentityAnnotations fake_cluster ns (wib_ServiceAccountName b) w = (Ok (), w1)"
      "deleteCloudResources (lift_iam (fake_client k)) cfg (desired_of b) w1 = (Ok (), w2)"
      "UpdateBinding fake_cluster ?neu w2 = (Inr (), w')"
    using b d
    by (auto simp: ReconcileBinding_def tryE_run [where m = "call (GetBinding fake_cluster ns n)"] got
        reconcileBinding_def reconcileDeletion_def prog_ok
        split: option.splits if_splits sum.splits)
  then have "w_iam w' = w_iam w2" "w_sas w' = w_sas w2" "n' \<noteq> n \<Longrightarrow> w_wibs w' (ns, n') = w_wibs w2 (ns, n')" for n'
    using b(2,3) by (auto simp: fake_cluster_def split: option.splits)
  with steps show ?thesis by blast
qed

section \<open>The property\<close>



section \<open>A concrete deletion\<close>

lemma fake_clear_ok: "\<exists>w'. clearServiceAccountIdentityAnnotations fake_cluster ns n w = (Ok (), w')"
proof (cases "w_sas w (ns, n)")
  case None
  then show ?thesis
    by (simp add: clearServiceAccountIdentityAnnotations_def tryE_def call_def okE_def not_found_def)
next
  case (Some sa)
  have "fst (UpdateServiceAccount fake_cluster (sa\<lparr>ksa_Namespace := ns, ksa_Name := n, ksa_Annotations := a\<rparr>) w) =
      Inr ()" for a
    using Some by (simp add: fake_cluster_def)
  then show ?thesis
    using Some by (auto simp: clearServiceAccountIdentityAnnotations_def tryE_def call_def okE_def case_prod_unfold)
qed

definition leaving_binding :: WorkloadIdentityBinding where
  "leaving_binding = demo_binding\<lparr>wib_Deleting := True, wib_RoleRef := [],
     wib_Status := (wib_Status demo_binding)\<lparr>st_PolicyID := ''pol-1''\<rparr>\<rparr>"

definition staying_binding :: WorkloadIdentityBinding where
  "staying_binding = demo_binding\<lparr>wib_Name := ''b2'', wib_Status := status_after demo_binding demo_ready 100\<rparr>"

definition shared_world :: world where
  "shared_world = demo_world\<lparr>w_iam := demo_owned,
     w_wibs := [(''ns'', ''b'') \<mapsto> leaving_binding, (''ns'', ''b2'') \<mapsto> staying_binding]\<rparr>"

lemma leaving_facts:
  "wib_Namespace leaving_binding = ''ns''" "wib_Name leaving_binding = ''b''" "wib_Deleting leaving_binding"
  "wib_DeleteResources leaving_binding" "BindingFinalizerName \<in> set (wib_Finalizers leaving_binding)"
  "wib_ServiceAccountName leaving_binding = ''app''" "watched demo_config ''ns''"
  by (simp_all add: leaving_binding_def demo_binding_def watched_def demo_config_def)

lemma leaving_desired:
  "des_Namespace (desired_of leaving_binding) = ''ns''" "des_ServiceAccount (desired_of leaving_binding) = ''app''"
  "des_DeleteResources (desired_of leaving_binding)" "des_RoleRef (desired_of leaving_binding) = []"
  "TrimSpace (des_PolicyID (desired_of leaving_binding)) = ''pol-1''"
  by (simp_all add: desired_of_def leaving_binding_def demo_binding_def demo_trim)

lemma shared_served: "served (cfg_ClusterIdentity demo_config) demo_issuer mem_views shared_world"
  using demo_served
  by (auto simp: served_def wellformed_def shared_world_def demo_world_def demo_owned_def well_named_def
      leaving_binding_def staying_binding_def demo_binding_def split: if_splits)

lemma shared_delete:
  assumes "w_iam w = demo_owned"
  shows "\<exists>w'. deleteCloudResources (lift_iam demo_client) demo_config (desired_of leaving_binding) w = (Ok (), w') \<and>
    w_wibs w' = w_wibs w"
proof -
  have cl: "TrimSpace (cfg_ClusterIdentity demo_config) = ''k8s-1''" by (simp add: demo_config_def demo_trim)
  have "matching_providers ''k8s-1'' (providers (w_iam w)) = [demo_provider]"
    by (simp add: assms matching_providers_def demo_owned_def demo_iam_def demo_provider_def)
  then have find: "FindProviderByClusterID (lift_iam demo_client) (cfg_ClusterIdentity demo_config) w = (Ok demo_provider, w)"
    using cl by (intro fake_find_provider) simp_all
  have iss: "NormalizeIssuer (idp_ProviderIssuer demo_provider) = ''https://oidc.example''"
    by (simp add: demo_provider_def demo_facts)
  let ?run = "DeleteWorkloadIdentity demo_client ''ns'' ''app'' ''https://oidc.example'' [] ''pol-1'' demo_owned"
  have "?run = (Ok (), snd ?run)" by (simp only: demo_delete [symmetric] prod.collapse)
  from lift_run [OF this lifts_Delete assms] show ?thesis
    by (simp add: deleteCloudResources_def tryE_run find iss leaving_desired Let_def)
qed

lemma shared_run:
  "\<exists>w'. ReconcileBinding (lift_iam demo_client) fake_cluster demo_config ''ns'' ''b'' shared_world =
     (Ok (no_requeue, None), w')"
proof -
  obtain w1 where clear: "clearServiceAccountIdentityAnnotations fake_cluster ''ns'' ''app'' shared_world = (Ok (), w1)"
    using fake_clear_ok by blast
  have "w_iam w1 = demo_owned" using fake_clear [OF clear] by (simp add: shared_world_def)
  then obtain w2 where del: "deleteCloudResources (lift_iam demo_client) demo_config (desired_of leaving_binding) w1 = (Ok (), w2)"
    "w_wibs w2 = w_wibs w1" using shared_delete by blast
  let ?neu = "leaving_binding\<lparr>wib_Finalizers :=
    filter (\<lambda>g. g \<noteq> BindingFinalizerName) (wib_Finalizers leaving_binding)\<rparr>"
  have "w_wibs w2 (''ns'', ''b'') = Some leaving_binding"
    using del(2) fake_clear [OF clear] by (simp add: shared_world_def)
  then obtain w3 where upd: "UpdateBinding fake_cluster ?neu w2 = (Inr (), w3)"
    by (simp add: fake_cluster_def leaving_facts)
  have got: "call (GetBinding fake_cluster ''ns'' ''b'') shared_world = (Ok leaving_binding, shared_world)"
    by (simp add: call_run shared_world_def)
  have fin: "kc_ContainsFinalizer fake_cluster (wib_Finalizers leaving_binding) BindingFinalizerName"
    "kc_RemoveFinalizer fake_cluster (wib_Finalizers leaving_binding) BindingFinalizerName =
       filter (\<lambda>g. g \<noteq> BindingFinalizerName) (wib_Finalizers leaving_binding)"
    by (simp_all add: leaving_facts)
  have rec: "reconcileBinding (lift_iam demo_client) fake_cluster demo_config leaving_binding
      (desired_of leaving_binding) True shared_world = (Ok (no_requeue, None, None), w3)"
    by (simp add: reconcileBinding_def reconcileDeletion_def leaving_facts leaving_desired tryE_run clear del(1) upd
        call_run fin finish_def okE_run del: fake_cluster_sel)
  show ?thesis
    by (simp add: ReconcileBinding_def tryE_run got bindE_run(1) [where m = "reconcileBinding a b c d e f" for a b c d e f, OF rec] leaving_facts fin okE_run Let_def del: fake_cluster_sel)
qed


end
