(* ===== verification/UnitTests.thy ===== *)
theory UnitTests
  imports AnnotationController PodProps ConfigProps EnsureProps
begin

text \<open>
  The unit tests of the repository, run on the model: one lemma per test function or subtest of
  \<^verbatim>\<open>internal/config\<close>, \<^verbatim>\<open>internal/wif\<close>, \<^verbatim>\<open>internal/controller\<close> and
  \<^verbatim>\<open>internal/webhook/podmutator\<close>, with the inputs and expectations of the Go code. They are
  evaluated by the simplifier, and show that the definitions compute what the program computes
  wherever its authors wrote an expectation down.
\<close>

section \<open>What the tests expect\<close>

text \<open>\<^verbatim>\<open>require.Contains\<close> on the text of an error, and \<^verbatim>\<open>require.NoError\<close> on one that may be nil.\<close>

definition text_contains :: "string \<Rightarrow> string \<Rightarrow> bool" where
  "text_contains s t = list_ex (prefix t) (suffixes s)"

definition fails_with :: "string \<Rightarrow> error option \<Rightarrow> bool" where
  "fails_with t e = (case e of None \<Rightarrow> False | Some e \<Rightarrow> text_contains (Error e) t)"

definition fails_in :: "string \<Rightarrow> error + 'a \<Rightarrow> bool" where
  "fails_in t r = (case r of Inl e \<Rightarrow> text_contains (Error e) t | Inr _ \<Rightarrow> False)"

section \<open>internal/config\<close>

lemma TestRefAllowed:
  "RefAllowed ''anything'' [] []"
  "RefAllowed ''obs-write'' [''obs-write''] []"
  "RefAllowed ''obs-write'' [''pol-1''] [''pol-1'']"
  "RefAllowed ''Obs-Write'' [''obs-write''] []"
  "\<not> RefAllowed ''iam:FullAccess'' [''obs-write''] []"
  by code_simp+

lemma TestCheckRefAllowlist:
  "CheckRefAllowlist ''policy'' ''x'' [] [] = None"
  "CheckRefAllowlist ''policy'' ''obs'' [''obs''] [''pol-1''] = None"
  "fails_with ''allowlist'' (CheckRefAllowlist ''policy'' ''bad'' [''obs''] [])"
  by code_simp+

text \<open>The zero value of \<^verbatim>\<open>Config\<close>, and the URIs of the tests, which parse.\<close>

definition zero_config :: Config where
  "zero_config = \<lparr>cfg_ThalassaURL = [], cfg_OrganisationID = [], cfg_ProjectIdentity = [],
     cfg_ClusterIdentity = [], cfg_ControllerServiceAccount = [], cfg_SubjectTokenFile = [],
     cfg_TrustedAudiences = [], cfg_WatchNamespaces = [], cfg_AllowedPolicies = [], cfg_AllowedRoles = [],
     cfg_ProbeAddr = [], cfg_MetricsAddr = [], cfg_EnableLeaderElection = False, cfg_RequeueMissingIDP = 0,
     cfg_EnableServiceAccountAnnotations = False, cfg_EnableIdentityConfigMap = False,
     cfg_EnableControllers = False, cfg_EnablePodMutator = False, cfg_WebhookCertDir = [],
     cfg_WebhookPort = 0, cfg_WebhookAudience = []\<rparr>"

definition validControllerConfig :: Config where
  "validControllerConfig = zero_config\<lparr>cfg_EnableControllers := True, cfg_ThalassaURL := DefaultThalassaURL,
     cfg_OrganisationID := ''org-1'', cfg_ClusterIdentity := ''k8s-1'',
     cfg_ControllerServiceAccount := ''sa-ctrl'',
     cfg_SubjectTokenFile := ''/var/run/secrets/thalassa/token'',
     cfg_TrustedAudiences := [''https://api.thalassa.cloud''], cfg_RequeueMissingIDP := 1000000000\<rparr>"

definition validWebhookConfig :: Config where
  "validWebhookConfig = zero_config\<lparr>cfg_EnablePodMutator := True, cfg_WebhookCertDir := ''/tmp/certs'',
     cfg_WebhookPort := 9443, cfg_WebhookAudience := DefaultWebhookAudience\<rparr>"

definition uri_ok :: uri_parser where
  "uri_ok u = None"

lemma TestConfigValidate:
  "Validate uri_ok validControllerConfig = None"
  "Validate uri_ok validWebhookConfig = None"
  "Validate uri_ok (validControllerConfig\<lparr>cfg_EnablePodMutator := True, cfg_WebhookCertDir := ''/tmp/certs'',
     cfg_WebhookPort := 9443, cfg_WebhookAudience := DefaultWebhookAudience\<rparr>) = None"
  "fails_with ''at least one of enable-controllers or enable-pod-mutator'' (Validate uri_ok zero_config)"
  "fails_with ''organisation is required''
     (Validate uri_ok (validControllerConfig\<lparr>cfg_OrganisationID := []\<rparr>))"
  "fails_with ''webhook-cert-dir is required'' (Validate uri_ok (validWebhookConfig\<lparr>cfg_WebhookCertDir := []\<rparr>))"
  "Validate uri_ok (validWebhookConfig\<lparr>cfg_OrganisationID := [], cfg_ClusterIdentity := []\<rparr>) = None"
  by code_simp+

lemma TestResolveWebhookAudience:
  "ResolveWebhookAudience (zero_config\<lparr>cfg_WebhookAudience := ''https://custom''\<rparr>) = ''https://custom''"
  "ResolveWebhookAudience (zero_config\<lparr>cfg_TrustedAudiences := [''https://aud'']\<rparr>) = ''https://aud''"
  "ResolveWebhookAudience zero_config = DefaultWebhookAudience"
  by code_simp+

section \<open>internal/wif/subject\_test.go\<close>

lemma TestBuildKubernetesSubject:
  "BuildKubernetesSubject ''monitoring'' ''prometheus'' = Inr ''system:serviceaccount:monitoring:prometheus''"
  "fails_in ''required'' (BuildKubernetesSubject [] ''x'')"
  "fails_in ''must not contain'' (BuildKubernetesSubject ''a/b'' ''x'')"
  by code_simp+

lemma TestParseScopes:
  "ParseScopes scope_consts [] = Inr [AccessCredentialsScopeOpenID]"
  "ParseScopes scope_consts ''openid,api:read'' =
     Inr [AccessCredentialsScopeOpenID, AccessCredentialsScopeAPIRead scope_consts]"
  "fails_in ''wildcard'' (ParseScopes scope_consts ''*'')"
  "fails_in ''unsupported'' (ParseScopes scope_consts ''nope'')"
  by code_simp+

lemma TestParseScopeList:
  "ParseScopeList scope_consts [] = Inr [AccessCredentialsScopeOpenID]"
  "ParseScopeList scope_consts [[], ''  ''] = Inr [AccessCredentialsScopeOpenID]"
  "ParseScopeList scope_consts [''api:write''] = Inr [AccessCredentialsScopeAPIWrite scope_consts]"
  by code_simp+

lemma TestIsEnabledAndDeleteResources:
  "\<not> IsEnabled fmempty"
  "IsEnabled (fmap_of_list [(AnnotationEnabled, ''true'')])"
  "\<not> DeleteResources fmempty"
  "DeleteResources (fmap_of_list [(AnnotationDeleteResources, ''true'')])"
  by (simp_all add: IsEnabled_def DeleteResources_def) code_simp+

section \<open>internal/controller\<close>

text \<open>A \<^verbatim>\<open>bindingDesired\<close> of namespace \<^verbatim>\<open>ns\<close> and account \<^verbatim>\<open>sa\<close>.\<close>

definition test_desired :: "string \<Rightarrow> string \<Rightarrow> bindingDesired" where
  "test_desired policy role = \<lparr>des_Namespace = ''ns'', des_ServiceAccount = ''sa'', des_PolicyRef = policy,
     des_PolicyID = [], des_RoleRef = role, des_Scopes = [], des_NameOverride = [],
     des_DeleteResources = False, des_IdentityConfigMap = False\<rparr>"

lemma TestValidateDesired:
  "validateDesired (test_desired ''obs-write'' []) = None"
  "validateDesired (test_desired [] ''reader'') = None"
  "fails_with ''at least one of policyRef or roleRef'' (validateDesired (test_desired [] []))"
  "fails_with ''wildcard'' (validateDesired (test_desired ''*'' []))"
  by code_simp+

lemma TestIdentityConfigMapName:
  "IdentityConfigMapName ''observability-proxy'' = ''wif-observability-proxy''"
  "IdentityConfigMapName ''  app  '' = ''wif-app''"
  by code_simp+

lemma TestIdentityConfigMapData:
  "let data = IdentityConfigMapData ''org-1'' ''sa-1'' [] in
     ValidateIdentityConfigMapData data = None \<and>
     get data ConfigMapKeyOrganisationID = ''org-1'' \<and> get data ConfigMapKeyServiceAccountID = ''sa-1'' \<and>
     fmlookup data ConfigMapKeyProjectID = None"
  "let data = IdentityConfigMapData ''org-1'' ''sa-1'' ''proj-1'' in
     ValidateIdentityConfigMapData data = None \<and>
     get data ConfigMapKeyOrganisationID = ''org-1'' \<and> get data ConfigMapKeyServiceAccountID = ''sa-1'' \<and>
     get data ConfigMapKeyProjectID = ''proj-1''"
  by code_simp+

lemma TestValidateIdentityConfigMapData:
  "ValidateIdentityConfigMapData (fmap_of_list [(ConfigMapKeyServiceAccountID, ''sa-1'')]) \<noteq> None"
  "ValidateIdentityConfigMapData (fmap_of_list [(ConfigMapKeyOrganisationID, ''org-1'')]) \<noteq> None"
  "ValidateIdentityConfigMapData (fmap_of_list [(ConfigMapKeyOrganisationID, ''org-1''),
     (ConfigMapKeyServiceAccountID, ''sa-1'')]) = None"
  by code_simp+

text \<open>\<^verbatim>\<open>emptyProvidersIAM\<close>: every list is empty, and every other call is unexpected.\<close>

definition unexpected :: "('a, unit) api" where
  "unexpected w = (Inl (OtherError ''unexpected''), w)"

definition emptyProvidersIAM :: "unit iam_client" where
  "emptyProvidersIAM = \<lparr>
     ic_consts = scope_consts,
     ListFederatedIdentityProviders = (\<lambda>_ w. (Inr [], w)),
     ListServiceAccounts = (\<lambda>_ w. (Inr [], w)),
     CreateServiceAccount = (\<lambda>_. unexpected),
     DeleteServiceAccount = (\<lambda>_. unexpected),
     ListFederatedIdentities = (\<lambda>_ w. (Inr [], w)),
     CreateFederatedIdentity = (\<lambda>_. unexpected),
     UpdateFederatedIdentity = (\<lambda>_ _. unexpected),
     DeleteFederatedIdentity = (\<lambda>_. unexpected),
     GetOrganisationRole = (\<lambda>_. unexpected),
     ListOrganisationRoles = (\<lambda>w. (Inr [], w)),
     ListRoleBindings = (\<lambda>_ w. (Inr [], w)),
     CreateRoleBinding = (\<lambda>_ _. unexpected),
     DeleteRoleBinding = (\<lambda>_ _. unexpected),
     ListIamPolicies = (\<lambda>w. (Inr [], w)),
     GetIamPolicy = (\<lambda>_. unexpected),
     ListIamPolicyBindings = (\<lambda>_ w. (Inr [], w)),
     CreateIamPolicyBinding = (\<lambda>_ _. unexpected),
     DeleteIamPolicyBinding = (\<lambda>_ _. unexpected)\<rparr>"

lemma TestDeleteCloudResourcesSkipsMissingIDP:
  "deleteCloudResources emptyProvidersIAM (zero_config\<lparr>cfg_ClusterIdentity := ''k8s-missing''\<rparr>)
     (test_desired ''pol-1'' []) () = (Ok (), ())"
  by code_simp

section \<open>internal/webhook/podmutator\<close>

definition basePod :: Pod where
  "basePod = \<lparr>pod_Namespace = ''ns'', pod_Labels = fmap_of_list [(LabelWIFUse, LabelWIFUseValue)],
     pod_ServiceAccountName = ''app'', pod_InitContainers = [],
     pod_Containers = [\<lparr>c_Name = ''app'', c_Env = [], c_VolumeMounts = []\<rparr>], pod_Volumes = []\<rparr>"

definition envValue :: "Container \<Rightarrow> string \<Rightarrow> string" where
  "envValue c name = (case find (\<lambda>e. env_Name e = name) (c_Env c) of None \<Rightarrow> [] | Some e \<Rightarrow> env_Value e)"

definition test_identity :: Identity where
  "test_identity = \<lparr>id_OrganisationID = ''org-1'', id_ServiceAccountID = ''sa-1'', id_ProjectID = ''proj-1''\<rparr>"

definition test_audience :: string where
  "test_audience = ''https://api.thalassa.cloud''"

text \<open>The pod after a mutation, and whether it was reported as changed.\<close>

definition mutates :: "Pod \<Rightarrow> Identity \<Rightarrow> string \<Rightarrow> bool" where
  "mutates p i a = fst (MutatePod (Some p) i a)"

definition pod_after :: "Pod \<Rightarrow> Identity \<Rightarrow> Pod" where
  "pod_after p i = (case snd (MutatePod (Some p) i test_audience) of None \<Rightarrow> p | Some p \<Rightarrow> p)"

lemma TestOptedIn:
  "\<not> OptedIn None"
  "\<not> OptedIn (Some (basePod\<lparr>pod_Labels := fmempty\<rparr>))"
  "\<not> OptedIn (Some (basePod\<lparr>pod_Labels := fmap_of_list [(LabelWIFUse, ''yes'')]\<rparr>))"
  "OptedIn (Some basePod)"
  by code_simp+

lemma TestIdentityFromServiceAccount:
  "IdentityFromServiceAccount (Some \<lparr>ksa_Namespace = [], ksa_Name = [],
     ksa_Annotations = fmap_of_list [(AnnotationOrganisationID, ''org-1''),
       (AnnotationServiceAccountID, ''sa-1''), (AnnotationProjectID, ''proj-1'')],
     ksa_Finalizers = [], ksa_Deleting = False\<rparr>) = test_identity"
  "Complete test_identity"
  "\<not> Complete (IdentityFromServiceAccount (Some \<lparr>ksa_Namespace = [], ksa_Name = [], ksa_Annotations = fmempty,
     ksa_Finalizers = [], ksa_Deleting = False\<rparr>))"
  by code_simp+

lemma TestMutatePod_noop:
  "\<not> mutates basePod (test_identity\<lparr>id_ServiceAccountID := [], id_ProjectID := []\<rparr>) test_audience"
  "\<not> mutates basePod test_identity []"
  by code_simp+

lemma TestMutatePod_injects:
  "mutates basePod test_identity test_audience"
  "pod_Volumes (pod_after basePod test_identity) = [thalassa_volume test_audience]"
  "vol_Name (thalassa_volume test_audience) = ProjectedVolumeName"
  "case vol_Projected (thalassa_volume test_audience) of None \<Rightarrow> False
     | Some srcs \<Rightarrow> (case src_ServiceAccountToken (hd srcs) of None \<Rightarrow> False
         | Some tok \<Rightarrow> tok_Audience tok = test_audience \<and> tok_Path tok = ProjectedTokenPath)"
  "let c = hd (pod_Containers (pod_after basePod test_identity)) in
     envValue c EnvOrganisationID = ''org-1'' \<and> envValue c EnvServiceAccountID = ''sa-1'' \<and>
     envValue c EnvProjectID = ''proj-1'' \<and> envValue c EnvSubjectTokenFile = DefaultSubjectTokenFile \<and>
     length (c_VolumeMounts c) = 1 \<and> vm_Name (hd (c_VolumeMounts c)) = ProjectedVolumeName"
  by code_simp+

lemma TestMutatePod_idempotent:
  "let p = pod_after basePod test_identity in
     \<not> mutates p test_identity test_audience \<and> length (pod_Volumes (pod_after p test_identity)) = 1 \<and>
     length (c_Env (hd (pod_Containers (pod_after p test_identity)))) = 4"
  by code_simp

lemma TestMutatePod_no_project:
  "let c = hd (pod_Containers (pod_after basePod (test_identity\<lparr>id_ProjectID := []\<rparr>))) in
     envValue c EnvProjectID = [] \<and> length (c_Env c) = 3"
  by code_simp

lemma TestMutatePod_init_containers:
  "let p = pod_after (basePod\<lparr>pod_InitContainers := [\<lparr>c_Name = ''init'', c_Env = [], c_VolumeMounts = []\<rparr>]\<rparr>)
         test_identity;
       c = hd (pod_InitContainers p)
   in envValue c EnvOrganisationID \<noteq> [] \<and> length (c_VolumeMounts c) = 1"
  by code_simp

lemma TestMutatePod_preserves_env:
  "let p = basePod\<lparr>pod_Containers := [\<lparr>c_Name = ''app'',
         c_Env = [\<lparr>env_Name = EnvOrganisationID, env_Value = ''already''\<rparr>], c_VolumeMounts = []\<rparr>]\<rparr>;
       c = hd (pod_Containers (pod_after p test_identity))
   in mutates p test_identity test_audience \<and>
      envValue c EnvOrganisationID = ''already'' \<and> envValue c EnvServiceAccountID = ''sa-1''"
  by code_simp

lemma TestMutatePod_equivalent_token:
  "let p = basePod\<lparr>
         pod_Volumes := [(thalassa_volume test_audience)\<lparr>vol_Name := ''custom-token''\<rparr>],
         pod_Containers := [\<lparr>c_Name = ''app'', c_Env = [], c_VolumeMounts =
           [\<lparr>vm_Name = ''custom-token'', vm_MountPath = ProjectedTokenMountPath, vm_ReadOnly = True\<rparr>]\<rparr>]\<rparr>;
       q = pod_after p test_identity
   in mutates p test_identity test_audience \<and> map vol_Name (pod_Volumes q) = [''custom-token''] \<and>
      length (c_VolumeMounts (hd (pod_Containers q))) = 1"
  by code_simp

section \<open>internal/wif/ensure\_test.go\<close>

text \<open>The inputs of the tests; \<^theory_text>\<open>EnsureProps\<close> has their provider, role, policy and constants.\<close>

definition test_input :: "string \<Rightarrow> string \<Rightarrow> string list \<Rightarrow> EnsureInput" where
  "test_input role policy allowed = demo_input\<lparr>in_RoleRef := role, in_PolicyRef := policy,
     in_AllowedPolicies := allowed\<rparr>"

definition role_iam :: fakeIAM where
  "role_iam = demo_iam\<lparr>policies := []\<rparr>"

definition policy_iam :: fakeIAM where
  "policy_iam = demo_iam\<lparr>roles := []\<rparr>"

lemma test_find:
  "FindProviderByClusterID demo_client ''k8s-1'' role_iam = (Ok demo_provider, role_iam)"
  "FindProviderByClusterID demo_client ''k8s-1'' policy_iam = (Ok demo_provider, policy_iam)"
  by (simp_all add: FindProviderByClusterID_def demo_trim demo_iam_def role_iam_def policy_iam_def
      demo_provider_def run_defs Let_def)

text \<open>A second run in the state that a successful one left.\<close>

lemma test_again:
  assumes "EnsureWorkloadIdentity demo_client inp w = (Ok r, w')" and "fis w = []"
  shows "EnsureWorkloadIdentity demo_client inp w' = (Ok r, w')"
  using iam_store_up.ensure_fixpoint [OF demo_store(1)] iam_store.ensure_ok [OF demo_store(2) assms(1)] assms(2)
  by simp

lemma TestEnsureWorkloadIdentityCreates:
  "\<exists>r f. EnsureWorkloadIdentity demo_client (test_input ''reader'' [] []) role_iam = (Ok r, f) \<and>
     res_ProviderID r = ''idp-1'' \<and> res_ServiceAccountID r = ''sa-new'' \<and> res_FederatedIdentityID r = ''fi-new'' \<and>
     createSACalls f = 1 \<and> createFICalls f = 1 \<and> createRBCalls f = 1 \<and>
     EnsureWorkloadIdentity demo_client (test_input ''reader'' [] []) f = (Ok r, f)"
proof -
  have "\<exists>r f. EnsureWorkloadIdentity demo_client (test_input ''reader'' [] []) role_iam = (Ok r, f) \<and>
     res_ProviderID r = ''idp-1'' \<and> res_ServiceAccountID r = ''sa-new'' \<and> res_FederatedIdentityID r = ''fi-new'' \<and>
     createSACalls f = 1 \<and> createFICalls f = 1 \<and> createRBCalls f = 1"
    apply (simp add: EnsureWorkloadIdentity_def checkE_run bindE_run validateEnsureInput_def demo_input_def
        test_input_def demo_trim test_find demo_facts Let_def)
    apply (simp add: demo_provider_def demo_facts demo_key_def [symmetric] bindE_run Let_def)
    apply (simp add: ensureServiceAccount_def findByLabelsSA_def demo_iam_def role_iam_def run_defs fake_ops Let_def)
    apply (simp add: ensureFederatedIdentity_def findByLabelsFI_def run_defs fake_ops Let_def)
    apply (simp add: ensurePolicyStep_def ensureRoleStep_def resolveOrganisationRole_def CheckRefAllowlist_def run_defs
        fake_ops Let_def demo_trim demo_fold demo_role_def ensureRoleBinding_def hasRoleBindingForSA_def)
    done
  then obtain r f where run: "EnsureWorkloadIdentity demo_client (test_input ''reader'' [] []) role_iam = (Ok r, f)"
    and expected: "res_ProviderID r = ''idp-1'' \<and> res_ServiceAccountID r = ''sa-new'' \<and>
      res_FederatedIdentityID r = ''fi-new'' \<and> createSACalls f = 1 \<and> createFICalls f = 1 \<and> createRBCalls f = 1"
    by blast
  have "fis role_iam = []" by (simp add: role_iam_def demo_iam_def)
  from test_again [OF run this] run expected show ?thesis by blast
qed


lemma TestEnsureWorkloadIdentityWithPolicy:
  "\<exists>r f. EnsureWorkloadIdentity demo_client (test_input [] ''obs-write'' []) policy_iam = (Ok r, f) \<and>
     res_PolicyID r = ''pol-1'' \<and> createPBCalls f = 1 \<and> createRBCalls f = 0 \<and>
     EnsureWorkloadIdentity demo_client (test_input [] ''obs-write'' []) f = (Ok r, f)"
proof -
  have "\<exists>r f. EnsureWorkloadIdentity demo_client (test_input [] ''obs-write'' []) policy_iam = (Ok r, f) \<and>
     res_PolicyID r = ''pol-1'' \<and> createPBCalls f = 1 \<and> createRBCalls f = 0"
    apply (simp add: EnsureWorkloadIdentity_def checkE_run bindE_run validateEnsureInput_def demo_input_def
        test_input_def demo_trim test_find demo_facts Let_def)
    apply (simp add: demo_provider_def demo_facts demo_key_def [symmetric] bindE_run Let_def)
    apply (simp add: ensureServiceAccount_def findByLabelsSA_def demo_iam_def policy_iam_def run_defs fake_ops Let_def)
    apply (simp add: ensureFederatedIdentity_def findByLabelsFI_def run_defs fake_ops Let_def)
    apply (simp add: ensurePolicyStep_def ensureRoleStep_def resolveIamPolicy_def CheckRefAllowlist_def run_defs
        fake_ops Let_def demo_trim demo_fold demo_policy_def ensurePolicyBinding_def hasPolicyBindingForSA_def)
    done
  then obtain r f where run: "EnsureWorkloadIdentity demo_client (test_input [] ''obs-write'' []) policy_iam = (Ok r, f)"
    and expected: "res_PolicyID r = ''pol-1'' \<and> createPBCalls f = 1 \<and> createRBCalls f = 0" by blast
  have "fis policy_iam = []" by (simp add: policy_iam_def demo_iam_def)
  from test_again [OF run this] run expected show ?thesis by blast
qed

lemma TestEnsureRequiresPolicyOrRole:
  "\<exists>e. EnsureWorkloadIdentity demo_client (test_input [] [] []) f = (Err e, f) \<and>
     fails_with ''at least one of policy or role'' (Some e)"
proof -
  have "fails_with ''at least one of policy or role'' (Some (ErrMsg ''at least one of policy or role is required''))"
    by code_simp
  then show ?thesis
    by (simp add: EnsureWorkloadIdentity_def validateEnsureInput_def test_input_def demo_input_def demo_trim
        checkE_def bindE_def failE_def)
qed

lemma TestFindProviderNotReady:
  "FindProviderByClusterID demo_client ''k8s-missing'' (demo_iam\<lparr>providers := []\<rparr>) =
     (Err (ErrProviderNotReady ''k8s-missing''), demo_iam\<lparr>providers := []\<rparr>)"
  "asProviderNotReady (ErrProviderNotReady ''k8s-missing'') \<noteq> None"
proof -
  have "TrimSpace ''k8s-missing'' = ''k8s-missing''" by code_simp
  then show "FindProviderByClusterID demo_client ''k8s-missing'' (demo_iam\<lparr>providers := []\<rparr>) =
     (Err (ErrProviderNotReady ''k8s-missing''), demo_iam\<lparr>providers := []\<rparr>)"
    by (simp add: FindProviderByClusterID_def run_defs Let_def)
qed simp


text \<open>What a first run leaves when the policy is refused: the account and the federated identity.\<close>

definition test_names :: "string \<times> string" where
  "test_names = DefaultResourceNames demo_key []"

definition test_sa :: ServiceAccount where
  "test_sa = (let q = sa_create_request (fst test_names) demo_subject ''ns'' ''app'' demo_labels in
     \<lparr>sa_Identity = ''sa-new'', sa_Name = csa_Name q, sa_Labels = demo_labels, sa_Annotations = csa_Annotations q\<rparr>)"

definition test_fi :: FederatedIdentity where
  "test_fi = \<lparr>fi_Identity = ''fi-new'', fi_Name = snd test_names, fi_Description = fi_description demo_subject,
     fi_Labels = demo_labels, fi_Annotations = fmap_of_list [(AnnotationProviderSubject, demo_subject)],
     fi_ProviderSubject = demo_subject, fi_TrustedAudiences = [''https://api.thalassa.cloud''],
     fi_AudienceMatchMode = ''any'', fi_AllowedScopes = [''api:read'']\<rparr>"

definition refused_iam :: fakeIAM where
  "refused_iam = policy_iam\<lparr>createSACalls := 1, sas := [test_sa], createFICalls := 1, fis := [test_fi]\<rparr>"

lemma test_find_refused:
  "FindProviderByClusterID demo_client ''k8s-1'' refused_iam = (Ok demo_provider, refused_iam)"
  by (simp add: FindProviderByClusterID_def demo_trim demo_iam_def refused_iam_def policy_iam_def
      demo_provider_def run_defs Let_def)

lemma test_fi_settled:
  "\<not> fiNeedsUpdate demo_consts test_fi (snd test_names) (fi_description demo_subject) demo_subject [''api:read'']
     [''https://api.thalassa.cloud''] demo_labels"
  by (simp add: fiNeedsUpdate_def test_fi_def demo_labels_self scopesEqual_def audiencesEqual_def demo_consts_def)

lemma test_fold:
  "EqualFold ''other-policy'' ''obs-write'' = False" "EqualFold ''other-policy'' ''pol-1'' = False"
  "EqualFold ''other-policy'' ''Obs Write'' = False" "EqualFold ''pol-1'' ''pol-1'' = True"
  "TrimSpace ''other-policy'' = ''other-policy''" "TrimSpace ''Obs Write'' = ''Obs Write''"
  by code_simp+

lemma TestEnsurePolicyAllowlist:
  "\<exists>e. EnsureWorkloadIdentity demo_client (test_input [] ''obs-write'' [''other-policy'']) policy_iam =
      (Err e, refused_iam) \<and> fails_with ''allowlist'' (Some e) \<and> createPBCalls refused_iam = 0"
  "\<exists>r f. EnsureWorkloadIdentity demo_client (test_input [] ''obs-write'' [''pol-1'']) refused_iam = (Ok r, f) \<and>
     res_PolicyID r = ''pol-1''"
proof -
  have "fails_with ''allowlist'' (CheckRefAllowlist ''policy'' ''obs-write'' [''other-policy'']
      [''pol-1'', ''obs-write'', ''Obs Write''])" by code_simp
  then obtain e where denied: "CheckRefAllowlist ''policy'' ''obs-write'' [''other-policy'']
      [''pol-1'', ''obs-write'', ''Obs Write''] = Some e" "fails_with ''allowlist'' (Some e)"
    by (auto simp: fails_with_def split: option.splits)
  show "\<exists>e. EnsureWorkloadIdentity demo_client (test_input [] ''obs-write'' [''other-policy'']) policy_iam =
      (Err e, refused_iam) \<and> fails_with ''allowlist'' (Some e) \<and> createPBCalls refused_iam = 0"
    apply (simp add: EnsureWorkloadIdentity_def checkE_run bindE_run validateEnsureInput_def demo_input_def
        test_input_def demo_trim test_find demo_facts Let_def)
    apply (simp add: demo_provider_def demo_facts demo_key_def [symmetric] demo_labels_def [symmetric]
        test_names_def [symmetric] bindE_run Let_def)
    apply (simp add: ensureServiceAccount_def findByLabelsSA_def demo_iam_def policy_iam_def run_defs fake_ops Let_def)
    apply (simp add: ensureFederatedIdentity_def findByLabelsFI_def run_defs fake_ops Let_def)
    apply (simp add: ensurePolicyStep_def resolveIamPolicy_def run_defs fake_ops Let_def demo_trim demo_fold
        demo_policy_def denied)
    apply (simp add: refused_iam_def policy_iam_def demo_iam_def test_sa_def test_fi_def fi_create_request_def
        sa_create_request_def demo_provider_def demo_policy_def demo_consts_def Let_def)
    done
  show "\<exists>r f. EnsureWorkloadIdentity demo_client (test_input [] ''obs-write'' [''pol-1'']) refused_iam = (Ok r, f) \<and>
     res_PolicyID r = ''pol-1''"
    apply (simp add: EnsureWorkloadIdentity_def checkE_run bindE_run validateEnsureInput_def demo_input_def
        test_input_def demo_trim test_find_refused demo_facts Let_def)
    apply (simp add: demo_provider_def demo_facts demo_key_def [symmetric] demo_labels_def [symmetric]
        test_names_def [symmetric] bindE_run Let_def)
    apply (simp add: ensureServiceAccount_def findByLabelsSA_def refused_iam_def test_sa_def demo_labels_self
        demo_iam_def policy_iam_def run_defs fake_ops Let_def)
    apply (simp add: ensureFederatedIdentity_def findByLabelsFI_def run_defs fake_ops Let_def test_fi_settled)
    apply (simp add: ensurePolicyStep_def ensureRoleStep_def resolveIamPolicy_def CheckRefAllowlist_def RefAllowed_def
        run_defs fake_ops Let_def demo_trim demo_fold test_fold demo_policy_def ensurePolicyBinding_def
        hasPolicyBindingForSA_def)
    done
qed


definition stale_iam :: fakeIAM where
  "stale_iam = role_iam\<lparr>
     sas := [\<lparr>sa_Identity = ''sa-1'', sa_Name = [], sa_Labels = demo_labels, sa_Annotations = fmempty\<rparr>],
     fis := [\<lparr>fi_Identity = ''fi-1'', fi_Name = ''old'', fi_Description = ''old'', fi_Labels = demo_labels,
       fi_Annotations = fmap_of_list [(AnnotationProviderSubject, demo_subject)],
       fi_ProviderSubject = demo_subject, fi_TrustedAudiences = [''https://api.thalassa.cloud''],
       fi_AudienceMatchMode = ''any'', fi_AllowedScopes = [''api:read'']\<rparr>],
     bindings := (\<lambda>_. [])(''role-1'' := [\<lparr>b_Identity = ''rb-1'', b_Name = [], b_Labels = demo_labels,
       b_ServiceAccount = bound_account (Some ''sa-1'')\<rparr>])\<rparr>"

lemma test_find_stale:
  "FindProviderByClusterID demo_client ''k8s-1'' stale_iam = (Ok demo_provider, stale_iam)"
  by (simp add: FindProviderByClusterID_def demo_trim demo_iam_def stale_iam_def role_iam_def
      demo_provider_def run_defs Let_def)

lemma TestEnsureUpdatesFederatedIdentity:
  "\<exists>r f. EnsureWorkloadIdentity demo_client
      ((test_input ''reader'' [] [])\<lparr>in_Scopes := [''api:read'', ''api:write'']\<rparr>) stale_iam = (Ok r, f) \<and>
     updateFICalls f = 1 \<and> createFICalls f = 0"
  apply (simp add: EnsureWorkloadIdentity_def checkE_run bindE_run validateEnsureInput_def demo_input_def
      test_input_def demo_trim test_find_stale demo_facts Let_def)
  apply (simp add: demo_provider_def demo_facts demo_key_def [symmetric] demo_labels_def [symmetric]
      test_names_def [symmetric] bindE_run Let_def)
  apply (simp add: ensureServiceAccount_def findByLabelsSA_def stale_iam_def role_iam_def demo_labels_self
      demo_iam_def run_defs fake_ops Let_def)
  apply (simp add: ensureFederatedIdentity_def findByLabelsFI_def demo_labels_self fiNeedsUpdate_def scopesEqual_mset
      fakeUpdateFederatedIdentity_def run_defs fake_ops Let_def)
  apply (simp add: ensurePolicyStep_def ensureRoleStep_def resolveOrganisationRole_def CheckRefAllowlist_def run_defs
      fake_ops Let_def demo_trim demo_fold demo_role_def ensureRoleBinding_def hasRoleBindingForSA_def
      binds_sa_def bound_account_def)
  done

end
