(* ===== verification/Watches.thy ===== *)
theory Watches
  imports BindingStatus ConfigProps
begin

text \<open>
  What the controllers and the webhook see of the cluster: the \<^verbatim>\<open>SetupWithManager\<close> functions
  (which objects a controller is set up for, which it owns, and the filter of its events), and
  the cache the manager's client reads from, restricted to the namespaces that \<^verbatim>\<open>cmd/main.go\<close>
  gives it. How events become requests and how the cache answers is controller-runtime's
  documented behaviour, a hypothesis of the properties.
\<close>

section \<open>Setup with the manager\<close>

datatype object_kind = ServiceAccountKind | WorkloadIdentityBindingKind | ConfigMapKind

datatype kobject =
    ServiceAccountObject KubeServiceAccount
  | WorkloadIdentityBindingObject WorkloadIdentityBinding
  | ConfigMapObject ConfigMap

fun kind_of :: "kobject \<Rightarrow> object_kind" where
  "kind_of (ServiceAccountObject _) = ServiceAccountKind"
| "kind_of (WorkloadIdentityBindingObject _) = WorkloadIdentityBindingKind"
| "kind_of (ConfigMapObject _) = ConfigMapKind"

fun key_of :: "kobject \<Rightarrow> string \<times> string" where
  "key_of (ServiceAccountObject sa) = (ksa_Namespace sa, ksa_Name sa)"
| "key_of (WorkloadIdentityBindingObject b) = (wib_Namespace b, wib_Name b)"
| "key_of (ConfigMapObject cm) = (cm_Namespace cm, cm_Name cm)"

text \<open>Go's type assertions \<^verbatim>\<open>obj.(*T)\<close>.\<close>

fun as_binding :: "kobject \<Rightarrow> WorkloadIdentityBinding option" where
  "as_binding (WorkloadIdentityBindingObject b) = Some b"
| "as_binding _ = None"

fun as_account :: "kobject \<Rightarrow> KubeServiceAccount option" where
  "as_account (ServiceAccountObject sa) = Some sa"
| "as_account _ = None"

text \<open>What the builder is given; \<^verbatim>\<open>WithEventFilter\<close> is one filter for every watch.\<close>

record controller_setup =
  setup_For :: object_kind
  setup_Owns :: "object_kind list"
  setup_Filter :: "kobject \<Rightarrow> bool"

definition binding_setup :: "Config \<Rightarrow> controller_setup" where
  "binding_setup cfg = \<lparr>
     setup_For = WorkloadIdentityBindingKind,
     setup_Owns = [ConfigMapKind],
     setup_Filter = (\<lambda>obj. binding_event_filter cfg (as_binding obj))\<rparr>"

definition account_setup :: "'w kube_client \<Rightarrow> Config \<Rightarrow> controller_setup" where
  "account_setup k cfg = \<lparr>
     setup_For = ServiceAccountKind,
     setup_Owns = [],
     setup_Filter = (\<lambda>obj. account_event_filter k cfg (as_account obj))\<rparr>"

text \<open>
  The documented behaviour of a controller built from a setup: an event of an object the filter
  refuses causes no request, and an event of an object it was set up for causes the request of
  this object. What a change of an owned object causes is left open.
\<close>

definition delivers :: "(controller_setup \<Rightarrow> kobject \<Rightarrow> (string \<times> string) list) \<Rightarrow> bool" where
  "delivers deliver \<longleftrightarrow>
     (\<forall>s obj. (\<not> setup_Filter s obj \<longrightarrow> deliver s obj = []) \<and>
        (setup_Filter s obj \<and> kind_of obj = setup_For s \<longrightarrow> key_of obj \<in> set (deliver s obj)))"

lemma delivers_own:
  "delivers deliver \<Longrightarrow> kind_of obj = setup_For s \<Longrightarrow>
   (key_of obj \<in> set (deliver s obj)) = setup_Filter s obj"
  by (cases "setup_Filter s obj") (auto simp: delivers_def)


text \<open>A controller that also requests the owner of a ConfigMap.\<close>

definition demo_deliver :: "controller_setup \<Rightarrow> kobject \<Rightarrow> (string \<times> string) list" where
  "demo_deliver s obj =
     (if \<not> setup_Filter s obj then []
      else if kind_of obj = setup_For s then [key_of obj]
      else if kind_of obj \<in> set (setup_Owns s) then
        (case obj of ConfigMapObject cm \<Rightarrow> (case cm_Owner cm of None \<Rightarrow> [] | Some key \<Rightarrow> [key]) | _ \<Rightarrow> [])
      else [])"


section \<open>The restricted cache\<close>

text \<open>
  The documented behaviour of a client that reads from a cache restricted to some namespaces:
  a read in another namespace fails, and not with NotFound.
\<close>

definition reads_through :: "string list \<Rightarrow> 'w kube_client \<Rightarrow> bool" where
  "reads_through nss k \<longleftrightarrow>
     (nss = [] \<or> (\<forall>ns n w. ns \<in> set nss \<or>
        (\<exists>t w'. GetServiceAccount k ns n w = (Inl (OtherError t), w'))))"

lemma contains_set: "contains xs x \<longleftrightarrow> x \<in> set xs"
  by (auto simp: contains_def list_ex_iff)

text \<open>
  C39: one process for everything and the watched namespaces: when the controllers and the
  webhook run in one process, the list of watched namespaces restricts the cache of the client
  that the webhook reads from as well. A pod outside of them that opts in is not let through
  but answered with an internal error, which denies its creation.
\<close>

theorem unwatched_pod_refused:
  assumes "start env f = Inr (cfg, tc, opts, comps)"
    and "BindingReconciler \<in> set comps" and "PodMutatorWebhook path audience \<in> set comps"
    and "reads_through (mo_CacheNamespaces opts) k"
    and "decode req = Inr pod" and "get (pod_Labels pod) LabelWIFUse = ''true''"
    and "pod_Namespace pod = []" and "\<not> watched cfg (req_Namespace req)"
  shows "\<exists>e. fst (Handle k decode marshal audience req w) = Ok (Errored 500 e)"
proof -
  note st = start_ok [OF assms(1)]
  have "cfg_EnableControllers cfg"
    using assms(2) by (auto simp: st(4) registrations_def split: if_splits)
  moreover from assms(8) have nss: "cfg_WatchNamespaces cfg \<noteq> []" "req_Namespace req \<notin> set (cfg_WatchNamespaces cfg)"
    by (auto simp: watched_def contains_set)
  ultimately have "mo_CacheNamespaces opts = cfg_WatchNamespaces cfg"
    by (simp add: st(3) manager_options_of_def)
  with assms(4) nss have read: "\<exists>t w'. GetServiceAccount k (req_Namespace req) n w = (Inl (OtherError t), w')" for n
    by (auto simp: reads_through_def)
  define n where "n = (if pod_ServiceAccountName pod = [] then ''default'' else pod_ServiceAccountName pod)"
  from read [of n] obtain t w' where
    get: "GetServiceAccount k (req_Namespace req) n w = (Inl (OtherError t), w')" by blast
  then show ?thesis
    using Handle_opted [where decode = decode and k = k and marshal = marshal and audience = audience,
        OF assms(5,6)] assms(7)
    by (simp add: n_def [symmetric] tryE_def call_def okE_def)
qed

text \<open>The cluster of the witnesses, read through a cache of the namespace \<^verbatim>\<open>team-a\<close>.\<close>

definition team_cluster :: "world kube_client" where
  "team_cluster = fake_cluster\<lparr>GetServiceAccount := (\<lambda>ns n w.
     if ns = ''team-a'' then GetServiceAccount fake_cluster ns n w
     else (Inl (OtherError ''unable to get: unknown namespace for the cache''), w))\<rparr>"

definition team_flags :: flags where
  "team_flags = demo_flags\<lparr>f_watchNamespacesRaw := ''team-a''\<rparr>"

lemma team_start: "\<exists>cfg tc opts comps. start demo_env team_flags = Inr (cfg, tc, opts, comps)"
proof -
  have "case start demo_env team_flags of Inl _ \<Rightarrow> False | Inr _ \<Rightarrow> True" by code_simp
  then show ?thesis by (cases "start demo_env team_flags") auto
qed

theorem unwatched_pod_refused_witness:
  "\<exists>cfg tc opts comps aud e. start demo_env team_flags = Inr (cfg, tc, opts, comps) \<and>
     PodMutatorWebhook podMutatorPath aud \<in> set comps \<and>
     fst (Handle team_cluster (\<lambda>_. Inr (demo_pod\<lparr>pod_Namespace := []\<rparr>)) (\<lambda>_. Inr ''{patched}'') aud
       demo_request demo_cluster_world) = Ok (Errored 500 e)"
proof -
  obtain cfg tc opts comps where run: "start demo_env team_flags = Inr (cfg, tc, opts, comps)"
    using team_start by blast
  note st = start_ok [OF run]
  have on: "cfg_EnableControllers cfg" "cfg_EnablePodMutator cfg"
    by (simp_all add: st(1) flags_config_def team_flags_def demo_flags_def default_flags_def)
  have "splitCSV ''team-a'' = [''team-a'']" by code_simp
  then have nss: "cfg_WatchNamespaces cfg = [''team-a'']"
    by (simp add: st(1) flags_config_def team_flags_def adjust_config_def Let_def)
  have comps: "BindingReconciler \<in> set comps"
    "PodMutatorWebhook podMutatorPath (ResolveWebhookAudience cfg) \<in> set comps"
    using on by (simp_all add: st(4) registrations_def)
  have cache: "reads_through (mo_CacheNamespaces opts) team_cluster"
    using on nss by (simp add: reads_through_def st(3) manager_options_of_def team_cluster_def)
  have "get (pod_Labels (demo_pod\<lparr>pod_Namespace := []\<rparr>)) LabelWIFUse = ''true''"
    by (simp add: demo_pod_fields)
  moreover have "\<not> watched cfg (req_Namespace demo_request)"
    by (simp add: watched_def contains_set nss demo_request_def)
  ultimately have "\<exists>e. fst (Handle team_cluster (\<lambda>_. Inr (demo_pod\<lparr>pod_Namespace := []\<rparr>))
      (\<lambda>_. Inr ''{patched}'') (ResolveWebhookAudience cfg) demo_request demo_cluster_world) = Ok (Errored 500 e)"
    by (intro unwatched_pod_refused [OF run comps cache, where pod = "demo_pod\<lparr>pod_Namespace := []\<rparr>"]) simp_all
  with run comps show ?thesis by blast
qed

end
