(* ===== verification/Spec2Isabelle.thy ===== *)
theory Spec2Isabelle
  imports ApiTypes CommandLine ControllerProps DeepCopy KeyTests LifecycleProps Overlap PodProps Schedule
    SharedAccount UnitTests Watches
begin

text \<open>
  A model of the Thalassa workload identity controller, and what makes it correct.

  THE PROGRAM. A Kubernetes controller gives service accounts of a cluster an identity in the
  Thalassa cloud. A WorkloadIdentityBinding (or, in a legacy mode, annotations of a service
  account) names a policy or role; the controller creates a Thalassa service account, a federated
  identity for the account's JWT subject and the bindings, and writes the resulting identifiers
  on the account. A webhook gives the pods of such accounts the environment and the projected
  token they need to exchange their JWT. \<^verbatim>\<open>cmd/main.go\<close> starts the controllers and the webhook.

  THE MODEL. Everything outside the process is an explicit state \<open>'w\<close> that programs take and
  return (\<^theory_text>\<open>Prelude\<close>): a program ends with a value, a Go error, or a panic. The IAM API
  (\<^theory_text>\<open>IamApi\<close>) and the Kubernetes API (\<^theory_text>\<open>KubeApi\<close>) are records of operations on that state,
  because their code is not in the repository. Instrumented clients record every call with its
  answer; many properties are about this trace and hold whatever the APIs answer. Properties
  about stored objects assume the documented laws of a store: the locales \<open>iam_store\<close>,
  \<open>iam_store_up\<close> and \<open>iam_store_del\<close>, interpreted on the in-memory API of
  \<^verbatim>\<open>internal/wif/ensure_test.go\<close> (\<^theory_text>\<open>FakeIam\<close>), and \<open>iam_store_fresh\<close>, where new accounts get
  new identities, on the same API with another naming (\<^theory_text>\<open>Registry\<close>).

  THEORIES AND CODE.
  \<^theory_text>\<open>GoStrings\<close>, \<^theory_text>\<open>Sha256\<close>: the parts of Go's library the code uses (\<^verbatim>\<open>strings\<close>, \<^verbatim>\<open>fmt\<close> quoting,
  \<^verbatim>\<open>crypto/sha256\<close>, on 32-bit words).
  \<^theory_text>\<open>Allowlist\<close>, \<^theory_text>\<open>Config\<close>: \<^verbatim>\<open>internal/config\<close>. \<^theory_text>\<open>Subject\<close>: \<^verbatim>\<open>internal/wif/annotations.go\<close> and
  \<^verbatim>\<open>subject.go\<close>. \<^theory_text>\<open>ThalassaClient\<close>: \<^verbatim>\<open>internal/thalassa/client.go\<close>.
  \<^theory_text>\<open>Startup\<close>: \<^verbatim>\<open>cmd/main.go\<close> from the parsed flags to the running manager; \<^theory_text>\<open>GoFlags\<close> (Go's
  \<^verbatim>\<open>flag\<close> package with the three parsers of \<^verbatim>\<open>strconv\<close> and \<^verbatim>\<open>time\<close> it calls, durations with their
  overflow checks) and \<^theory_text>\<open>CommandLine\<close> (the flags \<^verbatim>\<open>main\<close> declares, and the process from its
  arguments to its exit status).
  \<^theory_text>\<open>ApiTypes\<close>: \<^verbatim>\<open>api/v1beta1\<close>, that is its constants, the scheme registration, and what the API
  server makes of the validation markers and the default; \<^theory_text>\<open>DeepCopy\<close>: the generated deep copies,
  over a memory of cells in which slices and pointers can be shared.
  \<^theory_text>\<open>Ensure\<close>: \<^verbatim>\<open>internal/wif/ensure.go\<close>; \<^theory_text>\<open>EnsureTrace\<close> (what its calls may be) and
  \<^theory_text>\<open>EnsureStore\<close> (what it does to a store) carry its properties in \<^theory_text>\<open>EnsureProps\<close>.
  \<^theory_text>\<open>Registry\<close>: the accounts in the cloud as an abstract set of workloads, which any sequence of
  runs implements; \<^theory_text>\<open>Overlap\<close>: two runs that interleave, which do not.
  \<^theory_text>\<open>IdentityConfigMap\<close>, \<^theory_text>\<open>BindingReconcile\<close>, \<^theory_text>\<open>BindingController\<close>, \<^theory_text>\<open>AnnotationController\<close>:
  \<^verbatim>\<open>internal/controller\<close>; \<^theory_text>\<open>ControllerTrace\<close>, \<^theory_text>\<open>BindingReady\<close>, \<^theory_text>\<open>BindingStatus\<close> and
  \<^theory_text>\<open>ControllerProps\<close> carry their properties. \<^theory_text>\<open>Watches\<close>: the two \<^verbatim>\<open>SetupWithManager\<close> functions,
  and the cache of the manager that controllers and webhook read from.
  \<^theory_text>\<open>PodMutator\<close>: \<^verbatim>\<open>internal/webhook/podmutator\<close>, with the locale \<open>injector\<close> (a step that
  reports whether it changed something) interpreted on every step; \<^theory_text>\<open>PodProps\<close> its properties.
  \<^theory_text>\<open>IdentityChannel\<close>: the annotations as the interface between controller and webhook, as a
  locale interpreted on the functions that write, clear and read them.
  \<^theory_text>\<open>FakeKube\<close>, \<^theory_text>\<open>FakeLift\<close>: a concrete cluster for the witnesses; not part of the program.
  \<^theory_text>\<open>ConfigProps\<close>: the properties of the parts without effects and of a started process.
  \<^theory_text>\<open>Steps\<close>, \<^theory_text>\<open>Lifecycle\<close>, \<^theory_text>\<open>LifecycleInv\<close>, \<^theory_text>\<open>LifecycleProps\<close>: a cluster in which users edit
  bindings and accounts and both controllers reconcile in any order. Others may act before and
  after every single call of a reconciliation, within the relation \<open>calm\<close>; calls may fail or lose
  their answers. Reads are those of a cache that has caught up, and no finalizer of the controllers
  is touched by others. The locale \<open>cluster\<close> states this of a pair of clients; it is interpreted on the store alone, and on clients
  in whose calls a scripted environment interferes (\<^theory_text>\<open>Meddling\<close>). The two controllers do not
  overlap there: a reconciliation of one runs between those of the other.
  \<^theory_text>\<open>KeptAccounts\<close>: what the reconciliations of one account leave of another; \<^theory_text>\<open>SharedAccount\<close>:
  what the deletion of one binding does to another of the same account.
  \<^theory_text>\<open>Liveness\<close>, \<^theory_text>\<open>AnnotatedReady\<close>: repeated reconciliations of one binding, or of one annotated
  account, in a concrete cluster; \<^theory_text>\<open>Schedule\<close>: a work queue that serves both kinds in any order.
  This root theory composes the latter with the process start.
  \<^theory_text>\<open>UnitTests\<close>, \<^theory_text>\<open>KeyTests\<close>: the unit tests of the repository, evaluated on the model.

  WHAT IS SHOWN. Ensuring establishes what was asked for, is idempotent, writes only resources
  with the ownership labels, and binds only what the allow lists permit. Deleting touches only
  owned resources, leaves none behind, and happens only on request; finalizers go last. A ready
  binding means that pods of the account get exactly the reported identity, and a withdrawn one
  that they get none. No account in the cloud outlives the finalizers of what asked for it, as long
  as the cluster's provider stays and \<^verbatim>\<open>serviceAccountName\<close> is not edited. Whatever the order in which
  a started process serves bindings and annotated accounts, each one whose references exist and are
  allowed is ready once it was served twice, and stays so. The pod mutation is idempotent, reports
  changes honestly and only appends. The status keeps an invariant over any history of
  reconciliations. The accounts in the cloud are a registry of workloads, in which successful runs
  that do not overlap enter and strike off, one account each. Deep copies are equal to their original and independent of it. The flags of a configuration, written as
  arguments, start a process with this configuration. Validation layers agree: the API server's
  admission with the reconciler's validation, and this one with what ensuring checks, so that a
  valid binding in a started process is never refused further down. Behaviours that are not
  as intended are shown as theorems too: an account left behind by a renamed binding, two accounts for
  one workload after runs that overlap, an account
  taken from a binding that shares it, a dangling mount, a federated identity that never settles,
  status writes that cause the next reconciliation (and a ConfigMap watch that never fires), an
  annotation path that never publishes the organisation, arguments dropped after a stray one, references that are blank or a wildcard
  only after trimming and pass admission, and pods of unwatched namespaces that are refused.

  LOOPS. The loops of the program itself run over finite slices and are structural recursions;
  there is no fuel. The block loop of SHA-256, the loop of the flag parser and the loops of the
  duration parser have termination proofs.

  NOT MODELLED. The client libraries, the manager and its work queue, logging, the printer columns
  of the CRD, the flags that other packages register, and the deployment charts. The \<^verbatim>\<open>Now\<close> field of the
  reconcilers, which tests set, is the clock of the cluster client. Integers of the program are
  only compared or passed on, except in SHA-256 and in the flag parser.
\<close>

section \<open>From the command line to ready objects\<close>


text \<open>
  A cluster in which the account \<open>app\<close> is annotated and a binding asks for the same account.
\<close>

definition new_binding :: WorkloadIdentityBinding where
  "new_binding = demo_binding\<lparr>wib_Finalizers := []\<rparr>"

lemma demo_bindable:
  assumes "cfg_WatchNamespaces cfg = []" "cfg_ClusterIdentity cfg = ''k8s-1''"
    "cfg_AllowedPolicies cfg = []" "cfg_AllowedRoles cfg = []"
    and "w_wibs w (''ns'', ''b'') = Some new_binding" "w_sas w (''ns'', ''app'') = Some sa" "w_iam w = demo_iam"
  shows "bindable demo_consts cfg ''ns'' ''b'' w"
proof -
  let ?inp = "desired_input cfg (desired_of new_binding) [''api:read'']"
  have "satisfiable_input demo_consts ?inp demo_iam"
    by (rule demo_satisfiable)
      (simp_all add: desired_input_def desired_of_def new_binding_def demo_binding_def assms demo_trim)
  moreover have "validateDesired (desired_of new_binding) = None"
    by (simp add: validateDesired_def desired_of_def new_binding_def demo_binding_def demo_trim Let_def)
  ultimately show ?thesis
    unfolding bindable_def
    by (intro exI [of _ new_binding] exI [of _ sa] exI [of _ "[''api:read'']"] exI [of _ demo_subject])
      (simp add: satisfiable_input_def new_binding_def demo_binding_def watched_def assms demo_scopes demo_facts)
qed

definition crowded_world :: world where
  "crowded_world = annotated_world\<lparr>w_wibs := (\<lambda>_. None)((''ns'', ''b'') := Some new_binding)\<rparr>"

definition crowded_queue :: "request list" where
  "crowded_queue =
     [AccountRequest ''ns'' ''app'', BindingRequest ''ns'' ''b'', BindingRequest ''ns'' ''b'', AccountRequest ''ns'' ''app'']"


section \<open>A single binding\<close>

text \<open>
  The same for a queue that holds one binding again and again: the binding is in phase Ready
  after two reconciliations, and after every further one.
\<close>

theorem binding_becomes_ready:
  assumes "start env f = Inr (cfg, tc, opts, comps)" and "BindingReconciler \<in> set comps"
    and "bindable k cfg ns n w" and "2 \<le> m"
  shows "\<exists>b. w_wibs (reconciled_world k cfg ns n m w) (ns, n) = Some b \<and>
    st_Phase (wib_Status b) = StatusReady \<and> BindingFinalizerName \<in> set (wib_Finalizers b)"
proof -
  note st = start_ok [OF assms(1)]
  have "cfg_EnableControllers cfg"
    using assms(2) by (auto simp: st(4) registrations_def split: if_splits)
  with st(2) have "controller_ready (env_parse_uri env) cfg" by (simp add: Validate_None)
  from reconciled_ready [OF this assms(3), of m] assms(4) show ?thesis by auto
qed

definition new_world :: world where
  "new_world = demo_world\<lparr>w_wibs := (w_wibs demo_world)((''ns'', ''b'') := Some new_binding)\<rparr>"

lemma new_bindable:
  assumes "start demo_env demo_flags = Inr (cfg, tc, opts, comps)"
  shows "bindable demo_consts cfg ''ns'' ''b'' new_world"
proof -
  have "cfg_WatchNamespaces cfg = []" "cfg_ClusterIdentity cfg = ''k8s-1''"
    "cfg_AllowedPolicies cfg = []" "cfg_AllowedRoles cfg = []"
    by (simp_all add: start_ok(1) [OF assms] flags_config_def demo_flags_def default_flags_def
        splitCSV_def demo_trim)
  from demo_bindable [OF this, of new_world demo_ksa] show ?thesis
    by (simp add: new_world_def demo_world_def)
qed

theorem binding_becomes_ready_witness:
  "\<exists>cfg b. w_wibs (reconciled_world demo_consts cfg ''ns'' ''b'' 2 new_world) (''ns'', ''b'') = Some b \<and>
     st_Phase (wib_Status b) = StatusReady"
proof -
  obtain cfg tc opts comps where run: "start demo_env demo_flags = Inr (cfg, tc, opts, comps)"
    using demo_start by blast
  have "f_enableControllers demo_flags" by (simp add: demo_flags_def default_flags_def)
  then have "BindingReconciler \<in> set comps"
    by (simp add: start_ok(4) [OF run] registrations_def start_ok(1) [OF run] flags_config_def)
  from binding_becomes_ready [OF run this new_bindable [OF run], of 2] show ?thesis by auto
qed

end
